theory Spec2Isabelle
  imports Complex_Main "HOL-Library.Word" "HOL-Library.Sublist"
begin

section \<open>JavaScript strings\<close>

text \<open>
  A JavaScript string is a sequence of UTF-16 code units; \<open>length\<close>, \<open>startsWith\<close>,
  \<open>replace\<close> and the regular expressions of \<open>index.js\<close> all work on code units.
  The byte-order marker is the single code unit U+FEFF.
\<close>

type_synonym code_unit = "16 word"
type_synonym jstring = "code_unit list"

definition str :: "string \<Rightarrow> jstring" where
  "str s = map (\<lambda>c. of_nat (of_char c)) s"

definition LF :: code_unit where "LF = 0x0A"
definition DQUOTE :: code_unit where "DQUOTE = 0x22"
definition COMMA :: code_unit where "COMMA = 0x2C"
definition SLASH :: code_unit where "SLASH = 0x2F"
definition BOM :: code_unit where "BOM = 0xFEFF"

text \<open>\<open>WhiteSpace\<close> and \<open>LineTerminator\<close> of ECMAScript: what \<open>trim\<close> and \<open>trimStart\<close> strip.\<close>

definition isWhiteSpace :: "code_unit \<Rightarrow> bool" where
  "isWhiteSpace c \<longleftrightarrow>
     c \<in> set [0x09, 0x0A, 0x0B, 0x0C, 0x0D, 0x20, 0xA0, 0x1680, 0x2028, 0x2029,
              0x202F, 0x205F, 0x3000, 0xFEFF]
     \<or> (0x2000 \<le> c \<and> c \<le> 0x200A)"

definition trimStart :: "jstring \<Rightarrow> jstring" where
  "trimStart s = dropWhile isWhiteSpace s"

definition trim :: "jstring \<Rightarrow> jstring" where
  "trim s = rev (dropWhile isWhiteSpace (rev (dropWhile isWhiteSpace s)))"

text \<open>
  \<open>String.prototype.toLowerCase\<close>. Basic Latin letters are mapped exactly. Outside Basic
  Latin the model maps the two code units whose lower case starts with a Basic Latin
  letter (U+0130 and the Kelvin sign U+212A) as Unicode does and leaves every other code
  unit as it is: JavaScript maps those to code units outside Basic Latin again, and the
  program uses \<open>toLowerCase\<close> only to compare with the Basic Latin header line.
\<close>

definition lowerUnit :: "code_unit \<Rightarrow> jstring" where
  "lowerUnit c =
     (if 0x41 \<le> c \<and> c \<le> 0x5A then [c + 0x20]
      else if c = 0x130 then [0x69, 0x307]
      else if c = 0x212A then [0x6B]
      else [c])"

definition toLowerCase :: "jstring \<Rightarrow> jstring" where
  "toLowerCase s = concat (map lowerUnit s)"

text \<open>\<open>Array.prototype.join\<close> on an array of strings.\<close>

fun join :: "jstring \<Rightarrow> jstring list \<Rightarrow> jstring" where
  "join sep [] = []"
| "join sep [x] = x"
| "join sep (x # y # ys) = x @ sep @ join sep (y # ys)"

text \<open>\<open>s.lastIndexOf(c)\<close> for a one-unit pattern: \<open>-1\<close> when \<open>c\<close> does not occur.\<close>

fun lastIndexOf :: "jstring \<Rightarrow> code_unit \<Rightarrow> int" where
  "lastIndexOf [] c = -1"
| "lastIndexOf (x # xs) c =
     (let r = lastIndexOf xs c in
      if r \<ge> 0 then r + 1 else if x = c then 0 else -1)"

text \<open>\<open>s.substring(i)\<close> with one argument: a negative start counts as 0.\<close>

definition substring :: "jstring \<Rightarrow> int \<Rightarrow> jstring" where
  "substring s i = drop (nat i) s"

text \<open>\<open>s.replace(pat, rep)\<close> with a string pattern: only the first occurrence is replaced.\<close>

fun replaceFirst :: "jstring \<Rightarrow> jstring \<Rightarrow> jstring \<Rightarrow> jstring" where
  "replaceFirst pat rep [] = (if pat = [] then rep else [])"
| "replaceFirst pat rep (x # xs) =
     (if prefix pat (x # xs) then rep @ drop (length pat) (x # xs)
      else x # replaceFirst pat rep xs)"

section \<open>JavaScript values and errors\<close>

text \<open>
  Numbers are IEEE doubles. The program never computes with them: it tests
  \<open>typeof\<close>, \<open>Number.isFinite\<close> and truthiness and converts to text, so a finite
  number is carried as the rational it denotes (\<open>-0\<close> is \<open>0\<close>: both are falsy and
  both print as \<open>0\<close>), and the text of a finite number is a parameter
  \<open>ns :: rat \<Rightarrow> jstring\<close> of every function that prints one.
\<close>

datatype jsnum = Finite rat | NaN | PosInfinity | NegInfinity

datatype jvalue =
    JUndefined
  | JNull
  | JBool bool
  | JNum jsnum
  | JStr jstring
  | JArr "jvalue list"
  | JObj "(jstring \<times> jvalue) list"

text \<open>
  A thrown value: an \<open>Error\<close> object with the fields the program inspects
  (\<open>name\<close>, \<open>message\<close>, \<open>Code\<close>, \<open>$metadata.httpStatusCode\<close>).
\<close>

record js_error =
  err_name :: jstring
  err_message :: jstring
  err_Code :: "jstring option"
  err_httpStatusCode :: "nat option"

definition Error :: "jstring \<Rightarrow> js_error" where
  "Error msg = \<lparr>err_name = str ''Error'', err_message = msg,
                err_Code = None, err_httpStatusCode = None\<rparr>"

text \<open>The message of a \<open>TypeError\<close> is chosen by the engine; no result below depends on it.\<close>

definition TypeError :: "jstring \<Rightarrow> js_error" where
  "TypeError msg = \<lparr>err_name = str ''TypeError'', err_message = msg,
                    err_Code = None, err_httpStatusCode = None\<rparr>"

text \<open>\<open>String(err)\<close>, that is \<open>Error.prototype.toString\<close>.\<close>

definition errorToString :: "js_error \<Rightarrow> jstring" where
  "errorToString e =
     (if err_name e = [] then err_message e
      else if err_message e = [] then err_name e
      else err_name e @ str '': '' @ err_message e)"

text \<open>\<open>err?.message || String(err)\<close>\<close>

definition errorText :: "js_error \<Rightarrow> jstring" where
  "errorText e = (if err_message e \<noteq> [] then err_message e else errorToString e)"

fun truthy :: "jvalue \<Rightarrow> bool" where
  "truthy JUndefined = False"
| "truthy JNull = False"
| "truthy (JBool b) = b"
| "truthy (JNum n) = (case n of Finite r \<Rightarrow> r \<noteq> 0 | NaN \<Rightarrow> False | _ \<Rightarrow> True)"
| "truthy (JStr s) = (s \<noteq> [])"
| "truthy (JArr xs) = True"
| "truthy (JObj kvs) = True"

text \<open>\<open>a || b\<close> and \<open>a ?? b\<close>\<close>

definition js_or :: "jvalue \<Rightarrow> jvalue \<Rightarrow> jvalue" where
  "js_or a b = (if truthy a then a else b)"

definition nullish :: "jvalue \<Rightarrow> jvalue \<Rightarrow> jvalue" where
  "nullish a b = (if a = JUndefined \<or> a = JNull then b else a)"

text \<open>
  \<open>String(v)\<close>. An array prints its elements joined by commas, \<open>null\<close> and
  \<open>undefined\<close> elements as nothing; a plain object prints as \<open>[object Object]\<close>.
\<close>

fun ToString :: "(rat \<Rightarrow> jstring) \<Rightarrow> jvalue \<Rightarrow> jstring" where
  "ToString ns JUndefined = str ''undefined''"
| "ToString ns JNull = str ''null''"
| "ToString ns (JBool b) = (if b then str ''true'' else str ''false'')"
| "ToString ns (JNum n) =
     (case n of Finite r \<Rightarrow> ns r | NaN \<Rightarrow> str ''NaN''
      | PosInfinity \<Rightarrow> str ''Infinity'' | NegInfinity \<Rightarrow> str ''-Infinity'')"
| "ToString ns (JStr s) = s"
| "ToString ns (JArr xs) =
     join [COMMA]
       (map (\<lambda>v. if v = JUndefined \<or> v = JNull then [] else ToString ns v) xs)"
| "ToString ns (JObj kvs) = str ''[object Object]''"

text \<open>\<open>xs.join(sep)\<close> on an array of values.\<close>

definition Array_join :: "(rat \<Rightarrow> jstring) \<Rightarrow> jstring \<Rightarrow> jvalue list \<Rightarrow> jstring" where
  "Array_join ns sep xs =
     join sep (map (\<lambda>v. if v = JUndefined \<or> v = JNull then [] else ToString ns v) xs)"

text \<open>
  \<open>v.k\<close> for the property names the program reads (none of them is a property of a
  primitive's wrapper or of an array): a \<open>TypeError\<close> on \<open>null\<close> and \<open>undefined\<close>,
  the member of an object, \<open>undefined\<close> otherwise.
\<close>

definition getProp :: "jvalue \<Rightarrow> jstring \<Rightarrow> js_error + jvalue" where
  "getProp v k =
     (case v of
        JUndefined \<Rightarrow>
          Inl (TypeError (str ''Cannot read properties of undefined (reading '' @ [0x27] @ k
                            @ [0x27] @ str '')''))
      | JNull \<Rightarrow>
          Inl (TypeError (str ''Cannot read properties of null (reading '' @ [0x27] @ k
                            @ [0x27] @ str '')''))
      | JObj kvs \<Rightarrow> Inr (case map_of kvs k of None \<Rightarrow> JUndefined | Some x \<Rightarrow> x)
      | _ \<Rightarrow> Inr JUndefined)"

text \<open>\<open>v?.k\<close>\<close>

definition getPropOpt :: "jvalue \<Rightarrow> jstring \<Rightarrow> jvalue" where
  "getPropOpt v k = (case getProp v k of Inl e \<Rightarrow> JUndefined | Inr x \<Rightarrow> x)"

definition bindE :: "'e + 'a \<Rightarrow> ('a \<Rightarrow> 'e + 'b) \<Rightarrow> 'e + 'b" where
  "bindE m f = (case m of Inl e \<Rightarrow> Inl e | Inr x \<Rightarrow> f x)"

section \<open>CSV rows\<close>

text \<open>\<open>csvEscape\<close> (index.js, line 330)\<close>

definition csvEscape :: "(rat \<Rightarrow> jstring) \<Rightarrow> jvalue \<Rightarrow> jstring" where
  "csvEscape ns v =
     (let s = ToString ns (nullish v (JStr [])) in
      if \<exists>c \<in> set s. c = DQUOTE \<or> c = COMMA \<or> c = LF
      then [DQUOTE] @ concat (map (\<lambda>c. if c = DQUOTE then [DQUOTE, DQUOTE] else [c]) s) @ [DQUOTE]
      else s)"

text \<open>\<open>safeNum\<close> (line 335)\<close>

definition safeNum :: "jvalue \<Rightarrow> jvalue" where
  "safeNum n = (case n of JNum (Finite r) \<Rightarrow> n | _ \<Rightarrow> JStr [])"

text \<open>\<open>(user.identities || []).map(i => i.k)\<close>: the receiver must be an array.\<close>

fun mapProp :: "jstring \<Rightarrow> jvalue list \<Rightarrow> js_error + jvalue list" where
  "mapProp k [] = Inr []"
| "mapProp k (i # is) =
     bindE (getProp i k) (\<lambda>v. bindE (mapProp k is) (\<lambda>vs. Inr (v # vs)))"

definition identityProps :: "jvalue \<Rightarrow> jstring \<Rightarrow> js_error + jvalue list" where
  "identityProps user k =
     bindE (getProp user (str ''identities'')) (\<lambda>ids.
       case js_or ids (JArr []) of
         JArr xs \<Rightarrow> mapProp k xs
       | _ \<Rightarrow> Inl (TypeError (str ''(user.identities || []).map is not a function'')))"

text \<open>
  \<open>buildCsvRow\<close> (line 281). \<open>now\<close> is \<open>new Date().toISOString()\<close>. The twelve
  fields before escaping are \<open>buildCsvRow_fields\<close>.
\<close>

definition buildCsvRow_fields ::
  "(rat \<Rightarrow> jstring) \<Rightarrow> jstring \<Rightarrow> jvalue \<Rightarrow> jvalue \<Rightarrow> jvalue \<Rightarrow> js_error + jvalue list" where
  "buildCsvRow_fields ns now ssoid user deletedBy =
     bindE (identityProps user (str ''provider'')) (\<lambda>ps.
     bindE (identityProps user (str ''connection'')) (\<lambda>cs.
     bindE (getProp user (str ''user_id'')) (\<lambda>user_id.
     bindE (getProp user (str ''email'')) (\<lambda>email.
     bindE (getProp user (str ''name'')) (\<lambda>name.
     bindE (getProp user (str ''nickname'')) (\<lambda>nickname.
     bindE (getProp user (str ''username'')) (\<lambda>username.
     bindE (getProp user (str ''created_at'')) (\<lambda>created_at.
     bindE (getProp user (str ''last_login'')) (\<lambda>last_login.
     bindE (getProp user (str ''logins_count'')) (\<lambda>logins_count.
       Inr [ssoid,
            JStr (str ''Y''),
            JStr now,
            js_or user_id (JStr []),
            js_or email (JStr []),
            js_or name (js_or nickname (js_or username (JStr []))),
            JStr (Array_join ns (str '';'') ps),
            JStr (Array_join ns (str '';'') cs),
            js_or created_at (JStr []),
            js_or last_login (JStr []),
            safeNum logins_count,
            deletedBy]))))))))))"

definition buildCsvRow ::
  "(rat \<Rightarrow> jstring) \<Rightarrow> jstring \<Rightarrow> jvalue \<Rightarrow> jvalue \<Rightarrow> jvalue \<Rightarrow> js_error + jstring" where
  "buildCsvRow ns now ssoid user deletedBy =
     bindE (buildCsvRow_fields ns now ssoid user deletedBy) (\<lambda>fields.
       Inr (join [COMMA] (map (csvEscape ns) fields) @ [LF]))"

section \<open>The process, the outside world and effects\<close>

text \<open>
  Every call that leaves the function is an \<open>effect\<close>, appended to the \<open>trace\<close> of the
  state in the order issued. \<open>Fetch\<close> carries method, URL, query parameters, headers and the
  body object before serialisation. Console output is part of the trace.
\<close>

datatype level = LogInfo | LogWarn | LogError

datatype log_arg = NoArg | ArgStr jstring | ArgErr js_error

datatype effect =
    SsmGetParametersByPath jstring "jstring option"
  | SsmGetParameters "jstring list"
  | Fetch jstring jstring "(jstring \<times> jstring) list" "(jstring \<times> jstring) list" "jvalue option"
  | S3GetObject jstring jstring
  | S3PutObject jstring jstring jstring jstring
  | Console level jstring log_arg

text \<open>
  The module state that outlives an invocation: \<open>process.env\<close> and the latch
  \<open>paramsLoaded\<close>; and the trace.
\<close>

record state =
  env :: "jstring \<Rightarrow> jstring option"
  paramsLoaded :: bool
  trace :: "effect list"

definition emit :: "effect \<Rightarrow> state \<Rightarrow> state" where
  "emit e st = st\<lparr>trace := trace st @ [e]\<rparr>"

record ssm_param =
  Name :: jstring
  Value :: jstring

record by_path_reply =
  bp_Parameters :: "ssm_param list option"
  bp_NextToken :: "jstring option"

record get_params_reply =
  gp_Parameters :: "ssm_param list option"
  gp_InvalidParameters :: "jstring list option"

record http_response =
  status :: nat
  statusText :: jstring
  text_result :: "js_error + jstring"

text \<open>\<open>res.ok\<close>\<close>

definition ok :: "http_response \<Rightarrow> bool" where
  "ok res \<longleftrightarrow> 200 \<le> status res \<and> status res \<le> 299"

text \<open>
  The outside world answers each call; the answer may depend on everything issued so far,
  so each service is a function of the trace up to and including the call (\<open>Inl\<close>: the
  call threw or its promise rejected). The record also holds the built-ins of the runtime
  that are not defined here: the clock, \<open>JSON.parse\<close>, \<open>JSON.stringify\<close>, the text of a
  finite number, the \<open>URL\<close> constructor (the parsed \<open>href\<close>) and \<open>encodeURIComponent\<close>.
  \<open>s3_GetObject\<close> is \<open>send\<close> followed by \<open>streamToString\<close>.
\<close>

record world =
  ssm_GetParametersByPath :: "effect list \<Rightarrow> js_error + by_path_reply"
  ssm_GetParameters :: "effect list \<Rightarrow> js_error + get_params_reply"
  fetch :: "effect list \<Rightarrow> js_error + http_response"
  s3_GetObject :: "effect list \<Rightarrow> js_error + jstring"
  s3_PutObject :: "effect list \<Rightarrow> js_error option"
  Date_toISOString :: "effect list \<Rightarrow> jstring"
  JSON_parse :: "jstring \<Rightarrow> js_error + jvalue"
  JSON_stringify :: "jvalue \<Rightarrow> jstring"
  Number_toString :: "rat \<Rightarrow> jstring"
  new_URL :: "jstring \<Rightarrow> js_error + jstring"
  encodeURIComponent :: "jstring \<Rightarrow> js_error + jstring"

text \<open>
  A call returns, throws, or does not come back (\<open>Diverge\<close>: the pagination loop ran out
  of fuel).
\<close>

datatype 'a outcome = Return 'a | Throw js_error | Diverge

definition bind ::
  "(state \<Rightarrow> 'a outcome \<times> state) \<Rightarrow> ('a \<Rightarrow> state \<Rightarrow> 'b outcome \<times> state)
     \<Rightarrow> state \<Rightarrow> 'b outcome \<times> state" where
  "bind m f st =
     (case m st of
        (Return x, st1) \<Rightarrow> f x st1
      | (Throw e, st1) \<Rightarrow> (Throw e, st1)
      | (Diverge, st1) \<Rightarrow> (Diverge, st1))"

text \<open>\<open>err?.message || err\<close>, as passed to the console.\<close>

definition errArg :: "js_error \<Rightarrow> log_arg" where
  "errArg e = (if err_message e \<noteq> [] then ArgStr (err_message e) else ArgErr e)"

section \<open>Configuration\<close>

definition EXPECTED_KEYS :: "jstring list" where
  "EXPECTED_KEYS =
     [str ''S3_BUCKET'', str ''S3_KEY'', str ''AUTH0_DOMAIN'', str ''AUTH0_AUDIENCE'',
      str ''AUTH0_CLIENT_ID'', str ''AUTH0_CLIENT_SECRET'', str ''SSOID'']"

definition DEFAULT_PARAM_PREFIX :: jstring where
  "DEFAULT_PARAM_PREFIX = str ''/auth0-cleanup/''"

definition FLAT_PREFIX :: jstring where
  "FLAT_PREFIX = str ''auth0_cleanup_''"

definition CSV_HEADER :: jstring where
  "CSV_HEADER =
     str ''ssoid,deactivation_flag,last_update_timestamp,user_id,email,name,providers,connections,created_at,last_login,logins_count,deleted_by''
     @ [LF]"

text \<open>\<open>!process.env[k]\<close> is false exactly for a non-empty value.\<close>

definition envTruthy :: "(jstring \<Rightarrow> jstring option) \<Rightarrow> jstring \<Rightarrow> bool" where
  "envTruthy e k = (case e k of None \<Rightarrow> False | Some v \<Rightarrow> v \<noteq> [])"

text \<open>\<open>process.env[k] || d\<close> for a string \<open>d\<close>\<close>

definition envOr :: "(jstring \<Rightarrow> jstring option) \<Rightarrow> jstring \<Rightarrow> jstring \<Rightarrow> jstring" where
  "envOr e k d = (if envTruthy e k then the (e k) else d)"

text \<open>\<open>process.env[k]\<close> as a value\<close>

definition envValue :: "(jstring \<Rightarrow> jstring option) \<Rightarrow> jstring \<Rightarrow> jvalue" where
  "envValue e k = (case e k of None \<Rightarrow> JUndefined | Some v \<Rightarrow> JStr v)"

text \<open>\<open>if (EXPECTED_KEYS.includes(key) && !process.env[key]) process.env[key] = p.Value\<close>\<close>

definition setIfUnset ::
  "(jstring \<Rightarrow> jstring option) \<Rightarrow> jstring \<Rightarrow> jstring \<Rightarrow> (jstring \<Rightarrow> jstring option)" where
  "setIfUnset e key v =
     (if key \<in> set EXPECTED_KEYS \<and> \<not> envTruthy e key then e(key \<mapsto> v) else e)"

text \<open>\<open>p.Name.substring(p.Name.lastIndexOf("/") + 1)\<close>\<close>

definition shortName :: "jstring \<Rightarrow> jstring" where
  "shortName n = substring n (lastIndexOf n SLASH + 1)"

text \<open>
  The \<open>do ... while (nextToken)\<close> loop of the hierarchical phase (line 120). The store
  decides when the pages end, so the loop has fuel; running out of it is \<open>Diverge\<close>. The
  state reached so far is returned in every case.
\<close>

fun byPathLoop ::
  "nat \<Rightarrow> world \<Rightarrow> jstring \<Rightarrow> jstring option \<Rightarrow> state \<Rightarrow> unit outcome \<times> state" where
  "byPathLoop 0 w path nextToken st = (Diverge, st)"
| "byPathLoop (Suc n) w path nextToken st =
     (let st1 = emit (SsmGetParametersByPath path nextToken) st in
      case ssm_GetParametersByPath w (trace st1) of
        Inl e \<Rightarrow> (Throw e, st1)
      | Inr resp \<Rightarrow>
          (let ps = (case bp_Parameters resp of None \<Rightarrow> [] | Some xs \<Rightarrow> xs);
               st2 = st1\<lparr>env := foldl (\<lambda>e p. setIfUnset e (shortName (Name p)) (Value p))
                                       (env st1) ps\<rparr>
           in case bp_NextToken resp of
                None \<Rightarrow> (Return (), st2)
              | Some t \<Rightarrow> if t \<noteq> [] then byPathLoop n w path (Some t) st2
                          else (Return (), st2)))"

text \<open>The flat-name fallback (line 137).\<close>

definition flatPhase :: "world \<Rightarrow> state \<Rightarrow> unit outcome \<times> state" where
  "flatPhase w st =
     (let missing = filter (\<lambda>k. \<not> envTruthy (env st) k) EXPECTED_KEYS in
      if missing \<noteq> [] then
        (let flatNames = map (\<lambda>k. FLAT_PREFIX @ k) missing;
             st1 = emit (SsmGetParameters flatNames) st
         in case ssm_GetParameters w (trace st1) of
              Inl e \<Rightarrow> (Throw e, st1)
            | Inr resp \<Rightarrow>
                (let ps = (case gp_Parameters resp of None \<Rightarrow> [] | Some xs \<Rightarrow> xs);
                     st2 = st1\<lparr>env := foldl (\<lambda>e p. setIfUnset e
                                               (replaceFirst FLAT_PREFIX [] (Name p)) (Value p))
                                             (env st1) ps\<rparr>
                 in case gp_InvalidParameters resp of
                      None \<Rightarrow> (Return (), st2)
                    | Some invalid \<Rightarrow>
                        if invalid \<noteq> [] then
                          (Return (), emit (Console LogWarn (str ''Missing SSM params:'')
                                              (ArgStr (join (str '', '') invalid))) st2)
                        else (Return (), st2)))
      else (Return (), st))"

text \<open>\<open>loadParamsIntoEnv\<close> (line 111)\<close>

definition loadParamsIntoEnv :: "nat \<Rightarrow> world \<Rightarrow> state \<Rightarrow> unit outcome \<times> state" where
  "loadParamsIntoEnv fuel w st =
     (if paramsLoaded st then (Return (), st)
      else
        (let pfx = trim (envOr (env st) (str ''PARAM_PREFIX'') DEFAULT_PARAM_PREFIX);
             wantPath = prefix [SLASH] pfx
         in bind (\<lambda>s. if wantPath
                       then byPathLoop fuel w (if suffix [SLASH] pfx then pfx else pfx @ [SLASH])
                              None s
                       else (Return (), s))
              (\<lambda>_. bind (flatPhase w)
                 (\<lambda>_ s. (Return (), s\<lparr>paramsLoaded := True\<rparr>))) st))"

text \<open>\<open>mustEnv\<close> (line 324)\<close>

definition mustEnv :: "(jstring \<Rightarrow> jstring option) \<Rightarrow> jstring \<Rightarrow> js_error + jstring" where
  "mustEnv e name =
     (if \<not> envTruthy e name then Inl (Error (str ''Missing '' @ name)) else Inr (the (e name)))"

section \<open>Identity-service helpers\<close>

text \<open>
  \<open>stripProtocol\<close> (line 305), on a string: the regular expression
  \<open>/^https?:\/\//i\<close> ignores case on Basic Latin letters only; \<open>/\/+$/\<close> is the run of
  slashes at the end.
\<close>

definition asciiLower :: "code_unit \<Rightarrow> code_unit" where
  "asciiLower c = (if 0x41 \<le> c \<and> c \<le> 0x5A then c + 0x20 else c)"

definition stripProtocol :: "jstring \<Rightarrow> jstring" where
  "stripProtocol domain =
     (let s = (if map asciiLower (take 8 domain) = str ''https://'' then drop 8 domain
               else if map asciiLower (take 7 domain) = str ''http://'' then drop 7 domain
               else domain)
      in rev (dropWhile (\<lambda>c. c = SLASH) (rev s)))"

text \<open>\<open>s.includes(pat)\<close>\<close>

fun includesStr :: "jstring \<Rightarrow> jstring \<Rightarrow> bool" where
  "includesStr [] pat = (pat = [])"
| "includesStr (x # xs) pat = (prefix pat (x # xs) \<or> includesStr xs pat)"

definition bearer :: "world \<Rightarrow> jvalue \<Rightarrow> (jstring \<times> jstring) list" where
  "bearer w token =
     [(str ''authorization'', str ''Bearer '' @ ToString (Number_toString w) token)]"

text \<open>
  \<open>getMgmtToken\<close> (line 162). The abort after ten seconds is one of the ways in which
  \<open>fetch\<close> throws.
\<close>

definition getMgmtToken ::
  "world \<Rightarrow> jstring \<Rightarrow> jstring \<Rightarrow> jstring \<Rightarrow> jstring \<Rightarrow> state \<Rightarrow> jvalue outcome \<times> state" where
  "getMgmtToken w domain clientId clientSecret audience st =
     (if domain = [] then (Throw (Error (str ''Missing AUTH0_DOMAIN'')), st)
      else if clientId = [] then (Throw (Error (str ''Missing AUTH0_CLIENT_ID'')), st)
      else if clientSecret = [] then (Throw (Error (str ''Missing AUTH0_CLIENT_SECRET'')), st)
      else if audience = [] then (Throw (Error (str ''Missing AUTH0_AUDIENCE'')), st)
      else
        (let url = str ''https://'' @ stripProtocol domain @ str ''/oauth/token'';
             body = JObj [(str ''grant_type'', JStr (str ''client_credentials'')),
                          (str ''client_id'', JStr clientId),
                          (str ''client_secret'', JStr clientSecret),
                          (str ''audience'', JStr audience)];
             st1 = emit (Fetch (str ''POST'') url []
                           [(str ''content-type'', str ''application/json'')] (Some body)) st
         in case fetch w (trace st1) of
              Inl e \<Rightarrow> (Throw e, st1)
            | Inr res \<Rightarrow>
                (case text_result res of
                   Inl e \<Rightarrow> (Throw e, st1)
                 | Inr text \<Rightarrow>
                     if \<not> ok res then
                       (if includesStr text (str ''access_denied'') \<and> includesStr text (str ''client-grant'')
                        then (Throw (Error (str ''Access denied to Management API: create a client grant for your M2M app with scopes like read:users, delete:users. Raw: '' @ text)), st1)
                        else (Throw (Error (str ''Token HTTP ''
                                @ Number_toString w (of_nat (status res)) @ str '' ''
                                @ statusText res @ str '': '' @ text)), st1))
                     else
                       (case JSON_parse w text of
                          Inl e \<Rightarrow> (Throw e, st1)
                        | Inr data \<Rightarrow>
                            (case getProp data (str ''access_token'') of
                               Inl e \<Rightarrow> (Throw e, st1)
                             | Inr tok \<Rightarrow>
                                 if \<not> truthy tok
                                 then (Throw (Error (str ''Token response missing access_token'')), st1)
                                 else (Return tok, st1))))))"

text \<open>The body of the \<open>try\<close> of \<open>searchUsersByQuery\<close> (lines 207 to 234).\<close>

definition searchUsersByQuery_try ::
  "world \<Rightarrow> jstring \<Rightarrow> jvalue \<Rightarrow> jstring \<Rightarrow> state \<Rightarrow> jvalue list outcome \<times> state" where
  "searchUsersByQuery_try w domain token q st =
     (case new_URL w (str ''https://'' @ stripProtocol domain @ str ''/api/v2/users'') of
        Inl e \<Rightarrow> (Throw e, st)
      | Inr url \<Rightarrow>
          (let st1 = emit (Fetch (str ''GET'') url
                             [(str ''q'', q), (str ''search_engine'', str ''v3''),
                              (str ''per_page'', str ''50'')]
                             (bearer w token) None) st
           in case fetch w (trace st1) of
                Inl e \<Rightarrow> (Throw e, st1)
              | Inr res \<Rightarrow>
                  (case text_result res of
                     Inl e \<Rightarrow> (Throw e, st1)
                   | Inr text \<Rightarrow>
                       if \<not> ok res then
                         (Throw (Error (str ''User search failed HTTP ''
                            @ Number_toString w (of_nat (status res)) @ str '': '' @ text)), st1)
                       else
                         (case JSON_parse w text of
                            Inl e \<Rightarrow>
                              (Return [], emit (Console LogError
                                 (str ''User search response not JSON:'') (ArgStr text)) st1)
                          | Inr users \<Rightarrow>
                              (case users of
                                 JArr us \<Rightarrow>
                                   if us = [] then
                                     (Return [], emit (Console LogInfo
                                        (str ''Cannot find user with query: '' @ q) NoArg) st1)
                                   else (Return us, st1)
                               | _ \<Rightarrow>
                                   (Return [], emit (Console LogInfo
                                      (str ''Cannot find user with query: '' @ q) NoArg) st1))))))"

text \<open>\<open>searchUsersByQuery\<close> (line 205): the \<open>try\<close> with its \<open>catch\<close>.\<close>

definition searchUsersByQuery ::
  "world \<Rightarrow> jstring \<Rightarrow> jvalue \<Rightarrow> jstring \<Rightarrow> state \<Rightarrow> jvalue list outcome \<times> state" where
  "searchUsersByQuery w domain token q st =
     (case searchUsersByQuery_try w domain token q st of
        (Throw err, st1) \<Rightarrow>
          (Return [], emit (Console LogError
             (str ''Error during searchUsersByQuery for query='' @ q @ str '':'') (errArg err)) st1)
      | r \<Rightarrow> r)"

text \<open>\<open>deleteUser\<close> (line 241)\<close>

definition deleteUser ::
  "world \<Rightarrow> jstring \<Rightarrow> jvalue \<Rightarrow> jvalue \<Rightarrow> state \<Rightarrow> unit outcome \<times> state" where
  "deleteUser w domain token userId st =
     (case encodeURIComponent w (ToString (Number_toString w) userId) of
        Inl e \<Rightarrow> (Throw e, st)
      | Inr enc \<Rightarrow>
          (let url = str ''https://'' @ stripProtocol domain @ str ''/api/v2/users/'' @ enc;
               st1 = emit (Fetch (str ''DELETE'') url [] (bearer w token) None) st
           in case fetch w (trace st1) of
                Inl e \<Rightarrow> (Throw e, st1)
              | Inr res \<Rightarrow>
                  if \<not> ok res then
                    (case text_result res of
                       Inl e \<Rightarrow> (Throw e, st1)
                     | Inr text \<Rightarrow>
                         (Throw (Error (str ''Delete failed HTTP ''
                            @ Number_toString w (of_nat (status res)) @ str '': '' @ text)), st1))
                  else (Return (), st1)))"

section \<open>The ledger in the object store\<close>

text \<open>\<open>CSV_HEADER.split("\n")[0]\<close>\<close>

definition CSV_HEADER_LINE :: jstring where
  "CSV_HEADER_LINE = takeWhile (\<lambda>c. c \<noteq> LF) CSV_HEADER"

text \<open>\<open>s.replace(re, "")\<close> where \<open>re\<close> matches an optional U+FEFF at the start.\<close>

definition stripLeadingBOM :: "jstring \<Rightarrow> jstring" where
  "stripLeadingBOM s = (case s of [] \<Rightarrow> [] | c # cs \<Rightarrow> if c = BOM then cs else s)"

text \<open>
  The catch of the read (line 260): only a not-found condition is swallowed.
\<close>

definition isNotFound :: "js_error \<Rightarrow> bool" where
  "isNotFound e \<longleftrightarrow>
     err_httpStatusCode e = Some 404 \<or> err_name e = str ''NoSuchKey''
     \<or> err_Code e = Some (str ''NoSuchKey'')"

text \<open>Lines 266 to 271: the content written back, from the content read and the rows.\<close>

definition nextContent :: "jstring \<Rightarrow> jstring list \<Rightarrow> jstring" where
  "nextContent existing rows =
     (if existing = [] \<or> \<not> prefix CSV_HEADER_LINE (toLowerCase (trimStart existing))
      then CSV_HEADER @ (if existing \<noteq> [] \<and> length existing \<noteq> 0
                         then stripLeadingBOM existing else [])
      else existing)
     @ join [] rows"

text \<open>\<open>appendRowsToCsvInS3\<close> (line 255)\<close>

definition appendRowsToCsvInS3 ::
  "world \<Rightarrow> jstring \<Rightarrow> jstring \<Rightarrow> jstring list \<Rightarrow> state \<Rightarrow> unit outcome \<times> state" where
  "appendRowsToCsvInS3 w bucket key rows st =
     (let st1 = emit (S3GetObject bucket key) st in
      case (case s3_GetObject w (trace st1) of
              Inr content \<Rightarrow> Inr content
            | Inl e \<Rightarrow> if \<not> isNotFound e then Inl e else Inr [])
      of
        Inl e \<Rightarrow> (Throw e, st1)
      | Inr existing \<Rightarrow>
          (let st2 = emit (S3PutObject bucket key (nextContent existing rows) (str ''text/csv'')) st1
           in case s3_PutObject w (trace st2) of
                Some e \<Rightarrow> (Throw e, st2)
              | None \<Rightarrow> (Return (), st2)))"

section \<open>The handler\<close>

record response =
  statusCode :: nat
  headers :: "(jstring \<times> jstring) list"
  body :: jstring

text \<open>\<open>response\<close> (line 348)\<close>

definition response_of :: "world \<Rightarrow> nat \<Rightarrow> jvalue \<Rightarrow> response" where
  "response_of w code obj =
     \<lparr>statusCode = code,
      headers = [(str ''content-type'', str ''application/json'')],
      body = JSON_stringify w obj\<rparr>"

text \<open>\<open>getSsoid\<close> (line 309) and \<open>getDeletedBy\<close> (line 315)\<close>

definition getSsoid :: "jvalue \<Rightarrow> (jstring \<Rightarrow> jstring option) \<Rightarrow> jvalue" where
  "getSsoid event e =
     (let path = getPropOpt (getPropOpt event (str ''pathParameters'')) (str ''ssoid'');
          query = getPropOpt (getPropOpt event (str ''queryStringParameters'')) (str ''ssoid'')
      in js_or path (js_or query (js_or (envValue e (str ''SSOID''))
                                    (JStr (str ''REPLACE_WITH_SSOID'')))))"

definition getDeletedBy :: "jvalue \<Rightarrow> (jstring \<Rightarrow> jstring option) \<Rightarrow> jvalue" where
  "getDeletedBy context e =
     js_or (getPropOpt context (str ''functionName''))
       (js_or (envValue e (str ''AWS_LAMBDA_FUNCTION_NAME''))
          (js_or (envValue e (str ''DELETED_BY'')) (JStr (str ''local''))))"

text \<open>The two queries of step 5.\<close>

definition identityQuery :: "world \<Rightarrow> jvalue \<Rightarrow> jstring" where
  "identityQuery w SSOID =
     str ''identities.user_id:'' @ [DQUOTE] @ ToString (Number_toString w) SSOID @ [DQUOTE]"

definition metadataQuery :: "world \<Rightarrow> jvalue \<Rightarrow> jstring" where
  "metadataQuery w SSOID =
     str ''app_metadata.ssoid:'' @ [DQUOTE] @ ToString (Number_toString w) SSOID @ [DQUOTE]"

text \<open>The entries pushed on \<open>results\<close>.\<close>

definition deletedEntry :: "jvalue \<Rightarrow> jvalue" where
  "deletedEntry userId = JObj [(str ''user_id'', userId), (str ''deleted'', JBool True)]"

definition failedEntry :: "jvalue \<Rightarrow> js_error \<Rightarrow> jvalue" where
  "failedEntry userId err =
     JObj [(str ''user_id'', userId), (str ''deleted'', JBool False),
           (str ''error'', JStr (errorText err))]"

text \<open>The \<open>catch\<close> of the loop body (line 78).\<close>

definition deleteFailed ::
  "world \<Rightarrow> jvalue \<Rightarrow> js_error \<Rightarrow> jvalue list \<times> jstring list \<Rightarrow> state
     \<Rightarrow> (jvalue list \<times> jstring list) \<times> state" where
  "deleteFailed w userId err acc st =
     ((fst acc @ [failedEntry userId err], snd acc),
      emit (Console LogError
              (str ''Failed to delete user_id='' @ ToString (Number_toString w) userId @ str '':'')
              (errArg err)) st)"

text \<open>
  One turn of the loop (lines 71 to 81) on the account \<open>u\<close>, with \<open>results\<close> and
  \<open>csvRows\<close> so far. Reading \<open>u.user_id\<close> is outside the \<open>try\<close>.
\<close>

definition deleteOne ::
  "world \<Rightarrow> jstring \<Rightarrow> jvalue \<Rightarrow> jvalue \<Rightarrow> jvalue \<Rightarrow> jvalue \<Rightarrow> jvalue list \<times> jstring list
     \<Rightarrow> state \<Rightarrow> (jvalue list \<times> jstring list) outcome \<times> state" where
  "deleteOne w domain token SSOID deletedBy u acc st =
     (case getProp u (str ''user_id'') of
        Inl e \<Rightarrow> (Throw e, st)
      | Inr userId \<Rightarrow>
          (case deleteUser w domain token userId st of
             (Throw err, st1) \<Rightarrow>
               (let (acc1, st2) = deleteFailed w userId err acc st1 in (Return acc1, st2))
           | (Diverge, st1) \<Rightarrow> (Diverge, st1)
           | (Return _, st1) \<Rightarrow>
               (let st2 = emit (Console LogInfo
                                  (str ''Deleted Auth0 user_id=''
                                     @ ToString (Number_toString w) userId) NoArg) st1;
                    acc1 = (fst acc @ [deletedEntry userId], snd acc)
                in case buildCsvRow (Number_toString w) (Date_toISOString w (trace st2))
                          SSOID u deletedBy of
                     Inl err \<Rightarrow>
                       (let (acc2, st3) = deleteFailed w userId err acc1 st2
                        in (Return acc2, st3))
                   | Inr row \<Rightarrow> (Return (fst acc1, snd acc1 @ [row]), st2))))"

text \<open>The \<open>for (const u of users)\<close> loop (line 70).\<close>

fun deleteLoop ::
  "world \<Rightarrow> jstring \<Rightarrow> jvalue \<Rightarrow> jvalue \<Rightarrow> jvalue \<Rightarrow> jvalue list \<Rightarrow> jvalue list \<times> jstring list
     \<Rightarrow> state \<Rightarrow> (jvalue list \<times> jstring list) outcome \<times> state" where
  "deleteLoop w domain token SSOID deletedBy [] acc st = (Return acc, st)"
| "deleteLoop w domain token SSOID deletedBy (u # us) acc st =
     bind (deleteOne w domain token SSOID deletedBy u acc)
       (\<lambda>acc1. deleteLoop w domain token SSOID deletedBy us acc1) st"

text \<open>Step 7 (lines 85 to 93): the write is tried, and its failure logged and dropped.\<close>

definition writeLedger ::
  "world \<Rightarrow> jstring option \<Rightarrow> jstring \<Rightarrow> jstring list \<Rightarrow> state \<Rightarrow> unit outcome \<times> state" where
  "writeLedger w S3_BUCKET S3_KEY csvRows st =
     (let bucketSet = (case S3_BUCKET of None \<Rightarrow> False | Some b \<Rightarrow> b \<noteq> []) in
      if length csvRows > 0 \<and> bucketSet then
        (case appendRowsToCsvInS3 w (the S3_BUCKET) S3_KEY csvRows st of
           (Throw e, st1) \<Rightarrow>
             (Return (), emit (Console LogError (str ''Failed to write deleted_users.csv:'')
                                 (errArg e)) st1)
         | r \<Rightarrow> r)
      else if \<not> bucketSet then
        (Return (), emit (Console LogWarn (str ''S3_BUCKET not set; skipping CSV write.'') NoArg) st)
      else (Return (), st))"

text \<open>
  Steps 1 to 3 (lines 34 to 48): the parameters, the required settings and the token.
  The result is \<open>AUTH0_DOMAIN\<close>, \<open>S3_BUCKET\<close>, \<open>S3_KEY\<close> and the token.
\<close>

definition resolveAndAuthenticate ::
  "nat \<Rightarrow> world \<Rightarrow> state \<Rightarrow> (jstring \<times> jstring option \<times> jstring \<times> jvalue) outcome \<times> state" where
  "resolveAndAuthenticate fuel w =
     bind (loadParamsIntoEnv fuel w) (\<lambda>_ s.
       case mustEnv (env s) (str ''AUTH0_DOMAIN'') of
         Inl e \<Rightarrow> (Throw e, s)
       | Inr AUTH0_DOMAIN \<Rightarrow>
           (let AUTH0_AUDIENCE = envOr (env s) (str ''AUTH0_AUDIENCE'')
                  (str ''https://'' @ stripProtocol AUTH0_DOMAIN @ str ''/api/v2/'');
                S3_BUCKET = env s (str ''S3_BUCKET'');
                S3_KEY = envOr (env s) (str ''S3_KEY'') (str ''output/deleted_users.csv'')
            in case mustEnv (env s) (str ''AUTH0_CLIENT_ID'') of
                 Inl e \<Rightarrow> (Throw e, s)
               | Inr clientId \<Rightarrow>
                   (case mustEnv (env s) (str ''AUTH0_CLIENT_SECRET'') of
                      Inl e \<Rightarrow> (Throw e, s)
                    | Inr clientSecret \<Rightarrow>
                        bind (getMgmtToken w AUTH0_DOMAIN clientId clientSecret AUTH0_AUDIENCE)
                          (\<lambda>token s1. (Return (AUTH0_DOMAIN, S3_BUCKET, S3_KEY, token), s1))
                          s)))"

text \<open>Step 5 (lines 54 to 57): the two searches.\<close>

definition findUsers ::
  "world \<Rightarrow> jstring \<Rightarrow> jvalue \<Rightarrow> jvalue \<Rightarrow> state \<Rightarrow> jvalue list outcome \<times> state" where
  "findUsers w AUTH0_DOMAIN token SSOID =
     bind (searchUsersByQuery w AUTH0_DOMAIN token (identityQuery w SSOID)) (\<lambda>users1 s.
       if length users1 = 0
       then searchUsersByQuery w AUTH0_DOMAIN token (metadataQuery w SSOID) s
       else (Return users1, s))"

text \<open>The two success bodies (lines 62 and 95).\<close>

definition notFoundBody :: "jvalue \<Rightarrow> jvalue" where
  "notFoundBody SSOID =
     JObj [(str ''message'', JStr (str ''Cannot find user'')),
           (str ''ssoid'', SSOID),
           (str ''results'', JArr [])]"

definition completeBody :: "jvalue \<Rightarrow> jvalue list \<Rightarrow> jvalue" where
  "completeBody SSOID results =
     JObj [(str ''message'', JStr (str ''Delete attempt complete'')),
           (str ''ssoid'', SSOID),
           (str ''count'', JNum (Finite (of_nat (length results)))),
           (str ''results'', JArr results)]"

text \<open>Steps 6 to 8 (lines 66 to 100) on the accounts found.\<close>

definition deleteAndReport ::
  "world \<Rightarrow> jvalue \<Rightarrow> jstring \<Rightarrow> jstring option \<Rightarrow> jstring \<Rightarrow> jvalue \<Rightarrow> jvalue \<Rightarrow> jvalue list
     \<Rightarrow> state \<Rightarrow> response outcome \<times> state" where
  "deleteAndReport w context AUTH0_DOMAIN S3_BUCKET S3_KEY token SSOID users s =
     bind (deleteLoop w AUTH0_DOMAIN token SSOID (getDeletedBy context (env s)) users ([], []))
       (\<lambda>(results, csvRows).
          bind (writeLedger w S3_BUCKET S3_KEY csvRows) (\<lambda>_ s2.
            (Return (response_of w 200 (completeBody SSOID results)), s2))) s"

text \<open>The body of the outer \<open>try\<close> (lines 33 to 100).\<close>

definition handler_try ::
  "nat \<Rightarrow> world \<Rightarrow> jvalue \<Rightarrow> jvalue \<Rightarrow> state \<Rightarrow> response outcome \<times> state" where
  "handler_try fuel w event context =
     bind (resolveAndAuthenticate fuel w) (\<lambda>(AUTH0_DOMAIN, S3_BUCKET, S3_KEY, token) s1.
       (let SSOID = getSsoid event (env s1) in
        bind (findUsers w AUTH0_DOMAIN token SSOID) (\<lambda>users s.
          if length users = 0 then
            (Return (response_of w 200 (notFoundBody SSOID)),
             emit (Console LogInfo (str ''Cannot find user for SSOID=''
                                      @ ToString (Number_toString w) SSOID) NoArg) s)
          else deleteAndReport w context AUTH0_DOMAIN S3_BUCKET S3_KEY token SSOID users s) s1))"

text \<open>The body of the error response (line 103).\<close>

definition errorBody :: "js_error \<Rightarrow> jvalue" where
  "errorBody err = JObj [(str ''error'', JStr (errorText err))]"

text \<open>The outer \<open>catch\<close> (line 101).\<close>

definition catchUnhandled ::
  "world \<Rightarrow> response outcome \<times> state \<Rightarrow> response outcome \<times> state" where
  "catchUnhandled w r =
     (case r of
        (Throw err, st1) \<Rightarrow>
          (Return (response_of w 500 (errorBody err)),
           emit (Console LogError (str ''Unhandled error:'') (errArg err)) st1)
      | _ \<Rightarrow> r)"

text \<open>\<open>handler\<close> (line 31): the default \<open>{}\<close> of both parameters (\<open>orEmpty\<close>), then the \<open>try\<close> with its \<open>catch\<close>.\<close>

definition orEmpty :: "jvalue \<Rightarrow> jvalue" where
  "orEmpty v = (if v = JUndefined then JObj [] else v)"

definition handler ::
  "nat \<Rightarrow> world \<Rightarrow> jvalue \<Rightarrow> jvalue \<Rightarrow> state \<Rightarrow> response outcome \<times> state" where
  "handler fuel w event context st =
     catchUnhandled w (handler_try fuel w (orEmpty event) (orEmpty context) st)"

section \<open>Definitions that follow the specification\<close>

text \<open>
  The text of a field before quoting: empty when the value is absent (\<open>undefined\<close> or
  \<open>null\<close>).
\<close>

definition fieldText :: "(rat \<Rightarrow> jstring) \<Rightarrow> jvalue \<Rightarrow> jstring" where
  "fieldText ns v = (if v = JUndefined \<or> v = JNull then [] else ToString ns v)"

text \<open>A value needs quoting when it holds a comma, a double quote or a line feed.\<close>

definition needsQuoting :: "jstring \<Rightarrow> bool" where
  "needsQuoting s \<longleftrightarrow> COMMA \<in> set s \<or> DQUOTE \<in> set s \<or> LF \<in> set s"

text \<open>Every double quote doubled.\<close>

primrec doubleQuotes :: "jstring \<Rightarrow> jstring" where
  "doubleQuotes [] = []"
| "doubleQuotes (c # cs) =
     (if c = DQUOTE then DQUOTE # DQUOTE # doubleQuotes cs else c # doubleQuotes cs)"

text \<open>
  The test of line 267 on the content read: non-empty, and the header line is a prefix of
  the content after leading white space (a byte-order marker included) is dropped and the
  rest is put in lower case.
\<close>

definition headerPresent :: "jstring \<Rightarrow> bool" where
  "headerPresent existing \<longleftrightarrow>
     existing \<noteq> [] \<and> prefix CSV_HEADER_LINE (toLowerCase (trimStart existing))"

text \<open>
  The specification's condition: after an optional leading byte-order marker the content
  begins with the header line, letter case ignored.
\<close>

definition beginsWithHeaderLine :: "jstring \<Rightarrow> bool" where
  "beginsWithHeaderLine existing \<longleftrightarrow>
     map asciiLower (take (length CSV_HEADER_LINE) (stripLeadingBOM existing)) = CSV_HEADER_LINE"

definition firstLine :: "jstring \<Rightarrow> jstring" where
  "firstLine s = takeWhile (\<lambda>c. c \<noteq> LF) s"

section \<open>Concrete inputs\<close>

text \<open>A world in which every call succeeds with an empty answer, and variations of it.\<close>

definition world0 :: world where
  "world0 = \<lparr>ssm_GetParametersByPath = (\<lambda>t. Inr \<lparr>bp_Parameters = None, bp_NextToken = None\<rparr>),
     ssm_GetParameters = (\<lambda>t. Inr \<lparr>gp_Parameters = None, gp_InvalidParameters = None\<rparr>),
     fetch = (\<lambda>t. Inr \<lparr>status = 200, statusText = str ''OK'', text_result = Inr []\<rparr>),
     s3_GetObject = (\<lambda>t. Inr []),
     s3_PutObject = (\<lambda>t. None),
     Date_toISOString = (\<lambda>t. str ''T''),
     JSON_parse = (\<lambda>s. Inr JNull),
     JSON_stringify = (\<lambda>v. []),
     Number_toString = (\<lambda>r. str ''0''),
     new_URL = (\<lambda>s. Inr s),
     encodeURIComponent = (\<lambda>s. Inr s)\<rparr>"

definition state0 :: state where
  "state0 = \<lparr>env = Map.empty, paramsLoaded = True, trace = []\<rparr>"

definition err404 :: js_error where
  "err404 = \<lparr>err_name = str ''NotFound'', err_message = str ''gone'',
             err_Code = None, err_httpStatusCode = Some 404\<rparr>"

definition err403 :: js_error where
  "err403 = \<lparr>err_name = str ''AccessDenied'', err_message = str ''denied'',
             err_Code = Some (str ''AccessDenied''), err_httpStatusCode = Some 403\<rparr>"

definition worldS3 :: "(js_error + jstring) \<Rightarrow> world" where
  "worldS3 r = world0\<lparr>s3_GetObject := (\<lambda>t. r)\<rparr>"

definition row0 :: jstring where
  "row0 = str ''r'' @ [LF]"

definition existingUpper :: jstring where
  "existingUpper = BOM # str ''SSOID,Deactivation_Flag,last_update_timestamp,user_id,email,name,providers,connections,created_at,last_login,logins_count,deleted_by'' @ [LF]"

definition existingOther :: jstring where
  "existingOther = str ''id'' @ [LF]"

definition existingBOM :: jstring where
  "existingBOM = BOM # str ''x'' @ [LF]"

definition existingV2 :: jstring where
  "existingV2 = str ''ssoid,deactivation_flag,last_update_timestamp,user_id,email,name,providers,connections,created_at,last_login,logins_count,deleted_by_v2'' @ [LF]"



section \<open>Reading the trace\<close>

text \<open>The \<open>q\<close> parameters of the search requests in a trace, in the order issued.\<close>

fun searchQueryOf :: "effect \<Rightarrow> jstring list" where
  "searchQueryOf (Fetch m url qs hs b) =
     (if m = str ''GET'' then (case map_of qs (str ''q'') of None \<Rightarrow> [] | Some q \<Rightarrow> [q]) else [])"
| "searchQueryOf _ = []"

definition searchQueries :: "effect list \<Rightarrow> jstring list" where
  "searchQueries t = concat (map searchQueryOf t)"

text \<open>The delete requests and the object-store calls in a trace.\<close>

fun isDeletion :: "effect \<Rightarrow> bool" where
  "isDeletion (Fetch m url qs hs b) = (m = str ''DELETE'')"
| "isDeletion _ = False"

fun isStoreCall :: "effect \<Rightarrow> bool" where
  "isStoreCall (S3GetObject b k) = True"
| "isStoreCall (S3PutObject b k c t) = True"
| "isStoreCall _ = False"

text \<open>
  The first required setting, in the order in which the handler reads them, that is empty
  or absent (the last one when none is).
\<close>

definition firstMissing :: "(jstring \<Rightarrow> jstring option) \<Rightarrow> jstring" where
  "firstMissing e =
     (if \<not> envTruthy e (str ''AUTH0_DOMAIN'') then str ''AUTH0_DOMAIN''
      else if \<not> envTruthy e (str ''AUTH0_CLIENT_ID'') then str ''AUTH0_CLIENT_ID''
      else str ''AUTH0_CLIENT_SECRET'')"

text \<open>
  The identity links of an account, as \<open>buildCsvRow\<close> needs them: absent (or falsy), or
  an array none of whose elements is \<open>null\<close>.
\<close>

definition hasIdentityList :: "jvalue \<Rightarrow> bool" where
  "hasIdentityList u =
     (case js_or (getPropOpt u (str ''identities'')) (JArr []) of
        JArr xs \<Rightarrow> list_all (\<lambda>i. i \<noteq> JUndefined \<and> i \<noteq> JNull) xs
      | _ \<Rightarrow> False)"

text \<open>Effects among which there is no search, no deletion and no object-store call.\<close>

definition quiet :: "effect list \<Rightarrow> bool" where
  "quiet t \<longleftrightarrow> searchQueries t = [] \<and> filter isDeletion t = [] \<and> filter isStoreCall t = []"

text \<open>
  A run with two accounts found: the settings are in the environment, the token request
  and the search succeed, deleting account \<open>a\<close> fails with status 500 and deleting
  account \<open>b\<close> succeeds. The answer of the object store to the read is a parameter.
\<close>

definition envRun :: "jstring \<Rightarrow> jstring option" where
  "envRun = [str ''AUTH0_DOMAIN'' \<mapsto> str ''d.x'', str ''AUTH0_CLIENT_ID'' \<mapsto> str ''id'',
             str ''AUTH0_CLIENT_SECRET'' \<mapsto> str ''sec'', str ''S3_BUCKET'' \<mapsto> str ''b'',
             str ''SSOID'' \<mapsto> str ''abc'']"

definition stateRun :: state where
  "stateRun = \<lparr>env = envRun, paramsLoaded = True, trace = []\<rparr>"

definition userA :: jvalue where
  "userA = JObj [(str ''user_id'', JStr (str ''a''))]"

definition userB :: jvalue where
  "userB = JObj [(str ''user_id'', JStr (str ''b''))]"

definition numRun :: "rat \<Rightarrow> jstring" where
  "numRun r = (if r = 500 then str ''500'' else str ''0'')"

definition fetchRun :: "effect list \<Rightarrow> js_error + http_response" where
  "fetchRun t =
     (case last t of
        Fetch m url qs hs b \<Rightarrow>
          if m = str ''POST''
          then Inr \<lparr>status = 200, statusText = str ''OK'', text_result = Inr (str ''T'')\<rparr>
          else if m = str ''GET''
          then Inr \<lparr>status = 200, statusText = str ''OK'', text_result = Inr (str ''U'')\<rparr>
          else if url = str ''https://d.x/api/v2/users/a''
          then Inr \<lparr>status = 500, statusText = str ''ERR'', text_result = Inr (str ''no'')\<rparr>
          else Inr \<lparr>status = 204, statusText = str ''OK'', text_result = Inr []\<rparr>
      | _ \<Rightarrow> Inl (Error (str ''x'')))"

definition parseRun :: "jstring \<Rightarrow> js_error + jvalue" where
  "parseRun s =
     (if s = str ''T'' then Inr (JObj [(str ''access_token'', JStr (str ''k''))])
      else if s = str ''U'' then Inr (JArr [userA, userB])
      else Inl (Error (str ''bad'')))"

definition worldRun :: "(js_error + jstring) \<Rightarrow> world" where
  "worldRun r = world0\<lparr>fetch := fetchRun, JSON_parse := parseRun, Number_toString := numRun,
                        s3_GetObject := (\<lambda>t. r)\<rparr>"

definition deleteErrorA :: js_error where
  "deleteErrorA = Error (str ''Delete failed HTTP '' @ str ''500'' @ str '': '' @ str ''no'')"

definition stateNoDomain :: state where
  "stateNoDomain = \<lparr>env = [str ''AUTH0_DOMAIN'' \<mapsto> []], paramsLoaded = True, trace = []\<rparr>"

definition storeParam :: "jstring \<Rightarrow> jstring \<Rightarrow> ssm_param" where
  "storeParam n v = \<lparr>Name = n, Value = v\<rparr>"

definition worldPathStore :: world where
  "worldPathStore = world0\<lparr>ssm_GetParametersByPath :=
     (\<lambda>t. Inr \<lparr>bp_Parameters = Some [storeParam (str ''/auth0-cleanup/S3_BUCKET'') (str ''stored'')],
               bp_NextToken = None\<rparr>)\<rparr>"

definition worldFlatStore :: world where
  "worldFlatStore = world0\<lparr>ssm_GetParameters :=
     (\<lambda>t. Inr \<lparr>gp_Parameters = Some [storeParam (str ''auth0_cleanup_S3_BUCKET'') (str ''stored'')],
               gp_InvalidParameters = None\<rparr>)\<rparr>"

definition stateBucket :: "jstring \<Rightarrow> state" where
  "stateBucket v = \<lparr>env = [str ''S3_BUCKET'' \<mapsto> v], paramsLoaded = False, trace = []\<rparr>"

text \<open>
  Runs in which the search answers with the two accounts for the queries listed in
  \<open>hits\<close> and with the empty array for every other query; the rest is as in
  \<open>worldRun\<close>, with the object absent from the store.
\<close>

definition fetchSearch :: "jstring list \<Rightarrow> effect list \<Rightarrow> js_error + http_response" where
  "fetchSearch hits t =
     (case last t of
        Fetch m url qs hs b \<Rightarrow>
          if m = str ''GET''
          then Inr \<lparr>status = 200, statusText = str ''OK'',
                    text_result = Inr (if \<exists>q \<in> set hits. map_of qs (str ''q'') = Some q
                                       then str ''U'' else str ''E'')\<rparr>
          else fetchRun t
      | _ \<Rightarrow> fetchRun t)"

definition parseSearch :: "jstring \<Rightarrow> js_error + jvalue" where
  "parseSearch s = (if s = str ''E'' then Inr (JArr []) else parseRun s)"

definition worldSearch :: "jstring list \<Rightarrow> world" where
  "worldSearch hits = world0\<lparr>fetch := fetchSearch hits, JSON_parse := parseSearch,
                               Number_toString := numRun, s3_GetObject := (\<lambda>t. Inl err404)\<rparr>"

text \<open>A world in which the token request is refused.\<close>

definition worldNoToken :: world where
  "worldNoToken = world0\<lparr>fetch := (\<lambda>t. Inr \<lparr>status = 401, statusText = str ''NO'',
                                               text_result = Inr (str ''no'')\<rparr>),
                         Number_toString := (\<lambda>r. str ''401'')\<rparr>"

text \<open>The settings of \<open>stateRun\<close> in a process that has not loaded its parameters yet.\<close>

definition stateCold :: state where
  "stateCold = \<lparr>env = envRun, paramsLoaded = False, trace = []\<rparr>"

section \<open>Auxiliary facts: rows and ledger content\<close>

lemma doubleQuotes_concat:
  "concat (map (\<lambda>c. if c = DQUOTE then [DQUOTE, DQUOTE] else [c]) s) = doubleQuotes s"
  by (induction s) simp_all

lemma csvEscape_fieldText:
  "csvEscape ns v =
     (if needsQuoting (fieldText ns v) then DQUOTE # doubleQuotes (fieldText ns v) @ [DQUOTE]
      else fieldText ns v)"
proof -
  have t: "ToString ns (nullish v (JStr [])) = fieldText ns v"
    by (simp add: nullish_def fieldText_def)
  have q: "(\<exists>c \<in> set s. c = DQUOTE \<or> c = COMMA \<or> c = LF) = needsQuoting s" for s
    by (auto simp: needsQuoting_def)
  show ?thesis
    unfolding csvEscape_def Let_def t q doubleQuotes_concat by simp
qed

lemma csvEscape_empty [simp]: "csvEscape ns (JStr []) = []"
  by (simp add: csvEscape_fieldText fieldText_def needsQuoting_def)


lemma Array_join_Nil [simp]: "Array_join ns sep [] = []"
  by (simp add: Array_join_def)

lemma js_or_undefined [simp]: "js_or JUndefined b = b"
  by (simp add: js_or_def)





lemma join_empty_sep: "join [] rows = concat rows"
  by (induction "[] :: jstring" rows rule: join.induct) simp_all

lemma CSV_HEADER_LINE_eq:
  "CSV_HEADER_LINE = str ''ssoid,deactivation_flag,last_update_timestamp,user_id,email,name,providers,connections,created_at,last_login,logins_count,deleted_by''"
  by (simp add: CSV_HEADER_LINE_def CSV_HEADER_def str_def LF_def)

lemma header_units_basic:
  "\<forall>c \<in> set CSV_HEADER_LINE. c \<noteq> 0x130 \<and> c \<noteq> 0x212A \<and> \<not> isWhiteSpace c"
  by (simp add: CSV_HEADER_LINE_eq str_def isWhiteSpace_def)

lemma asciiLower_fixes: "asciiLower c = 0x130 \<Longrightarrow> c = 0x130" "asciiLower c = 0x212A \<Longrightarrow> c = 0x212A"
  by (simp_all add: asciiLower_def split: if_splits)

lemma lowerUnit_ascii:
  "asciiLower c \<in> set CSV_HEADER_LINE \<Longrightarrow> lowerUnit c = [asciiLower c]"
  using header_units_basic asciiLower_fixes [of c]
  by (auto simp: lowerUnit_def asciiLower_def)

lemma upper_not_high: "(c::code_unit) \<le> 0x5A \<Longrightarrow> 0x2000 \<le> c \<Longrightarrow> False"
  by (simp add: word_le_nat_alt)

lemma not_white_ascii:
  "asciiLower c \<in> set CSV_HEADER_LINE \<Longrightarrow> \<not> isWhiteSpace c"
proof
  assume a: "asciiLower c \<in> set CSV_HEADER_LINE" and w: "isWhiteSpace c"
  from w have "asciiLower c = c"
    by (auto simp: isWhiteSpace_def asciiLower_def dest: upper_not_high)
  with a header_units_basic w show False by auto
qed

lemma toLowerCase_header_like:
  "set (map asciiLower h) \<subseteq> set CSV_HEADER_LINE \<Longrightarrow> toLowerCase h = map asciiLower h"
  by (induction h) (simp_all add: toLowerCase_def lowerUnit_ascii)

lemma toLowerCase_append: "toLowerCase (a @ b) = toLowerCase a @ toLowerCase b"
  by (simp add: toLowerCase_def)

lemma header_nonempty: "CSV_HEADER_LINE \<noteq> []"
  by (simp add: CSV_HEADER_LINE_eq str_def)

lemma BOM_white: "isWhiteSpace BOM"
  by (simp add: isWhiteSpace_def BOM_def)

lemma beginsWithHeaderLine_headerPresent:
  assumes "beginsWithHeaderLine existing"
  shows "headerPresent existing"
proof -
  define s where "s = stripLeadingBOM existing"
  define h where "h = take (length CSV_HEADER_LINE) s"
  from assms have hH: "map asciiLower h = CSV_HEADER_LINE"
    by (simp add: beginsWithHeaderLine_def s_def h_def)
  with header_nonempty have hne: "h \<noteq> []" by auto
  then have sne: "s \<noteq> []" by (auto simp: h_def)
  then have ene: "existing \<noteq> []" by (auto simp: s_def stripLeadingBOM_def)
  have split: "s = h @ drop (length CSV_HEADER_LINE) s" by (simp add: h_def)
  from hne obtain c h' where h: "h = c # h'" by (cases h) auto
  from hH h have "asciiLower c \<in> set CSV_HEADER_LINE"
    by (metis list.set_intros(1) list.simps(9))
  then have nw: "\<not> isWhiteSpace c" by (rule not_white_ascii)
  from split h have shd: "s = c # (h' @ drop (length CSV_HEADER_LINE) s)" by simp
  then have ts: "trimStart s = s" using nw
    by (metis dropWhile.simps(2) trimStart_def)
  have te: "trimStart existing = s"
  proof (cases existing)
    case Nil with ene show ?thesis by simp
  next
    case (Cons x xs)
    show ?thesis
    proof (cases "x = BOM")
      case True
      with Cons have "s = xs" by (simp add: s_def stripLeadingBOM_def)
      moreover from True Cons have "trimStart existing = trimStart xs"
        by (simp add: trimStart_def BOM_white)
      ultimately show ?thesis using ts by simp
    next
      case False
      with Cons have "s = existing" by (simp add: s_def stripLeadingBOM_def)
      with ts show ?thesis by simp
    qed
  qed
  have "toLowerCase h = CSV_HEADER_LINE"
    using toLowerCase_header_like [of h] hH by simp
  then have "toLowerCase s = CSV_HEADER_LINE @ toLowerCase (drop (length CSV_HEADER_LINE) s)"
    using split toLowerCase_append by metis
  then have "prefix CSV_HEADER_LINE (toLowerCase (trimStart existing))"
    by (simp add: te)
  with ene show ?thesis by (simp add: headerPresent_def)
qed

lemma nextContent_cases:
  "nextContent existing rows =
     (if headerPresent existing then existing @ concat rows
      else CSV_HEADER @ stripLeadingBOM existing @ concat rows)"
  by (auto simp: nextContent_def headerPresent_def join_empty_sep stripLeadingBOM_def)

lemma stripLeadingBOM_id: "\<not> prefix [BOM] existing \<Longrightarrow> stripLeadingBOM existing = existing"
  by (cases existing) (auto simp: stripLeadingBOM_def)

lemma worldS3_simps [simp]:
  "s3_GetObject (worldS3 r) t = r" "s3_PutObject (worldS3 r) t = None"
  by (simp_all add: worldS3_def world0_def)

lemma state0_simps [simp]: "trace state0 = []" "paramsLoaded state0" "env state0 = Map.empty"
  by (simp_all add: state0_def)

lemma headerPresent_existingUpper: "beginsWithHeaderLine existingUpper"
  by (simp add: beginsWithHeaderLine_def existingUpper_def stripLeadingBOM_def
      CSV_HEADER_LINE_eq str_def asciiLower_def)

lemma headerPresent_existingOther: "\<not> headerPresent existingOther"
  by (simp add: headerPresent_def existingOther_def CSV_HEADER_LINE_eq str_def
      trimStart_def isWhiteSpace_def toLowerCase_def lowerUnit_def LF_def)

lemma headerPresent_existingBOM: "\<not> headerPresent existingBOM"
  by (simp add: headerPresent_def existingBOM_def CSV_HEADER_LINE_eq str_def BOM_def
      trimStart_def isWhiteSpace_def toLowerCase_def lowerUnit_def LF_def)

lemma headerPresent_existingV2: "headerPresent existingV2"
  by (simp add: headerPresent_def existingV2_def CSV_HEADER_LINE_eq str_def
      trimStart_def isWhiteSpace_def toLowerCase_def lowerUnit_def LF_def)

section \<open>Auxiliary facts: parameter resolution\<close>

lemma setIfUnset_keeps:
  "e k = Some v \<Longrightarrow> v \<noteq> [] \<Longrightarrow> setIfUnset e key x k = Some v"
  by (auto simp: setIfUnset_def envTruthy_def)

lemma setIfUnset_other:
  "k \<notin> set EXPECTED_KEYS \<Longrightarrow> setIfUnset e key x k = e k"
  by (auto simp: setIfUnset_def)

lemma foldl_setIfUnset_keeps:
  "e k = Some v \<Longrightarrow> v \<noteq> [] \<Longrightarrow>
   foldl (\<lambda>e p. setIfUnset e (f p) (g p)) e ps k = Some v"
  by (induction ps arbitrary: e) (simp_all add: setIfUnset_keeps)

lemma byPathLoop_keeps:
  "env st k = Some v \<Longrightarrow> v \<noteq> [] \<Longrightarrow>
   env (snd (byPathLoop fuel w path tok st)) k = Some v"
proof (induction fuel arbitrary: st tok)
  case 0
  then show ?case by simp
next
  case (Suc n)
  show ?case
    using Suc.prems
    by (auto simp: Let_def emit_def foldl_setIfUnset_keeps
        intro!: Suc.IH split: sum.splits option.splits)
qed

lemma flatPhase_keeps:
  "env st k = Some v \<Longrightarrow> v \<noteq> [] \<Longrightarrow> env (snd (flatPhase w st)) k = Some v"
  by (auto simp: flatPhase_def Let_def emit_def foldl_setIfUnset_keeps
      split: sum.splits option.splits)

lemma bind_env_keeps:
  assumes "\<And>s. P s \<Longrightarrow> P (snd (m s))" and "\<And>x s. P s \<Longrightarrow> P (snd (f x s))" and "P st"
  shows "P (snd (bind m f st))"
  using assms by (auto simp: bind_def split: prod.splits outcome.splits) (metis snd_conv)+

lemma bucket_expected: "str ''S3_BUCKET'' \<in> set EXPECTED_KEYS"
  by (simp add: EXPECTED_KEYS_def)

lemma shortName_bucket: "shortName (str ''/auth0-cleanup/S3_BUCKET'') = str ''S3_BUCKET''"
  by (simp add: shortName_def substring_def str_def SLASH_def)

lemma flatName_bucket:
  "replaceFirst FLAT_PREFIX [] (str ''auth0_cleanup_S3_BUCKET'') = str ''S3_BUCKET''"
  by (simp add: FLAT_PREFIX_def str_def)

lemma path_overwrites:
  "env (snd (byPathLoop (Suc 0) worldPathStore (str ''/auth0-cleanup/'') None (stateBucket [])))
     (str ''S3_BUCKET'') = Some (str ''stored'')"
  by (simp add: worldPathStore_def world0_def stateBucket_def emit_def storeParam_def
      shortName_bucket setIfUnset_def bucket_expected envTruthy_def)

lemma flat_overwrites:
  "env (snd (flatPhase worldFlatStore (stateBucket []))) (str ''S3_BUCKET'')
     = Some (str ''stored'')"
  by (simp add: flatPhase_def worldFlatStore_def world0_def stateBucket_def emit_def
      storeParam_def flatName_bucket setIfUnset_def bucket_expected envTruthy_def Let_def
      EXPECTED_KEYS_def)

lemma default_path:
  "trim (envOr (env (stateBucket v)) (str ''PARAM_PREFIX'') DEFAULT_PARAM_PREFIX)
     = str ''/auth0-cleanup/''"
  by (simp add: envOr_def envTruthy_def stateBucket_def DEFAULT_PARAM_PREFIX_def trim_def
      str_def isWhiteSpace_def)

lemma bind_Return: "m st = (Return x, s1) \<Longrightarrow> bind m f st = f x s1"
  by (simp add: bind_def)

lemma env_after_latch:
  "env (snd (bind m (\<lambda>_ s. (Return (), s\<lparr>paramsLoaded := True\<rparr>)) s1)) = env (snd (m s1))"
proof (cases "m s1")
  case (Pair r s2)
  then show ?thesis by (cases r) (simp_all add: bind_def)
qed

lemma path_store_page:
  "byPathLoop (Suc 0) worldPathStore (str ''/auth0-cleanup/'') None (stateBucket [])
     = (Return (), \<lparr>env = [str ''S3_BUCKET'' \<mapsto> str ''stored''], paramsLoaded = False,
          trace = [SsmGetParametersByPath (str ''/auth0-cleanup/'') None]\<rparr>)"
  by (simp add: worldPathStore_def world0_def stateBucket_def emit_def storeParam_def
      shortName_bucket setIfUnset_def bucket_expected envTruthy_def)

lemma default_path_slashes:
  "prefix [SLASH] (str ''/auth0-cleanup/'')" "suffix [SLASH] (str ''/auth0-cleanup/'')"
  by (simp_all add: str_def SLASH_def suffix_def)

lemma flat_nothing: "env (snd (flatPhase worldPathStore s)) = env s"
  by (simp add: flatPhase_def worldPathStore_def world0_def emit_def Let_def)

lemma load_overwrites:
  "env (snd (loadParamsIntoEnv (Suc 0) worldPathStore (stateBucket []))) (str ''S3_BUCKET'')
     = Some (str ''stored'')"
proof -
  have np: "\<not> paramsLoaded (stateBucket [])" by (simp add: stateBucket_def)
  have "loadParamsIntoEnv (Suc 0) worldPathStore (stateBucket [])
      = bind (flatPhase worldPathStore) (\<lambda>_ s. (Return (), s\<lparr>paramsLoaded := True\<rparr>))
          \<lparr>env = [str ''S3_BUCKET'' \<mapsto> str ''stored''], paramsLoaded = False,
           trace = [SsmGetParametersByPath (str ''/auth0-cleanup/'') None]\<rparr>"
    unfolding loadParamsIntoEnv_def Let_def default_path
    using np
    by (simp del: byPathLoop.simps add: default_path_slashes
        bind_Return [where m = "byPathLoop (Suc 0) worldPathStore (str ''/auth0-cleanup/'') None",
          OF path_store_page])
  then show ?thesis
    by (simp add: env_after_latch flat_nothing)
qed

section \<open>Auxiliary facts: the steps of the handler\<close>

declare byPathLoop.simps [simp del]

lemma method_distinct:
  "str ''GET'' \<noteq> str ''DELETE''" "str ''DELETE'' \<noteq> str ''GET''"
  "str ''POST'' \<noteq> str ''GET''" "str ''POST'' \<noteq> str ''DELETE''"
  "str ''GET'' \<noteq> str ''POST''" "str ''DELETE'' \<noteq> str ''POST''"
  by (simp_all add: str_def)

lemma bind_Throw: "m st = (Throw e, s1) \<Longrightarrow> bind m f st = (Throw e, s1)"
  by (simp add: bind_def)

lemma bind_Diverge: "m st = (Diverge, s1) \<Longrightarrow> bind m f st = (Diverge, s1)"
  by (simp add: bind_def)

lemma search_returns:
  "\<exists>us s1. searchUsersByQuery w domain token q st = (Return us, s1)"
  by (simp add: searchUsersByQuery_def searchUsersByQuery_try_def emit_def Let_def
      split: sum.splits jvalue.splits)

text \<open>What a step may add to the trace.\<close>

lemma search_trace:
  "\<exists>added. trace (snd (searchUsersByQuery w domain token q st)) = trace st @ added
     \<and> prefix (searchQueries added) [q] \<and> filter isDeletion added = []
     \<and> filter isStoreCall added = []"
  by (simp add: searchUsersByQuery_def searchUsersByQuery_try_def emit_def Let_def
      searchQueries_def method_distinct
      split: sum.splits jvalue.splits)

lemma deleteUser_not_Diverge: "fst (deleteUser w domain token userId st) \<noteq> Diverge"
  by (simp add: deleteUser_def Let_def split: sum.splits)

lemma deleteUser_trace:
  "\<exists>added. trace (snd (deleteUser w domain token userId st)) = trace st @ added
     \<and> searchQueries added = [] \<and> filter isStoreCall added = []"
  by (simp add: deleteUser_def emit_def Let_def searchQueries_def method_distinct
      split: sum.splits)

lemma deleteOne_not_Diverge: "fst (deleteOne w domain token SSOID deletedBy u acc st) \<noteq> Diverge"
proof (cases "getProp u (str ''user_id'')")
  case (Inl e)
  then show ?thesis by (simp add: deleteOne_def)
next
  case (Inr userId)
  obtain r s1 where d: "deleteUser w domain token userId st = (r, s1)" by fastforce
  with deleteUser_not_Diverge [of w domain token userId st] have "r \<noteq> Diverge" by simp
  then show ?thesis
    using Inr d
    by (cases r) (auto simp: deleteOne_def deleteFailed_def Let_def split: sum.splits)
qed

lemma deleteOne_trace:
  "\<exists>added. trace (snd (deleteOne w domain token SSOID deletedBy u acc st)) = trace st @ added
     \<and> searchQueries added = [] \<and> filter isStoreCall added = []"
proof (cases "getProp u (str ''user_id'')")
  case (Inl e)
  then show ?thesis by (simp add: deleteOne_def searchQueries_def)
next
  case (Inr userId)
  obtain r s1 where d: "deleteUser w domain token userId st = (r, s1)" by fastforce
  from deleteUser_trace [of w domain token userId st] d obtain added where
    a: "trace s1 = trace st @ added" "searchQueries added = []" "filter isStoreCall added = []"
    by auto
  show ?thesis
    using Inr d a
    by (cases r)
       (auto simp: deleteOne_def deleteFailed_def emit_def Let_def searchQueries_def
          split: sum.splits)
qed

lemma deleteOne_entries:
  assumes "deleteOne w domain token SSOID deletedBy u acc st = (Return acc1, s1)"
  shows "\<exists>new rows. fst acc1 = fst acc @ new \<and> snd acc1 = snd acc @ rows
           \<and> (\<forall>x \<in> set new. \<exists>uid. x = deletedEntry uid \<or> (\<exists>err. x = failedEntry uid err))"
proof (cases "getProp u (str ''user_id'')")
  case (Inl e)
  with assms show ?thesis by (simp add: deleteOne_def)
next
  case (Inr userId)
  obtain r s2 where d: "deleteUser w domain token userId st = (r, s2)" by fastforce
  have e1: "\<exists>uid. deletedEntry a = deletedEntry uid \<or> (\<exists>err. deletedEntry a = failedEntry uid err)"
    for a by blast
  have e2: "\<exists>uid. failedEntry a e = deletedEntry uid \<or> (\<exists>err. failedEntry a e = failedEntry uid err)"
    for a e by blast
  show ?thesis
    using Inr d assms
    by (cases r)
       (auto simp: deleteOne_def deleteFailed_def Let_def e1 e2 split: sum.splits)
qed

lemma deleteLoop_not_Diverge:
  "fst (deleteLoop w domain token SSOID deletedBy users acc st) \<noteq> Diverge"
proof (induction users arbitrary: acc st)
  case Nil
  then show ?case by simp
next
  case (Cons u us)
  obtain r s1 where d: "deleteOne w domain token SSOID deletedBy u acc st = (r, s1)"
    by fastforce
  with deleteOne_not_Diverge [of w domain token SSOID deletedBy u acc st]
  have "r \<noteq> Diverge" by simp
  then show ?case using d Cons.IH by (cases r) (simp_all add: bind_def)
qed

lemma deleteLoop_trace:
  "\<exists>added. trace (snd (deleteLoop w domain token SSOID deletedBy users acc st)) = trace st @ added
     \<and> searchQueries added = [] \<and> filter isStoreCall added = []"
proof (induction users arbitrary: acc st)
  case Nil
  then show ?case by (simp add: searchQueries_def)
next
  case (Cons u us)
  obtain r s1 where d: "deleteOne w domain token SSOID deletedBy u acc st = (r, s1)"
    by fastforce
  from deleteOne_trace [of w domain token SSOID deletedBy u acc st] d obtain a1 where
    a1: "trace s1 = trace st @ a1" "searchQueries a1 = []" "filter isStoreCall a1 = []"
    by auto
  show ?case
  proof (cases r)
    case (Return acc1)
    from Cons.IH [of acc1 s1] obtain a2 where
      a2: "trace (snd (deleteLoop w domain token SSOID deletedBy us acc1 s1)) = trace s1 @ a2"
        "searchQueries a2 = []" "filter isStoreCall a2 = []"
      by auto
    have "trace (snd (deleteLoop w domain token SSOID deletedBy (u # us) acc st))
            = trace st @ (a1 @ a2)"
      using d Return a1 a2 by (simp add: bind_def)
    moreover have "searchQueries (a1 @ a2) = []" "filter isStoreCall (a1 @ a2) = []"
      using a1 a2 by (simp_all add: searchQueries_def)
    ultimately show ?thesis by blast
  next
    case (Throw e)
    with d a1 show ?thesis by (auto simp: bind_def)
  next
    case Diverge
    with d a1 show ?thesis by (auto simp: bind_def)
  qed
qed

lemma deleteLoop_entries:
  assumes "deleteLoop w domain token SSOID deletedBy users acc st = (Return acc1, s1)"
  shows "\<exists>new rows. fst acc1 = fst acc @ new \<and> snd acc1 = snd acc @ rows
           \<and> (\<forall>x \<in> set new. \<exists>uid. x = deletedEntry uid \<or> (\<exists>err. x = failedEntry uid err))"
  using assms
proof (induction users arbitrary: acc st)
  case Nil
  then show ?case by simp
next
  case (Cons u us)
  obtain r s2 where d: "deleteOne w domain token SSOID deletedBy u acc st = (r, s2)"
    by fastforce
  show ?case
  proof (cases r)
    case (Return acc2)
    with d Cons.prems have l: "deleteLoop w domain token SSOID deletedBy us acc2 s2 = (Return acc1, s1)"
      by (simp add: bind_def)
    from deleteOne_entries [of w domain token SSOID deletedBy u acc st acc2 s2] d Return
    obtain n1 r1 where 1: "fst acc2 = fst acc @ n1" "snd acc2 = snd acc @ r1"
      "\<forall>x \<in> set n1. \<exists>uid. x = deletedEntry uid \<or> (\<exists>err. x = failedEntry uid err)"
      by auto
    from Cons.IH [OF l] obtain n2 r2 where 2: "fst acc1 = fst acc2 @ n2" "snd acc1 = snd acc2 @ r2"
      "\<forall>x \<in> set n2. \<exists>uid. x = deletedEntry uid \<or> (\<exists>err. x = failedEntry uid err)"
      by auto
    have "fst acc1 = fst acc @ (n1 @ n2)" "snd acc1 = snd acc @ (r1 @ r2)"
      using 1 2 by simp_all
    moreover have "\<forall>x \<in> set (n1 @ n2). \<exists>uid. x = deletedEntry uid \<or> (\<exists>err. x = failedEntry uid err)"
      using 1 2 by auto
    ultimately show ?thesis by blast
  next
    case (Throw e)
    with d Cons.prems show ?thesis by (simp add: bind_def)
  next
    case Diverge
    with d Cons.prems show ?thesis by (simp add: bind_def)
  qed
qed

lemma appendRows_not_Diverge: "fst (appendRowsToCsvInS3 w bucket key rows st) \<noteq> Diverge"
  by (simp add: appendRowsToCsvInS3_def Let_def split: sum.splits option.splits)

lemma appendRows_trace:
  "\<exists>added. trace (snd (appendRowsToCsvInS3 w bucket key rows st)) = trace st @ added
     \<and> searchQueries added = [] \<and> filter isDeletion added = []"
  by (simp add: appendRowsToCsvInS3_def emit_def Let_def searchQueries_def
      split: sum.splits option.splits)

lemma writeLedger_returns:
  "\<exists>s1. writeLedger w S3_BUCKET S3_KEY csvRows st = (Return (), s1)"
proof -
  obtain r s1 where a: "appendRowsToCsvInS3 w (the S3_BUCKET) S3_KEY csvRows st = (r, s1)"
    by fastforce
  with appendRows_not_Diverge [of w "the S3_BUCKET" S3_KEY csvRows st] have "r \<noteq> Diverge"
    by simp
  then show ?thesis using a by (cases r) (auto simp: writeLedger_def Let_def)
qed

lemma writeLedger_trace:
  "\<exists>added. trace (snd (writeLedger w S3_BUCKET S3_KEY csvRows st)) = trace st @ added
     \<and> searchQueries added = [] \<and> filter isDeletion added = []"
proof -
  obtain r s1 where a: "appendRowsToCsvInS3 w (the S3_BUCKET) S3_KEY csvRows st = (r, s1)"
    by fastforce
  from appendRows_trace [of w "the S3_BUCKET" S3_KEY csvRows st] a obtain added where
    "trace s1 = trace st @ added" "searchQueries added = []" "filter isDeletion added = []"
    by auto
  then show ?thesis using a
    by (cases r) (auto simp: writeLedger_def Let_def emit_def searchQueries_def)
qed

lemma getMgmtToken_not_Diverge:
  "fst (getMgmtToken w domain clientId clientSecret audience st) \<noteq> Diverge"
  by (simp add: getMgmtToken_def Let_def split: sum.splits)

lemma handler_after_prelude:
  assumes "resolveAndAuthenticate fuel w st = (Return (domain, bucket, key, token), s1)"
  shows "handler fuel w event ctx st =
     catchUnhandled w
       (bind (findUsers w domain token (getSsoid (orEmpty event) (env s1))) (\<lambda>users s.
          if length users = 0 then
            (Return (response_of w 200 (notFoundBody (getSsoid (orEmpty event) (env s1)))),
             emit (Console LogInfo (str ''Cannot find user for SSOID=''
                    @ ToString (Number_toString w) (getSsoid (orEmpty event) (env s1))) NoArg) s)
          else deleteAndReport w (orEmpty ctx) domain bucket key token
                 (getSsoid (orEmpty event) (env s1)) users s) s1)"
  by (simp add: handler_def handler_try_def Let_def
      bind_Return [where m = "resolveAndAuthenticate fuel w", OF assms])

lemma search_env:
  "env (snd (searchUsersByQuery w domain token q st)) = env st"
  "paramsLoaded (snd (searchUsersByQuery w domain token q st)) = paramsLoaded st"
  by (simp_all add: searchUsersByQuery_def searchUsersByQuery_try_def emit_def Let_def
      split: sum.splits jvalue.splits)

lemma errorText_Error: "msg \<noteq> [] \<Longrightarrow> errorText (Error msg) = msg"
  by (simp add: errorText_def Error_def)

lemma errArg_Error: "msg \<noteq> [] \<Longrightarrow> errArg (Error msg) = ArgStr msg"
  by (simp add: errArg_def Error_def)

lemma Missing_text:
  "errorText (Error (str ''Missing '' @ n)) = str ''Missing '' @ n"
  "errArg (Error (str ''Missing '' @ n)) = ArgStr (str ''Missing '' @ n)"
  by (simp_all add: errorText_def errArg_def Error_def str_def)

lemma handler_missing:
  assumes "loadParamsIntoEnv fuel w st = (Return (), s)"
    and "mustEnv (env s) n = Inl (Error (str ''Missing '' @ n))"
    and "resolveAndAuthenticate fuel w st = (Throw (Error (str ''Missing '' @ n)), s)"
  shows "handler fuel w event ctx st =
     (Return (response_of w 500 (JObj [(str ''error'', JStr (str ''Missing '' @ n))])),
      emit (Console LogError (str ''Unhandled error:'') (ArgStr (str ''Missing '' @ n))) s)"
  using assms(3)
  by (simp add: handler_def handler_try_def catchUnhandled_def errorBody_def
      bind_Throw [where m = "resolveAndAuthenticate fuel w"]
      Missing_text)

lemma mustEnv_falsy: "\<not> envTruthy e n \<Longrightarrow> mustEnv e n = Inl (Error (str ''Missing '' @ n))"
  by (simp add: mustEnv_def)

lemma mustEnv_truthy: "envTruthy e n \<Longrightarrow> \<exists>v. mustEnv e n = Inr v"
  by (simp add: mustEnv_def)

lemma resolve_missing:
  assumes l: "loadParamsIntoEnv fuel w st = (Return (), s)"
    and k: "k \<in> {str ''AUTH0_DOMAIN'', str ''AUTH0_CLIENT_ID'', str ''AUTH0_CLIENT_SECRET''}"
    and f: "\<not> envTruthy (env s) k"
  shows "\<not> envTruthy (env s) (firstMissing (env s))
         \<and> resolveAndAuthenticate fuel w st
             = (Throw (Error (str ''Missing '' @ firstMissing (env s))), s)"
proof (cases "envTruthy (env s) (str ''AUTH0_DOMAIN'')")
  case False
  then have "resolveAndAuthenticate fuel w st
               = (Throw (Error (str ''Missing '' @ str ''AUTH0_DOMAIN'')), s)"
    by (simp add: resolveAndAuthenticate_def bind_Return [where m = "loadParamsIntoEnv fuel w", OF l]
        mustEnv_falsy)
  with False show ?thesis by (simp add: firstMissing_def)
next
  case d: True
  then obtain dv where dv: "mustEnv (env s) (str ''AUTH0_DOMAIN'') = Inr dv"
    using mustEnv_truthy by blast
  show ?thesis
  proof (cases "envTruthy (env s) (str ''AUTH0_CLIENT_ID'')")
    case False
    then have "resolveAndAuthenticate fuel w st
                 = (Throw (Error (str ''Missing '' @ str ''AUTH0_CLIENT_ID'')), s)"
      by (simp add: resolveAndAuthenticate_def
          bind_Return [where m = "loadParamsIntoEnv fuel w", OF l] dv mustEnv_falsy Let_def)
    with False d show ?thesis by (simp add: firstMissing_def)
  next
    case i: True
    then obtain iv where iv: "mustEnv (env s) (str ''AUTH0_CLIENT_ID'') = Inr iv"
      using mustEnv_truthy by blast
    from k f d i have s: "\<not> envTruthy (env s) (str ''AUTH0_CLIENT_SECRET'')" by auto
    then have "resolveAndAuthenticate fuel w st
                 = (Throw (Error (str ''Missing '' @ str ''AUTH0_CLIENT_SECRET'')), s)"
      by (simp add: resolveAndAuthenticate_def
          bind_Return [where m = "loadParamsIntoEnv fuel w", OF l] dv iv mustEnv_falsy Let_def)
    with s d i show ?thesis by (simp add: firstMissing_def)
  qed
qed

lemma firstMissing_required:
  "firstMissing e \<in> {str ''AUTH0_DOMAIN'', str ''AUTH0_CLIENT_ID'', str ''AUTH0_CLIENT_SECRET''}"
  by (simp add: firstMissing_def)

lemma envTruthy_empty_absent: "envTruthy (e(k \<mapsto> [])) x = envTruthy (e(k := None)) x"
  by (simp add: envTruthy_def)

lemma firstMissing_empty_absent: "firstMissing (e(k \<mapsto> [])) = firstMissing (e(k := None))"
  by (simp only: firstMissing_def envTruthy_empty_absent)

lemma handler_missing_setting:
  assumes "loadParamsIntoEnv fuel w st = (Return (), s)"
    and "k \<in> {str ''AUTH0_DOMAIN'', str ''AUTH0_CLIENT_ID'', str ''AUTH0_CLIENT_SECRET''}"
    and "\<not> envTruthy (env s) k"
  shows "handler fuel w event ctx st =
           (Return (response_of w 500
                      (JObj [(str ''error'', JStr (str ''Missing '' @ firstMissing (env s)))])),
            emit (Console LogError (str ''Unhandled error:'')
                    (ArgStr (str ''Missing '' @ firstMissing (env s)))) s)"
  using resolve_missing [OF assms] handler_missing [OF assms(1)] mustEnv_falsy by blast

lemma getProp_total: "getProp u k = Inr x \<Longrightarrow> \<exists>y. getProp u k' = Inr y"
  by (cases u) (simp_all add: getProp_def)

lemma mapProp_Inr:
  "list_all (\<lambda>i. i \<noteq> JUndefined \<and> i \<noteq> JNull) xs \<Longrightarrow> \<exists>vs. mapProp k xs = Inr vs"
proof (induction xs)
  case Nil
  then show ?case by simp
next
  case (Cons i xs)
  then obtain vs where vs: "mapProp k xs = Inr vs" by auto
  from Cons.prems have "i \<noteq> JUndefined" "i \<noteq> JNull" by simp_all
  then obtain v where "getProp i k = Inr v"
    by (cases i) (simp_all add: getProp_def)
  with vs show ?case by (simp add: bindE_def)
qed

lemma identityProps_Inr:
  assumes "getProp u k0 = Inr x" and "hasIdentityList u"
  shows "\<exists>vs. identityProps u k = Inr vs"
proof -
  from getProp_total [OF assms(1)] obtain ids where ids: "getProp u (str ''identities'') = Inr ids"
    by blast
  then have o: "getPropOpt u (str ''identities'') = ids" by (simp add: getPropOpt_def)
  from assms(2) o obtain xs where xs: "js_or ids (JArr []) = JArr xs"
    "list_all (\<lambda>i. i \<noteq> JUndefined \<and> i \<noteq> JNull) xs"
    by (auto simp: hasIdentityList_def split: jvalue.splits)
  from mapProp_Inr [OF xs(2)] obtain vs where "mapProp k xs = Inr vs" by blast
  with ids xs(1) show ?thesis by (simp add: identityProps_def bindE_def)
qed

lemma buildCsvRow_Inr:
  assumes "getProp u k0 = Inr x" and "hasIdentityList u"
  shows "\<exists>row. buildCsvRow ns now ssoid u deletedBy = Inr row"
proof -
  obtain ps where ps: "identityProps u (str ''provider'') = Inr ps"
    using identityProps_Inr [OF assms] by blast
  obtain cs where cs: "identityProps u (str ''connection'') = Inr cs"
    using identityProps_Inr [OF assms] by blast
  have g: "\<exists>y. getProp u k = Inr y" for k using getProp_total [OF assms(1)] .
  obtain a where a: "getProp u (str ''user_id'') = Inr a" using g by blast
  obtain b where b: "getProp u (str ''email'') = Inr b" using g by blast
  obtain c where c: "getProp u (str ''name'') = Inr c" using g by blast
  obtain d where d: "getProp u (str ''nickname'') = Inr d" using g by blast
  obtain e where e: "getProp u (str ''username'') = Inr e" using g by blast
  obtain f where f: "getProp u (str ''created_at'') = Inr f" using g by blast
  obtain h where h: "getProp u (str ''last_login'') = Inr h" using g by blast
  obtain i where i: "getProp u (str ''logins_count'') = Inr i" using g by blast
  show ?thesis
    by (simp add: buildCsvRow_def buildCsvRow_fields_def bindE_def ps cs a b c d e f h i)
qed

lemma deleteOne_failed:
  assumes "getProp u (str ''user_id'') = Inr userId"
    and "deleteUser w domain token userId st = (Throw err, s1)"
  shows "deleteOne w domain token SSOID deletedBy u acc st =
     (Return (fst acc @ [failedEntry userId err], snd acc),
      emit (Console LogError
              (str ''Failed to delete user_id='' @ ToString (Number_toString w) userId @ str '':'')
              (errArg err)) s1)"
  using assms by (simp add: deleteOne_def deleteFailed_def)

lemma deleteOne_deleted:
  assumes "getProp u (str ''user_id'') = Inr userId"
    and "deleteUser w domain token userId st = (Return (), s1)"
    and "buildCsvRow (Number_toString w)
           (Date_toISOString w (trace (emit (Console LogInfo
              (str ''Deleted Auth0 user_id='' @ ToString (Number_toString w) userId) NoArg) s1)))
           SSOID u deletedBy = Inr row"
  shows "deleteOne w domain token SSOID deletedBy u acc st =
     (Return (fst acc @ [deletedEntry userId], snd acc @ [row]),
      emit (Console LogInfo
              (str ''Deleted Auth0 user_id='' @ ToString (Number_toString w) userId) NoArg) s1)"
  using assms by (simp add: deleteOne_def Let_def)

lemma writeLedger_bucket:
  assumes "bucket \<noteq> []" and "csvRows \<noteq> []"
  shows "writeLedger w (Some bucket) key csvRows st =
     (case appendRowsToCsvInS3 w bucket key csvRows st of
        (Throw e, s1) \<Rightarrow>
          (Return (), emit (Console LogError (str ''Failed to write deleted_users.csv:'')
                              (errArg e)) s1)
      | r \<Rightarrow> r)"
  using assms by (simp add: writeLedger_def)

lemma handler_found:
  assumes "resolveAndAuthenticate fuel w st = (Return (domain, bucket, key, token), s1)"
    and "findUsers w domain token (getSsoid (orEmpty event) (env s1)) s1 = (Return users, s2)"
    and "users \<noteq> []"
  shows "handler fuel w event ctx st =
     catchUnhandled w (deleteAndReport w (orEmpty ctx) domain bucket key token
        (getSsoid (orEmpty event) (env s1)) users s2)"
  unfolding handler_after_prelude [OF assms(1)]
  using assms(3)
  by (simp add: bind_Return [where m = "findUsers w domain token (getSsoid (orEmpty event) (env s1))",
        OF assms(2)])

lemma handler_reported:
  assumes "resolveAndAuthenticate fuel w st = (Return (domain, bucket, key, token), s1)"
    and "findUsers w domain token (getSsoid (orEmpty event) (env s1)) s1 = (Return users, s2)"
    and "users \<noteq> []"
    and "deleteLoop w domain token (getSsoid (orEmpty event) (env s1))
           (getDeletedBy (orEmpty ctx) (env s2)) users ([], []) s2
           = (Return (results, csvRows), s3)"
    and "writeLedger w bucket key csvRows s3 = (Return (), s4)"
  shows "handler fuel w event ctx st =
     (Return (response_of w 200 (completeBody (getSsoid (orEmpty event) (env s1)) results)), s4)"
  unfolding handler_found [OF assms(1,2,3)]
  by (simp add: deleteAndReport_def catchUnhandled_def
      bind_Return [where m = "deleteLoop w domain token (getSsoid (orEmpty event) (env s1))
           (getDeletedBy (orEmpty ctx) (env s2)) users ([], [])", OF assms(4)]
      bind_Return [where m = "writeLedger w bucket key csvRows", OF assms(5)])

lemma two_accounts_loop:
  assumes "getProp a (str ''user_id'') = Inr ida"
    and "getProp b (str ''user_id'') = Inr idb"
    and "hasIdentityList b"
    and "deleteUser w domain token ida s2 = (Throw err, s3)"
    and "deleteUser w domain token idb
           (emit (Console LogError
              (str ''Failed to delete user_id='' @ ToString (Number_toString w) ida @ str '':'')
              (errArg err)) s3) = (Return (), s4)"
    and "s5 = emit (Console LogInfo
              (str ''Deleted Auth0 user_id='' @ ToString (Number_toString w) idb) NoArg) s4"
  shows "\<exists>row.
      buildCsvRow (Number_toString w) (Date_toISOString w (trace s5)) SSOID b deletedBy = Inr row
    \<and> deleteLoop w domain token SSOID deletedBy [a, b] ([], []) s2
        = (Return ([failedEntry ida err, deletedEntry idb], [row]), s5)"
proof -
  obtain row where row:
    "buildCsvRow (Number_toString w) (Date_toISOString w (trace s5)) SSOID b deletedBy = Inr row"
    using buildCsvRow_Inr [OF assms(2,3)] by blast
  have one: "deleteOne w domain token SSOID deletedBy a ([], []) s2 =
      (Return ([failedEntry ida err], []),
       emit (Console LogError
              (str ''Failed to delete user_id='' @ ToString (Number_toString w) ida @ str '':'')
              (errArg err)) s3)"
    using deleteOne_failed [OF assms(1,4), where SSOID = SSOID and deletedBy = deletedBy
          and acc = "([], [])"] by simp
  have two: "deleteOne w domain token SSOID deletedBy b ([failedEntry ida err], [])
       (emit (Console LogError
              (str ''Failed to delete user_id='' @ ToString (Number_toString w) ida @ str '':'')
              (errArg err)) s3) =
      (Return ([failedEntry ida err, deletedEntry idb], [row]), s5)"
    using deleteOne_deleted [OF assms(2,5), where SSOID = SSOID and deletedBy = deletedBy
          and row = row and acc = "([failedEntry ida err], [])"]
      row assms(6)
    by simp
  have loop: "deleteLoop w domain token SSOID deletedBy [a, b] ([], []) s2
        = (Return ([failedEntry ida err, deletedEntry idb], [row]), s5)"
    by (simp add: bind_Return [where m = "deleteOne w domain token SSOID deletedBy a ([], [])", OF one]
        bind_Return [where m = "deleteOne w domain token SSOID deletedBy b ([failedEntry ida err], [])",
          OF two])
  with row show ?thesis by blast
qed

lemma deleteOne_rows:
  assumes "deleteOne w domain token SSOID deletedBy u acc st = (Return acc1, s1)"
  shows "snd acc1 = snd acc \<or> (\<exists>uid. deletedEntry uid \<in> set (fst acc1))"
proof (cases "getProp u (str ''user_id'')")
  case (Inl e)
  with assms show ?thesis by (simp add: deleteOne_def)
next
  case (Inr userId)
  obtain r s2 where d: "deleteUser w domain token userId st = (r, s2)" by fastforce
  show ?thesis
    using Inr d assms
    by (cases r)
       (auto simp: deleteOne_def deleteFailed_def Let_def split: sum.splits)
qed

lemma deleteLoop_rows:
  assumes "deleteLoop w domain token SSOID deletedBy users acc st = (Return acc1, s1)"
  shows "snd acc1 = snd acc \<or> (\<exists>uid. deletedEntry uid \<in> set (fst acc1))"
  using assms
proof (induction users arbitrary: acc st)
  case Nil
  then show ?case by simp
next
  case (Cons u us)
  obtain r s2 where d: "deleteOne w domain token SSOID deletedBy u acc st = (r, s2)"
    by fastforce
  show ?case
  proof (cases r)
    case (Return acc2)
    with d Cons.prems have l: "deleteLoop w domain token SSOID deletedBy us acc2 s2 = (Return acc1, s1)"
      by (simp add: bind_def)
    from deleteOne_rows [of w domain token SSOID deletedBy u acc st acc2 s2] d Return
    have 1: "snd acc2 = snd acc \<or> (\<exists>uid. deletedEntry uid \<in> set (fst acc2))" by simp
    from deleteLoop_entries [OF l] obtain new where 2: "fst acc1 = fst acc2 @ new" by blast
    from Cons.IH [OF l] have 3: "snd acc1 = snd acc2 \<or> (\<exists>uid. deletedEntry uid \<in> set (fst acc1))" .
    from 1 2 3 show ?thesis by auto
  next
    case (Throw e)
    with d Cons.prems show ?thesis by (simp add: bind_def)
  next
    case Diverge
    with d Cons.prems show ?thesis by (simp add: bind_def)
  qed
qed

lemma quiet_simps [simp]:
  "quiet []"
  "quiet (a @ b) \<longleftrightarrow> quiet a \<and> quiet b"
  "quiet (SsmGetParametersByPath p t # a) \<longleftrightarrow> quiet a"
  "quiet (SsmGetParameters ns # a) \<longleftrightarrow> quiet a"
  "quiet (Console l m x # a) \<longleftrightarrow> quiet a"
  "quiet (Fetch (str ''POST'') url qs hs bd # a) \<longleftrightarrow> quiet a"
  by (auto simp: quiet_def searchQueries_def method_distinct)

lemma bind_quiet:
  assumes "\<And>s. \<exists>a. trace (snd (m s)) = trace s @ a \<and> quiet a"
    and "\<And>x s. \<exists>a. trace (snd (f x s)) = trace s @ a \<and> quiet a"
  shows "\<exists>a. trace (snd (bind m f st)) = trace st @ a \<and> quiet a"
proof -
  obtain r s1 where m: "m st = (r, s1)" by fastforce
  from assms(1) [of st] m obtain a1 where a1: "trace s1 = trace st @ a1" "quiet a1" by auto
  show ?thesis
  proof (cases r)
    case (Return x)
    from assms(2) [of x s1] obtain a2 where a2: "trace (snd (f x s1)) = trace s1 @ a2" "quiet a2"
      by auto
    have "trace (snd (bind m f st)) = trace st @ (a1 @ a2)"
      using m Return a1 a2 by (simp add: bind_def)
    moreover have "quiet (a1 @ a2)" using a1 a2 by simp
    ultimately show ?thesis by blast
  next
    case (Throw e)
    with m a1 show ?thesis by (auto simp: bind_def)
  next
    case Diverge
    with m a1 show ?thesis by (auto simp: bind_def)
  qed
qed

lemma byPathLoop_quiet:
  "\<exists>a. trace (snd (byPathLoop fuel w path tok st)) = trace st @ a \<and> quiet a"
proof (induction fuel arbitrary: tok st)
  case 0
  then show ?case by (simp add: byPathLoop.simps)
next
  case (Suc n)
  let ?st1 = "emit (SsmGetParametersByPath path tok) st"
  show ?case
  proof (cases "ssm_GetParametersByPath w (trace ?st1)")
    case (Inl e)
    then show ?thesis by (simp add: byPathLoop.simps Let_def emit_def)
  next
    case (Inr resp)
    define st2 where "st2 = ?st1\<lparr>env := foldl (\<lambda>e p. setIfUnset e (shortName (Name p)) (Value p))
        (env ?st1) (case bp_Parameters resp of None \<Rightarrow> [] | Some xs \<Rightarrow> xs)\<rparr>"
    have t2: "trace st2 = trace st @ [SsmGetParametersByPath path tok]"
      by (simp add: st2_def emit_def)
    show ?thesis
    proof (cases "\<exists>t. bp_NextToken resp = Some t \<and> t \<noteq> []")
      case True
      then obtain t where t: "bp_NextToken resp = Some t" "t \<noteq> []" by blast
      from Suc.IH [of "Some t" st2] obtain a where
        a: "trace (snd (byPathLoop n w path (Some t) st2)) = trace st2 @ a" "quiet a" by blast
      have "byPathLoop (Suc n) w path tok st = byPathLoop n w path (Some t) st2"
        using Inr t by (simp add: byPathLoop.simps Let_def st2_def)
      then have "trace (snd (byPathLoop (Suc n) w path tok st))
                   = trace st @ ([SsmGetParametersByPath path tok] @ a)"
        using a t2 by simp
      moreover have "quiet ([SsmGetParametersByPath path tok] @ a)" using a by simp
      ultimately show ?thesis by blast
    next
      case False
      then have "byPathLoop (Suc n) w path tok st = (Return (), st2)"
        using Inr by (auto simp: byPathLoop.simps Let_def st2_def split: option.splits)
      then show ?thesis using t2 by simp
    qed
  qed
qed

lemma flatPhase_quiet:
  "\<exists>a. trace (snd (flatPhase w st)) = trace st @ a \<and> quiet a"
  by (auto simp: flatPhase_def Let_def emit_def split: sum.splits option.splits)

lemma loadParams_quiet:
  "\<exists>a. trace (snd (loadParamsIntoEnv fuel w st)) = trace st @ a \<and> quiet a"
proof (cases "paramsLoaded st")
  case True
  then show ?thesis by (simp add: loadParamsIntoEnv_def)
next
  case False
  have latch: "\<exists>a. trace (snd ((\<lambda>_ s. (Return (), s\<lparr>paramsLoaded := True\<rparr>)) x s)) = trace s @ a \<and> quiet a"
    for x :: unit and s by simp
  have second: "\<exists>a. trace (snd (bind (flatPhase w)
                  (\<lambda>_ s. (Return (), s\<lparr>paramsLoaded := True\<rparr>)) s)) = trace s @ a \<and> quiet a" for s
    by (rule bind_quiet [OF flatPhase_quiet latch])
  have first: "\<exists>a. trace (snd (if c then byPathLoop fuel w p None s else (Return (), s)))
                  = trace s @ a \<and> quiet a" for c p s
    using byPathLoop_quiet [of fuel w p None s] by simp
  show ?thesis
    unfolding loadParamsIntoEnv_def Let_def
    using False
    by (simp only: if_False) (rule bind_quiet [OF first second])
qed

lemma getMgmtToken_quiet:
  "\<exists>a. trace (snd (getMgmtToken w domain clientId clientSecret audience st)) = trace st @ a
     \<and> quiet a"
  by (simp add: getMgmtToken_def Let_def emit_def split: sum.splits)

lemma resolve_quiet:
  "\<exists>a. trace (snd (resolveAndAuthenticate fuel w st)) = trace st @ a \<and> quiet a"
proof -
  have tok: "\<exists>a. trace (snd (bind (getMgmtToken w d i c au)
                (\<lambda>token s1. (Return (d, b, k, token), s1)) s)) = trace s @ a \<and> quiet a"
    for d i c au s and b :: "jstring option" and k :: jstring
    by (rule bind_quiet [OF getMgmtToken_quiet]) simp
  have rest: "\<exists>a. trace (snd ((\<lambda>_ s.
       case mustEnv (env s) (str ''AUTH0_DOMAIN'') of
         Inl e \<Rightarrow> (Throw e, s)
       | Inr AUTH0_DOMAIN \<Rightarrow>
           (let AUTH0_AUDIENCE = envOr (env s) (str ''AUTH0_AUDIENCE'')
                  (str ''https://'' @ stripProtocol AUTH0_DOMAIN @ str ''/api/v2/'');
                S3_BUCKET = env s (str ''S3_BUCKET'');
                S3_KEY = envOr (env s) (str ''S3_KEY'') (str ''output/deleted_users.csv'')
            in case mustEnv (env s) (str ''AUTH0_CLIENT_ID'') of
                 Inl e \<Rightarrow> (Throw e, s)
               | Inr clientId \<Rightarrow>
                   (case mustEnv (env s) (str ''AUTH0_CLIENT_SECRET'') of
                      Inl e \<Rightarrow> (Throw e, s)
                    | Inr clientSecret \<Rightarrow>
                        bind (getMgmtToken w AUTH0_DOMAIN clientId clientSecret AUTH0_AUDIENCE)
                          (\<lambda>token s1. (Return (AUTH0_DOMAIN, S3_BUCKET, S3_KEY, token), s1))
                          s))) x s)) = trace s @ a \<and> quiet a" for x :: unit and s
    using tok by (simp add: Let_def split: sum.splits)
  show ?thesis
    unfolding resolveAndAuthenticate_def
    by (rule bind_quiet [OF loadParams_quiet rest])
qed

lemma searchQueries_append [simp]:
  "searchQueries (a @ b) = searchQueries a @ searchQueries b"
  "searchQueries [] = []"
  "searchQueries (Console l m x # a) = searchQueries a"
  by (simp_all add: searchQueries_def)

lemma search_queries_exact:
  "\<exists>added. trace (snd (searchUsersByQuery w domain token q st)) = trace st @ added
     \<and> searchQueries added =
         (case new_URL w (str ''https://'' @ stripProtocol domain @ str ''/api/v2/users'') of
            Inl e \<Rightarrow> [] | Inr url \<Rightarrow> [q])
     \<and> filter isDeletion added = [] \<and> filter isStoreCall added = []"
  by (simp add: searchUsersByQuery_def searchUsersByQuery_try_def emit_def Let_def
      searchQueries_def method_distinct
      split: sum.splits jvalue.splits)

lemma catchUnhandled_trace:
  "\<exists>a. trace (snd (catchUnhandled w r)) = trace (snd r) @ a \<and> quiet a"
  by (cases r) (auto simp: catchUnhandled_def emit_def split: outcome.splits)

lemma deleteAndReport_queries:
  "\<exists>added. trace (snd (deleteAndReport w ctx domain bucket key token SSOID users st))
       = trace st @ added \<and> searchQueries added = []"
proof -
  let ?db = "getDeletedBy ctx (env st)"
  obtain r s1 where l: "deleteLoop w domain token SSOID ?db users ([], []) st = (r, s1)"
    by fastforce
  from deleteLoop_trace [of w domain token SSOID ?db users "([], [])" st] l obtain a1 where
    a1: "trace s1 = trace st @ a1" "searchQueries a1 = []" by auto
  show ?thesis
  proof (cases r)
    case (Return acc)
    obtain results csvRows where acc: "acc = (results, csvRows)" by (cases acc)
    obtain s2 where wl: "writeLedger w bucket key csvRows s1 = (Return (), s2)"
      using writeLedger_returns by blast
    from writeLedger_trace [of w bucket key csvRows s1] wl obtain a2 where
      a2: "trace s2 = trace s1 @ a2" "searchQueries a2 = []" by auto
    have "trace (snd (deleteAndReport w ctx domain bucket key token SSOID users st))
            = trace st @ (a1 @ a2)"
      using l Return acc wl a1 a2 by (simp add: deleteAndReport_def bind_def)
    moreover have "searchQueries (a1 @ a2) = []" using a1 a2 by simp
    ultimately show ?thesis by blast
  next
    case (Throw e)
    with l a1 show ?thesis by (auto simp: deleteAndReport_def bind_def)
  next
    case Diverge
    with l a1 show ?thesis by (auto simp: deleteAndReport_def bind_def)
  qed
qed

lemma queries_distinct: "identityQuery w SSOID \<noteq> metadataQuery w SSOID"
  by (simp add: identityQuery_def metadataQuery_def str_def)

lemma search_fallback_steps:
  assumes "resolveAndAuthenticate fuel w st = (Return (domain, bucket, key, token), s1)"
    and "SSOID = getSsoid (orEmpty event) (env s1)"
    and "issued = drop (length (trace st)) (trace (snd (handler fuel w event ctx st)))"
  shows "\<exists>users1 s2 users2 s3.
      searchUsersByQuery w domain token (identityQuery w SSOID) s1 = (Return users1, s2)
    \<and> searchUsersByQuery w domain token (metadataQuery w SSOID) s2 = (Return users2, s3)
    \<and> searchQueries issued =
         (case new_URL w (str ''https://'' @ stripProtocol domain @ str ''/api/v2/users'') of
            Inl e \<Rightarrow> []
          | Inr url \<Rightarrow> if users1 = [] then [identityQuery w SSOID, metadataQuery w SSOID]
                        else [identityQuery w SSOID])
    \<and> identityQuery w SSOID \<noteq> metadataQuery w SSOID
    \<and> (users1 \<noteq> [] \<longrightarrow>
          handler fuel w event ctx st
            = catchUnhandled w (deleteAndReport w (orEmpty ctx) domain bucket key token
                                  SSOID users1 s2))
    \<and> (users1 = [] \<and> users2 \<noteq> [] \<longrightarrow>
          handler fuel w event ctx st
            = catchUnhandled w (deleteAndReport w (orEmpty ctx) domain bucket key token
                                  SSOID users2 s3))
    \<and> (users1 = [] \<and> users2 = [] \<longrightarrow>
          handler fuel w event ctx st
            = (Return (response_of w 200
                 (JObj [(str ''message'', JStr (str ''Cannot find user'')),
                        (str ''ssoid'', SSOID),
                        (str ''results'', JArr [])])),
               emit (Console LogInfo (str ''Cannot find user for SSOID=''
                       @ ToString (Number_toString w) SSOID) NoArg) s3)
          \<and> filter isDeletion issued = [] \<and> filter isStoreCall issued = [])"
proof -
  let ?url = "new_URL w (str ''https://'' @ stripProtocol domain @ str ''/api/v2/users'')"
  let ?q1 = "identityQuery w SSOID" and ?q2 = "metadataQuery w SSOID"
  let ?h = "handler fuel w event ctx st"
  from resolve_quiet [of fuel w st] assms(1) obtain a0 where
    a0: "trace s1 = trace st @ a0" "quiet a0" by auto
  obtain users1 s2 where u1: "searchUsersByQuery w domain token ?q1 s1 = (Return users1, s2)"
    using search_returns by blast
  obtain users2 s3 where u2: "searchUsersByQuery w domain token ?q2 s2 = (Return users2, s3)"
    using search_returns by blast
  from search_queries_exact [of w domain token ?q1 s1] u1 obtain a1 where
    a1: "trace s2 = trace s1 @ a1"
        "searchQueries a1 = (case ?url of Inl e \<Rightarrow> [] | Inr url \<Rightarrow> [?q1])"
        "filter isDeletion a1 = []" "filter isStoreCall a1 = []" by auto
  from search_queries_exact [of w domain token ?q2 s2] u2 obtain a2 where
    a2: "trace s3 = trace s2 @ a2"
        "searchQueries a2 = (case ?url of Inl e \<Rightarrow> [] | Inr url \<Rightarrow> [?q2])"
        "filter isDeletion a2 = []" "filter isStoreCall a2 = []" by auto
  have q0: "searchQueries a0 = []" "filter isDeletion a0 = []" "filter isStoreCall a0 = []"
    using a0(2) by (simp_all add: quiet_def)
  have first: "?h = catchUnhandled w (deleteAndReport w (orEmpty ctx) domain bucket key token
                                  SSOID users1 s2)
             \<and> searchQueries issued = (case ?url of Inl e \<Rightarrow> [] | Inr url \<Rightarrow> [?q1])"
    if ne: "users1 \<noteq> []"
  proof -
    have f: "findUsers w domain token SSOID s1 = (Return users1, s2)"
      using u1 ne by (simp add: findUsers_def bind_def)
    have h: "?h = catchUnhandled w (deleteAndReport w (orEmpty ctx) domain bucket key token
                                  SSOID users1 s2)"
      using handler_found [OF assms(1), where event = event and users = users1 and ?s2.0 = s2
          and ctx = ctx] f ne assms(2) by simp
    from deleteAndReport_queries [of w "orEmpty ctx" domain bucket key token SSOID users1 s2]
    obtain a3 where a3: "trace (snd (deleteAndReport w (orEmpty ctx) domain bucket key token
        SSOID users1 s2)) = trace s2 @ a3" "searchQueries a3 = []" by blast
    from catchUnhandled_trace [of w "deleteAndReport w (orEmpty ctx) domain bucket key token
        SSOID users1 s2"]
    obtain a4 where a4: "trace (snd ?h) = trace s2 @ a3 @ a4" "quiet a4"
      using h a3 by auto
    have "issued = a0 @ a1 @ a3 @ a4" using assms(3) a4 a1 a0 by simp
    then have "searchQueries issued = searchQueries a1"
      using q0 a3 a4(2) by (simp add: quiet_def)
    with h a1 show ?thesis by simp
  qed
  have second: "?h = catchUnhandled w (deleteAndReport w (orEmpty ctx) domain bucket key token
                                  SSOID users2 s3)
             \<and> searchQueries issued = (case ?url of Inl e \<Rightarrow> [] | Inr url \<Rightarrow> [?q1, ?q2])"
    if e1: "users1 = []" and ne: "users2 \<noteq> []"
  proof -
    have f: "findUsers w domain token SSOID s1 = (Return users2, s3)"
      using u1 u2 e1 by (simp add: findUsers_def bind_def)
    have h: "?h = catchUnhandled w (deleteAndReport w (orEmpty ctx) domain bucket key token
                                  SSOID users2 s3)"
      using handler_found [OF assms(1), where event = event and users = users2 and ?s2.0 = s3
          and ctx = ctx] f ne assms(2) by simp
    from deleteAndReport_queries [of w "orEmpty ctx" domain bucket key token SSOID users2 s3]
    obtain a3 where a3: "trace (snd (deleteAndReport w (orEmpty ctx) domain bucket key token
        SSOID users2 s3)) = trace s3 @ a3" "searchQueries a3 = []" by blast
    from catchUnhandled_trace [of w "deleteAndReport w (orEmpty ctx) domain bucket key token
        SSOID users2 s3"]
    obtain a4 where a4: "trace (snd ?h) = trace s3 @ a3 @ a4" "quiet a4"
      using h a3 by auto
    have "issued = a0 @ a1 @ a2 @ a3 @ a4" using assms(3) a4 a2 a1 a0 by simp
    then have "searchQueries issued = searchQueries a1 @ searchQueries a2"
      using q0 a3 a4(2) by (simp add: quiet_def)
    with h a1 a2 show ?thesis by (simp split: sum.splits)
  qed
  have none: "?h = (Return (response_of w 200 (notFoundBody SSOID)),
               emit (Console LogInfo (str ''Cannot find user for SSOID=''
                       @ ToString (Number_toString w) SSOID) NoArg) s3)
             \<and> searchQueries issued = (case ?url of Inl e \<Rightarrow> [] | Inr url \<Rightarrow> [?q1, ?q2])
             \<and> filter isDeletion issued = [] \<and> filter isStoreCall issued = []"
    if e1: "users1 = []" and e2: "users2 = []"
  proof -
    have f: "findUsers w domain token SSOID s1 = (Return [], s3)"
      using u1 u2 e1 e2 by (simp add: findUsers_def bind_def)
    have h: "?h = (Return (response_of w 200 (notFoundBody SSOID)),
               emit (Console LogInfo (str ''Cannot find user for SSOID=''
                       @ ToString (Number_toString w) SSOID) NoArg) s3)"
      unfolding handler_after_prelude [OF assms(1)] assms(2) [symmetric]
      by (simp add: bind_Return [where m = "findUsers w domain token SSOID", OF f]
          catchUnhandled_def)
    have "issued = a0 @ a1 @ a2 @ [Console LogInfo (str ''Cannot find user for SSOID=''
                       @ ToString (Number_toString w) SSOID) NoArg]"
      using assms(3) h a2 a1 a0 by (simp add: emit_def)
    then have "searchQueries issued = searchQueries a1 @ searchQueries a2"
      "filter isDeletion issued = []" "filter isStoreCall issued = []"
      using q0 a1 a2 by simp_all
    with h a1 a2 show ?thesis by (simp split: sum.splits)
  qed
  have q: "searchQueries issued =
         (case ?url of Inl e \<Rightarrow> []
          | Inr url \<Rightarrow> if users1 = [] then [?q1, ?q2] else [?q1])"
    using first second none by (cases "users1 = []"; cases "users2 = []") (auto split: sum.splits)
  show ?thesis
    using u1 u2 q queries_distinct [of w SSOID] first second none
    by (auto simp: notFoundBody_def)
qed

lemma findUsers_returns:
  "\<exists>us s1. findUsers w domain token SSOID st = (Return us, s1)"
proof -
  obtain u1 s1 where 1: "searchUsersByQuery w domain token (identityQuery w SSOID) st = (Return u1, s1)"
    using search_returns by blast
  obtain u2 s2 where 2: "searchUsersByQuery w domain token (metadataQuery w SSOID) s1 = (Return u2, s2)"
    using search_returns by blast
  show ?thesis using 1 2 by (simp add: findUsers_def bind_def)
qed

lemma deleteAndReport_cases:
  "(\<exists>e s1. deleteAndReport w ctx domain bucket key token SSOID users st = (Throw e, s1))
   \<or> (\<exists>results s1.
         deleteAndReport w ctx domain bucket key token SSOID users st
           = (Return (response_of w 200 (completeBody SSOID results)), s1)
         \<and> (\<forall>x \<in> set results. \<exists>uid. x = deletedEntry uid \<or> (\<exists>err. x = failedEntry uid err)))"
proof -
  obtain r s1 where
    l: "deleteLoop w domain token SSOID (getDeletedBy ctx (env st)) users ([], []) st = (r, s1)"
    by fastforce
  show ?thesis
  proof (cases r)
    case (Return acc)
    obtain results csvRows where acc: "acc = (results, csvRows)" by (cases acc)
    from deleteLoop_entries [of w domain token SSOID _ users "([], [])" st acc s1] l Return acc
    have e: "\<forall>x \<in> set results. \<exists>uid. x = deletedEntry uid \<or> (\<exists>err. x = failedEntry uid err)"
      by auto
    obtain s2 where wl: "writeLedger w bucket key csvRows s1 = (Return (), s2)"
      using writeLedger_returns by blast
    have "deleteAndReport w ctx domain bucket key token SSOID users st
            = (Return (response_of w 200 (completeBody SSOID results)), s2)"
      using l Return acc wl by (simp add: deleteAndReport_def bind_def)
    with e show ?thesis by blast
  next
    case (Throw e)
    with l show ?thesis by (simp add: deleteAndReport_def bind_def)
  next
    case Diverge
    with l deleteLoop_not_Diverge [of w domain token SSOID "getDeletedBy ctx (env st)" users "([], [])" st]
    show ?thesis by simp
  qed
qed

lemma resolve_Diverge:
  assumes "fst (resolveAndAuthenticate fuel w st) = Diverge"
  shows "fst (loadParamsIntoEnv fuel w st) = Diverge"
proof -
  obtain r s where l: "loadParamsIntoEnv fuel w st = (r, s)" by fastforce
  show ?thesis
  proof (cases r)
    case (Return u)
    have "fst (resolveAndAuthenticate fuel w st) \<noteq> Diverge"
      using l Return getMgmtToken_not_Diverge
      apply (simp add: resolveAndAuthenticate_def bind_def Let_def split: sum.splits)
      apply (auto split: prod.splits outcome.splits)
      by (metis fst_conv)
    with assms show ?thesis by simp
  next
    case (Throw e)
    with l assms show ?thesis by (simp add: resolveAndAuthenticate_def bind_def)
  next
    case Diverge
    with l show ?thesis by simp
  qed
qed

lemma handler_try_cases:
  "(\<exists>e s. handler_try fuel w event ctx st = (Throw e, s))
   \<or> (\<exists>s. handler_try fuel w event ctx st = (Diverge, s)
          \<and> fst (loadParamsIntoEnv fuel w st) = Diverge)
   \<or> (\<exists>SSOID s. handler_try fuel w event ctx st
          = (Return (response_of w 200 (notFoundBody SSOID)), s))
   \<or> (\<exists>SSOID results s. handler_try fuel w event ctx st
          = (Return (response_of w 200 (completeBody SSOID results)), s)
        \<and> (\<forall>x \<in> set results. \<exists>uid. x = deletedEntry uid \<or> (\<exists>err. x = failedEntry uid err)))"
proof -
  obtain r s1 where p: "resolveAndAuthenticate fuel w st = (r, s1)" by fastforce
  show ?thesis
  proof (cases r)
    case (Return t)
    obtain domain bucket key token where t: "t = (domain, bucket, key, token)"
      by (cases t) auto
    define SSOID where "SSOID = getSsoid event (env s1)"
    obtain users s2 where f: "findUsers w domain token SSOID s1 = (Return users, s2)"
      using findUsers_returns by blast
    show ?thesis
    proof (cases "users = []")
      case True
      then have "\<exists>s. handler_try fuel w event ctx st
          = (Return (response_of w 200 (notFoundBody SSOID)), s)"
        using p Return t f by (simp add: handler_try_def bind_def SSOID_def Let_def)
      then show ?thesis by blast
    next
      case False
      then have h: "handler_try fuel w event ctx st
          = deleteAndReport w ctx domain bucket key token SSOID users s2"
        using p Return t f by (simp add: handler_try_def bind_def SSOID_def Let_def)
      from deleteAndReport_cases [of w ctx domain bucket key token SSOID users s2]
      show ?thesis unfolding h by blast
    qed
  next
    case (Throw e)
    with p show ?thesis by (simp add: handler_try_def bind_def)
  next
    case Diverge
    with p have "handler_try fuel w event ctx st = (Diverge, s1)"
      by (simp add: handler_try_def bind_def)
    moreover from p Diverge have "fst (loadParamsIntoEnv fuel w st) = Diverge"
      using resolve_Diverge [of fuel w st] by simp
    ultimately show ?thesis by blast
  qed
qed

lemma handler_outcomes:
  "(\<exists>r s. handler fuel w event ctx st = (Return r, s)
      \<and> ((fst (handler_try fuel w (orEmpty event) (orEmpty ctx) st) = Return r
           \<and> statusCode r = 200
           \<and> (\<exists>SSOID.
                 body r = JSON_stringify w
                   (JObj [(str ''message'', JStr (str ''Cannot find user'')),
                          (str ''ssoid'', SSOID),
                          (str ''results'', JArr [])])
               \<or> (\<exists>results.
                     body r = JSON_stringify w
                       (JObj [(str ''message'', JStr (str ''Delete attempt complete'')),
                              (str ''ssoid'', SSOID),
                              (str ''count'', JNum (Finite (of_nat (length results)))),
                              (str ''results'', JArr results)])
                   \<and> (\<forall>x \<in> set results. \<exists>uid.
                         x = JObj [(str ''user_id'', uid), (str ''deleted'', JBool True)]
                       \<or> (\<exists>msg. x = JObj [(str ''user_id'', uid), (str ''deleted'', JBool False),
                                            (str ''error'', JStr msg)])))))
         \<or> (\<exists>err. fst (handler_try fuel w (orEmpty event) (orEmpty ctx) st) = Throw err
               \<and> statusCode r = 500
               \<and> body r = JSON_stringify w (JObj [(str ''error'', JStr (errorText err))]))))
   \<or> (fst (handler fuel w event ctx st) = Diverge
        \<and> fst (loadParamsIntoEnv fuel w st) = Diverge)"
proof -
  let ?t = "handler_try fuel w (orEmpty event) (orEmpty ctx) st"
  from handler_try_cases [of fuel w "orEmpty event" "orEmpty ctx" st]
  consider
    (thrown) e s where "?t = (Throw e, s)"
  | (diverged) s where "?t = (Diverge, s)" "fst (loadParamsIntoEnv fuel w st) = Diverge"
  | (notfound) SSOID s where "?t = (Return (response_of w 200 (notFoundBody SSOID)), s)"
  | (complete) SSOID results s where
      "?t = (Return (response_of w 200 (completeBody SSOID results)), s)"
      "\<forall>x \<in> set results. \<exists>uid. x = deletedEntry uid \<or> (\<exists>err. x = failedEntry uid err)"
    by blast
  then show ?thesis
  proof cases
    case thrown
    then show ?thesis
      by (simp add: handler_def catchUnhandled_def response_of_def errorBody_def)
  next
    case diverged
    then show ?thesis by (simp add: handler_def catchUnhandled_def)
  next
    case notfound
    then show ?thesis
      by (auto simp: handler_def catchUnhandled_def response_of_def notFoundBody_def)
  next
    case complete
    have "\<forall>x \<in> set results. \<exists>uid.
            x = JObj [(str ''user_id'', uid), (str ''deleted'', JBool True)]
          \<or> (\<exists>msg. x = JObj [(str ''user_id'', uid), (str ''deleted'', JBool False),
                               (str ''error'', JStr msg)])"
      using complete(2) by (fastforce simp: deletedEntry_def failedEntry_def)
    with complete(1) show ?thesis
      by (auto simp: handler_def catchUnhandled_def response_of_def completeBody_def)
  qed
qed

lemma getProp_nonnull: "u \<noteq> JNull \<Longrightarrow> u \<noteq> JUndefined \<Longrightarrow> \<exists>x. getProp u k = Inr x"
  by (cases u) (simp_all add: getProp_def)

lemma deleteOne_returns:
  assumes "u \<noteq> JNull" and "u \<noteq> JUndefined"
  shows "\<exists>acc1 s1. deleteOne w domain token SSOID deletedBy u acc st = (Return acc1, s1)
           \<and> length (fst acc) < length (fst acc1)"
proof -
  obtain userId where g: "getProp u (str ''user_id'') = Inr userId"
    using getProp_nonnull [OF assms] by blast
  obtain r s1 where d: "deleteUser w domain token userId st = (r, s1)" by fastforce
  with deleteUser_not_Diverge [of w domain token userId st] have "r \<noteq> Diverge" by simp
  then show ?thesis
    using g d
    by (cases r) (auto simp: deleteOne_def deleteFailed_def Let_def split: sum.splits)
qed

lemma deleteLoop_returns:
  assumes "\<forall>u \<in> set users. u \<noteq> JNull \<and> u \<noteq> JUndefined"
  shows "\<exists>acc1 s1. deleteLoop w domain token SSOID deletedBy users acc st = (Return acc1, s1)
           \<and> length (fst acc) + length users \<le> length (fst acc1)"
  using assms
proof (induction users arbitrary: acc st)
  case Nil
  then show ?case by simp
next
  case (Cons u us)
  from Cons.prems have "u \<noteq> JNull" "u \<noteq> JUndefined" by simp_all
  from deleteOne_returns [OF this, of w domain token SSOID deletedBy acc st]
  obtain acc2 s2 where 1: "deleteOne w domain token SSOID deletedBy u acc st = (Return acc2, s2)"
    and l1: "length (fst acc) < length (fst acc2)" by blast
  from Cons.prems have "\<forall>u \<in> set us. u \<noteq> JNull \<and> u \<noteq> JUndefined" by simp
  from Cons.IH [OF this, of acc2 s2] obtain acc1 s1 where
    2: "deleteLoop w domain token SSOID deletedBy us acc2 s2 = (Return acc1, s1)"
    and l2: "length (fst acc2) + length us \<le> length (fst acc1)" by blast
  have "deleteLoop w domain token SSOID deletedBy (u # us) acc st = (Return acc1, s1)"
    using 1 2 by (simp add: bind_def)
  moreover have "length (fst acc) + length (u # us) \<le> length (fst acc1)"
    using l1 l2 by simp
  ultimately show ?case by blast
qed

lemma handler_prelude_throws:
  assumes "resolveAndAuthenticate fuel w st = (Throw e, s)"
  shows "handler fuel w event ctx st =
     (Return (response_of w 500 (JObj [(str ''error'', JStr (errorText e))])),
      emit (Console LogError (str ''Unhandled error:'') (errArg e)) s)"
  by (simp add: handler_def handler_try_def catchUnhandled_def errorBody_def
      bind_Throw [where m = "resolveAndAuthenticate fuel w", OF assms])

lemma resolve_load_throws:
  assumes "loadParamsIntoEnv fuel w st = (Throw e, s)"
  shows "resolveAndAuthenticate fuel w st = (Throw e, s)"
  by (simp add: resolveAndAuthenticate_def
      bind_Throw [where m = "loadParamsIntoEnv fuel w", OF assms])

lemma resolve_token_throws:
  assumes "loadParamsIntoEnv fuel w st = (Return (), s)"
    and "mustEnv (env s) (str ''AUTH0_DOMAIN'') = Inr AUTH0_DOMAIN"
    and "mustEnv (env s) (str ''AUTH0_CLIENT_ID'') = Inr clientId"
    and "mustEnv (env s) (str ''AUTH0_CLIENT_SECRET'') = Inr clientSecret"
    and "getMgmtToken w AUTH0_DOMAIN clientId clientSecret
           (envOr (env s) (str ''AUTH0_AUDIENCE'')
              (str ''https://'' @ stripProtocol AUTH0_DOMAIN @ str ''/api/v2/'')) s = (Throw e, s1)"
  shows "resolveAndAuthenticate fuel w st = (Throw e, s1)"
  using assms(2,3,4)
  by (simp add: resolveAndAuthenticate_def Let_def
      bind_Return [where m = "loadParamsIntoEnv fuel w", OF assms(1)]
      bind_Throw [where m = "getMgmtToken w AUTH0_DOMAIN clientId clientSecret
           (envOr (env s) (str ''AUTH0_AUDIENCE'')
              (str ''https://'' @ stripProtocol AUTH0_DOMAIN @ str ''/api/v2/''))", OF assms(5)])

lemma handler_none_found:
  assumes "resolveAndAuthenticate fuel w st = (Return (domain, bucket, key, token), s1)"
    and "findUsers w domain token (getSsoid (orEmpty event) (env s1)) s1 = (Return [], s2)"
  shows "handler fuel w event ctx st =
     (Return (response_of w 200
        (JObj [(str ''message'', JStr (str ''Cannot find user'')),
               (str ''ssoid'', getSsoid (orEmpty event) (env s1)),
               (str ''results'', JArr [])])),
      emit (Console LogInfo (str ''Cannot find user for SSOID=''
              @ ToString (Number_toString w) (getSsoid (orEmpty event) (env s1))) NoArg) s2)"
  unfolding handler_after_prelude [OF assms(1)]
  by (simp add: bind_Return [where m = "findUsers w domain token (getSsoid (orEmpty event) (env s1))",
        OF assms(2)] catchUnhandled_def notFoundBody_def)

lemma handler_loop_throws:
  assumes "resolveAndAuthenticate fuel w st = (Return (domain, bucket, key, token), s1)"
    and "findUsers w domain token (getSsoid (orEmpty event) (env s1)) s1 = (Return users, s2)"
    and "users \<noteq> []"
    and "deleteLoop w domain token (getSsoid (orEmpty event) (env s1))
           (getDeletedBy (orEmpty ctx) (env s2)) users ([], []) s2 = (Throw e, s3)"
  shows "handler fuel w event ctx st =
     (Return (response_of w 500 (JObj [(str ''error'', JStr (errorText e))])),
      emit (Console LogError (str ''Unhandled error:'') (errArg e)) s3)"
  unfolding handler_found [OF assms(1,2,3)]
  by (simp add: deleteAndReport_def catchUnhandled_def errorBody_def
      bind_Throw [where m = "deleteLoop w domain token (getSsoid (orEmpty event) (env s1))
           (getDeletedBy (orEmpty ctx) (env s2)) users ([], [])", OF assms(4)])

lemma handler_accounts_found:
  assumes "resolveAndAuthenticate fuel w st = (Return (domain, bucket, key, token), s1)"
    and "findUsers w domain token (getSsoid (orEmpty event) (env s1)) s1 = (Return users, s2)"
    and "users \<noteq> []"
    and "\<forall>u \<in> set users. u \<noteq> JNull \<and> u \<noteq> JUndefined"
  shows "\<exists>results. fst (handler fuel w event ctx st) =
       Return (response_of w 200
         (JObj [(str ''message'', JStr (str ''Delete attempt complete'')),
                (str ''ssoid'', getSsoid (orEmpty event) (env s1)),
                (str ''count'', JNum (Finite (of_nat (length results)))),
                (str ''results'', JArr results)]))
     \<and> length users \<le> length results
     \<and> (\<forall>x \<in> set results. \<exists>uid.
           x = JObj [(str ''user_id'', uid), (str ''deleted'', JBool True)]
         \<or> (\<exists>msg. x = JObj [(str ''user_id'', uid), (str ''deleted'', JBool False),
                              (str ''error'', JStr msg)]))"
proof -
  let ?S = "getSsoid (orEmpty event) (env s1)" and ?db = "getDeletedBy (orEmpty ctx) (env s2)"
  from deleteLoop_returns [OF assms(4), of w domain token ?S ?db "([], [])" s2]
  obtain acc1 s3 where l: "deleteLoop w domain token ?S ?db users ([], []) s2 = (Return acc1, s3)"
    and len: "length users \<le> length (fst acc1)" by auto
  obtain results csvRows where acc: "acc1 = (results, csvRows)" by (cases acc1)
  from deleteLoop_entries [OF l] acc
  have e: "\<forall>x \<in> set results. \<exists>uid. x = deletedEntry uid \<or> (\<exists>err. x = failedEntry uid err)"
    by auto
  then have e': "\<forall>x \<in> set results. \<exists>uid.
           x = JObj [(str ''user_id'', uid), (str ''deleted'', JBool True)]
         \<or> (\<exists>msg. x = JObj [(str ''user_id'', uid), (str ''deleted'', JBool False),
                              (str ''error'', JStr msg)])"
    by (fastforce simp: deletedEntry_def failedEntry_def)
  obtain s4 where wl: "writeLedger w bucket key csvRows s3 = (Return (), s4)"
    using writeLedger_returns by blast
  have "handler fuel w event ctx st =
     (Return (response_of w 200 (completeBody ?S results)), s4)"
    using handler_reported [OF assms(1,2,3) l [unfolded acc] wl] .
  then have "fst (handler fuel w event ctx st) =
       Return (response_of w 200
         (JObj [(str ''message'', JStr (str ''Delete attempt complete'')),
                (str ''ssoid'', ?S),
                (str ''count'', JNum (Finite (of_nat (length results)))),
                (str ''results'', JArr results)]))"
    by (simp add: completeBody_def)
  with len acc e' show ?thesis by auto
qed

text \<open>More fuel does not change a resolution that came back.\<close>

lemma byPathLoop_more_fuel:
  "fst (byPathLoop n w path tok st) \<noteq> Diverge \<Longrightarrow>
   byPathLoop (n + k) w path tok st = byPathLoop n w path tok st"
proof (induction n arbitrary: tok st)
  case 0
  then show ?case by (simp add: byPathLoop.simps)
next
  case (Suc n)
  show ?case
    using Suc.prems
    by (auto simp: byPathLoop.simps Let_def Suc.IH split: sum.splits option.splits)
qed

lemma bind_fst_Diverge:
  "fst (bind m f st) \<noteq> Diverge \<Longrightarrow> fst (m st) \<noteq> Diverge"
  by (auto simp: bind_def split: prod.splits outcome.splits)

lemma bind_cong_at: "m st = m' st \<Longrightarrow> bind m f st = bind m' f st"
  by (simp add: bind_def)

lemma loadParams_more_fuel:
  assumes "fst (loadParamsIntoEnv n w st) \<noteq> Diverge"
  shows "loadParamsIntoEnv (n + k) w st = loadParamsIntoEnv n w st"
proof (cases "paramsLoaded st")
  case True
  then show ?thesis by (simp add: loadParamsIntoEnv_def)
next
  case False
  let ?pfx = "trim (envOr (env st) (str ''PARAM_PREFIX'') DEFAULT_PARAM_PREFIX)"
  let ?path = "if suffix [SLASH] ?pfx then ?pfx else ?pfx @ [SLASH]"
  let ?m = "\<lambda>fuel s. if prefix [SLASH] ?pfx then byPathLoop fuel w ?path None s
                        else (Return (), s)"
  let ?f = "\<lambda>_ :: unit. bind (flatPhase w) (\<lambda>_ s. (Return (), s\<lparr>paramsLoaded := True\<rparr>))"
  have d: "loadParamsIntoEnv fuel w st = bind (?m fuel) ?f st" for fuel
    using False by (simp add: loadParamsIntoEnv_def Let_def)
  from assms have "fst (?m n st) \<noteq> Diverge"
    unfolding d by (rule bind_fst_Diverge)
  then have "?m (n + k) st = ?m n st"
    by (simp add: byPathLoop_more_fuel split: if_splits)
  then show ?thesis unfolding d by (rule bind_cong_at)
qed

lemma handler_more_fuel:
  assumes "fst (loadParamsIntoEnv n w st) \<noteq> Diverge"
  shows "handler (n + k) w event ctx st = handler n w event ctx st"
proof -
  have "resolveAndAuthenticate (n + k) w st = resolveAndAuthenticate n w st"
    unfolding resolveAndAuthenticate_def
    by (rule bind_cong_at) (rule loadParams_more_fuel [OF assms])
  then have "handler_try (n + k) w (orEmpty event) (orEmpty ctx) st
           = handler_try n w (orEmpty event) (orEmpty ctx) st"
    unfolding handler_try_def by (rule bind_cong_at)
  then show ?thesis by (simp add: handler_def)
qed

lemma byPathLoop_single_page:
  assumes "\<forall>t resp. ssm_GetParametersByPath w t = Inr resp \<longrightarrow>
             bp_NextToken resp = None \<or> bp_NextToken resp = Some []"
  shows "fst (byPathLoop (Suc n) w path tok st) \<noteq> Diverge"
proof (cases "ssm_GetParametersByPath w (trace (emit (SsmGetParametersByPath path tok) st))")
  case (Inl e)
  then show ?thesis by (simp add: byPathLoop.simps Let_def)
next
  case (Inr resp)
  with assms have "bp_NextToken resp = None \<or> bp_NextToken resp = Some []" by blast
  with Inr show ?thesis by (auto simp: byPathLoop.simps Let_def)
qed

lemma flatPhase_not_Diverge: "fst (flatPhase w st) \<noteq> Diverge"
  by (auto simp: flatPhase_def Let_def split: sum.splits option.splits)

lemma bind_not_Diverge:
  assumes "fst (m st) \<noteq> Diverge" and "\<And>x s. fst (f x s) \<noteq> Diverge"
  shows "fst (bind m f st) \<noteq> Diverge"
proof -
  obtain r s1 where m: "m st = (r, s1)" by fastforce
  with assms(1) have "r \<noteq> Diverge" by simp
  then show ?thesis using m assms(2) by (cases r) (simp_all add: bind_def)
qed

lemma loadParams_single_page:
  assumes "\<forall>t resp. ssm_GetParametersByPath w t = Inr resp \<longrightarrow>
             bp_NextToken resp = None \<or> bp_NextToken resp = Some []"
  shows "fst (loadParamsIntoEnv (Suc n) w st) \<noteq> Diverge"
proof (cases "paramsLoaded st")
  case True
  then show ?thesis by (simp add: loadParamsIntoEnv_def)
next
  case False
  let ?pfx = "trim (envOr (env st) (str ''PARAM_PREFIX'') DEFAULT_PARAM_PREFIX)"
  let ?path = "if suffix [SLASH] ?pfx then ?pfx else ?pfx @ [SLASH]"
  let ?m = "\<lambda>s. if prefix [SLASH] ?pfx then byPathLoop (Suc n) w ?path None s
                   else (Return (), s)"
  let ?f = "\<lambda>_ :: unit. bind (flatPhase w) (\<lambda>_ s. (Return (), s\<lparr>paramsLoaded := True\<rparr>))"
  have d: "loadParamsIntoEnv (Suc n) w st = bind ?m ?f st"
    using False by (simp add: loadParamsIntoEnv_def Let_def)
  have second: "fst (?f x s) \<noteq> Diverge" for x s
  proof -
    have "fst ((\<lambda>_ s. (Return (), s\<lparr>paramsLoaded := True\<rparr>)) y t) \<noteq> Diverge"
      for y :: unit and t :: state by simp
    from bind_not_Diverge [where m = "flatPhase w"
        and f = "\<lambda>_ s. (Return (), s\<lparr>paramsLoaded := True\<rparr>)", OF flatPhase_not_Diverge this]
    show ?thesis .
  qed
  have first: "fst (?m st) \<noteq> Diverge"
    using byPathLoop_single_page [OF assms, of n ?path None st] by simp
  show ?thesis
    unfolding d
    using bind_not_Diverge [where m = ?m and f = ?f and st = st, OF first second] .
qed

lemma handler_returns:
  assumes "fst (loadParamsIntoEnv fuel w st) \<noteq> Diverge"
  shows "\<exists>r s. handler fuel w event ctx st = (Return r, s) \<and> (statusCode r = 200 \<or> statusCode r = 500)"
  using handler_outcomes [of fuel w event ctx st] assms by auto

section \<open>Auxiliary facts: the concrete runs\<close>

lemma envRun_simps:
  "envRun (str ''AUTH0_DOMAIN'') = Some (str ''d.x'')"
  "envRun (str ''AUTH0_CLIENT_ID'') = Some (str ''id'')"
  "envRun (str ''AUTH0_CLIENT_SECRET'') = Some (str ''sec'')"
  "envRun (str ''S3_BUCKET'') = Some (str ''b'')"
  "envRun (str ''SSOID'') = Some (str ''abc'')"
  "envRun (str ''AUTH0_AUDIENCE'') = None"
  "envRun (str ''S3_KEY'') = None"
  "envRun (str ''AWS_LAMBDA_FUNCTION_NAME'') = None"
  "envRun (str ''DELETED_BY'') = None"
  by (simp_all add: envRun_def str_def)

lemma run_strings:
  "stripProtocol (str ''d.x'') = str ''d.x''"
  "str ''d.x'' \<noteq> []" "str ''id'' \<noteq> []" "str ''sec'' \<noteq> []" "str ''b'' \<noteq> []" "str ''abc'' \<noteq> []"
  "str ''k'' \<noteq> []"
  "str ''https://'' @ str ''d.x'' @ str ''/api/v2/'' \<noteq> []"
  "str ''U'' \<noteq> str ''T''"
  "str ''https://'' @ str ''d.x'' @ str ''/api/v2/users/'' @ str ''a'' = str ''https://d.x/api/v2/users/a''"
  "str ''https://'' @ str ''d.x'' @ str ''/api/v2/users/'' @ str ''b'' \<noteq> str ''https://d.x/api/v2/users/a''"
  by (simp_all add: stripProtocol_def str_def asciiLower_def SLASH_def)

lemma worldRun_simps [simp]:
  "fetch (worldRun g) = fetchRun" "JSON_parse (worldRun g) = parseRun"
  "Number_toString (worldRun g) = numRun" "s3_GetObject (worldRun g) t = g"
  "s3_PutObject (worldRun g) t = None"
  "new_URL (worldRun g) u = Inr u" "encodeURIComponent (worldRun g) u = Inr u"
  "Date_toISOString (worldRun g) t = str ''T''"
  by (simp_all add: worldRun_def world0_def)

lemma fetchRun_simps:
  "fetchRun (t @ [Fetch (str ''POST'') url qs hs b])
     = Inr \<lparr>status = 200, statusText = str ''OK'', text_result = Inr (str ''T'')\<rparr>"
  "fetchRun (t @ [Fetch (str ''GET'') url qs hs b])
     = Inr \<lparr>status = 200, statusText = str ''OK'', text_result = Inr (str ''U'')\<rparr>"
  "fetchRun (t @ [Fetch (str ''DELETE'') (str ''https://d.x/api/v2/users/a'') qs hs b])
     = Inr \<lparr>status = 500, statusText = str ''ERR'', text_result = Inr (str ''no'')\<rparr>"
  "url \<noteq> str ''https://d.x/api/v2/users/a'' \<Longrightarrow>
   fetchRun (t @ [Fetch (str ''DELETE'') url qs hs b])
     = Inr \<lparr>status = 204, statusText = str ''OK'', text_result = Inr []\<rparr>"
  by (simp_all add: fetchRun_def method_distinct)

lemmas fetchRun_single = fetchRun_simps [where t = "[]", simplified]

lemma run_prelude:
  "resolveAndAuthenticate fuel (worldRun g) stateRun
     = (Return (str ''d.x'', Some (str ''b''), str ''output/deleted_users.csv'', JStr (str ''k'')),
        snd (resolveAndAuthenticate fuel (worldRun g) stateRun))
   \<and> env (snd (resolveAndAuthenticate fuel (worldRun g) stateRun)) = envRun"
  by (simp add: resolveAndAuthenticate_def loadParamsIntoEnv_def stateRun_def bind_def
      mustEnv_def envTruthy_def envOr_def envRun_simps run_strings getMgmtToken_def
      emit_def fetchRun_simps fetchRun_single ok_def parseRun_def getProp_def Let_def)

lemma run_ssoid: "getSsoid (orEmpty JUndefined) envRun = JStr (str ''abc'')"
  by (simp add: getSsoid_def orEmpty_def getPropOpt_def getProp_def js_or_def envValue_def
      envRun_simps run_strings)

lemma run_deletedBy: "getDeletedBy (orEmpty JUndefined) envRun = JStr (str ''local'')"
  by (simp add: getDeletedBy_def orEmpty_def getPropOpt_def getProp_def js_or_def envValue_def
      envRun_simps)

lemma run_search:
  "searchUsersByQuery (worldRun g) (str ''d.x'') token q s
     = (Return [userA, userB], snd (searchUsersByQuery (worldRun g) (str ''d.x'') token q s))
   \<and> env (snd (searchUsersByQuery (worldRun g) (str ''d.x'') token q s)) = env s"
  by (simp add: searchUsersByQuery_def searchUsersByQuery_try_def emit_def fetchRun_simps
      ok_def parseRun_def run_strings Let_def)

lemma run_find:
  "findUsers (worldRun g) (str ''d.x'') token SSOID s
     = (Return [userA, userB], snd (findUsers (worldRun g) (str ''d.x'') token SSOID s))
   \<and> env (snd (findUsers (worldRun g) (str ''d.x'') token SSOID s)) = env s"
proof -
  let ?m = "searchUsersByQuery (worldRun g) (str ''d.x'') token (identityQuery (worldRun g) SSOID)"
  from run_search [of g token "identityQuery (worldRun g) SSOID" s]
  have 1: "?m s = (Return [userA, userB], snd (?m s))" and 2: "env (snd (?m s)) = env s"
    by simp_all
  have "findUsers (worldRun g) (str ''d.x'') token SSOID s = (Return [userA, userB], snd (?m s))"
    unfolding findUsers_def by (simp add: bind_Return [where m = ?m, OF 1])
  with 2 show ?thesis by simp
qed

lemma run_users:
  "getProp userA (str ''user_id'') = Inr (JStr (str ''a''))"
  "getProp userB (str ''user_id'') = Inr (JStr (str ''b''))"
  "hasIdentityList userB"
  by (simp_all add: userA_def userB_def getProp_def hasIdentityList_def getPropOpt_def
      js_or_def str_def)

lemma run_delete_a:
  "deleteUser (worldRun g) (str ''d.x'') token (JStr (str ''a'')) s
     = (Throw deleteErrorA, snd (deleteUser (worldRun g) (str ''d.x'') token (JStr (str ''a'')) s))"
  by (simp add: deleteUser_def emit_def run_strings fetchRun_simps ok_def numRun_def
      deleteErrorA_def Let_def)

lemma run_delete_b:
  "deleteUser (worldRun g) (str ''d.x'') token (JStr (str ''b'')) s
     = (Return (), snd (deleteUser (worldRun g) (str ''d.x'') token (JStr (str ''b'')) s))"
  by (simp add: deleteUser_def emit_def run_strings fetchRun_simps ok_def Let_def)

lemma worldSearch_simps [simp]:
  "fetch (worldSearch hits) = fetchSearch hits" "JSON_parse (worldSearch hits) = parseSearch"
  "Number_toString (worldSearch hits) = numRun"
  "new_URL (worldSearch hits) u = Inr u" "encodeURIComponent (worldSearch hits) u = Inr u"
  "ssm_GetParametersByPath (worldSearch hits) t = Inr \<lparr>bp_Parameters = None, bp_NextToken = None\<rparr>"
  "ssm_GetParameters (worldSearch hits) t
     = Inr \<lparr>gp_Parameters = None, gp_InvalidParameters = None\<rparr>"
  by (simp_all add: worldSearch_def world0_def)

lemma world0_ssm [simp]:
  "ssm_GetParametersByPath world0 t = Inr \<lparr>bp_Parameters = None, bp_NextToken = None\<rparr>"
  "ssm_GetParameters world0 t = Inr \<lparr>gp_Parameters = None, gp_InvalidParameters = None\<rparr>"
  by (simp_all add: world0_def)

lemma fetchSearch_simps:
  "fetchSearch hits (t @ [Fetch (str ''POST'') url qs hs b])
     = Inr \<lparr>status = 200, statusText = str ''OK'', text_result = Inr (str ''T'')\<rparr>"
  "fetchSearch hits (t @ [Fetch (str ''GET'') url ((str ''q'', q) # qs) hs b])
     = Inr \<lparr>status = 200, statusText = str ''OK'',
            text_result = Inr (if q \<in> set hits then str ''U'' else str ''E'')\<rparr>"
  by (auto simp: fetchSearch_def fetchRun_simps method_distinct)

lemma parseSearch_simps:
  "parseSearch (str ''T'') = Inr (JObj [(str ''access_token'', JStr (str ''k''))])"
  "parseSearch (str ''U'') = Inr (JArr [userA, userB])"
  "parseSearch (str ''E'') = Inr (JArr [])"
  by (simp_all add: parseSearch_def parseRun_def str_def)

text \<open>Resolution against a store that holds nothing leaves the environment as it was.\<close>

lemma empty_store_load:
  assumes "\<not> paramsLoaded st" and "env st (str ''PARAM_PREFIX'') = None"
    and "\<And>t. ssm_GetParametersByPath w t = Inr \<lparr>bp_Parameters = None, bp_NextToken = None\<rparr>"
    and "\<And>t. ssm_GetParameters w t = Inr \<lparr>gp_Parameters = None, gp_InvalidParameters = None\<rparr>"
  shows "loadParamsIntoEnv (Suc n) w st = (Return (), snd (loadParamsIntoEnv (Suc n) w st))
       \<and> env (snd (loadParamsIntoEnv (Suc n) w st)) = env st"
proof -
  have pfx: "trim (envOr (env st) (str ''PARAM_PREFIX'') DEFAULT_PARAM_PREFIX)
               = str ''/auth0-cleanup/''"
    using assms(2)
    by (simp add: envOr_def envTruthy_def DEFAULT_PARAM_PREFIX_def trim_def str_def
        isWhiteSpace_def)
  have sl: "prefix [SLASH] (str ''/auth0-cleanup/'')" "suffix [SLASH] (str ''/auth0-cleanup/'')"
    by (simp_all add: str_def SLASH_def suffix_def)
  have p: "byPathLoop (Suc n) w path None s
             = (Return (), emit (SsmGetParametersByPath path None) s)" for path s
    by (simp add: byPathLoop.simps assms(3) Let_def emit_def)
  have f: "fst (flatPhase w s) = Return () \<and> env (snd (flatPhase w s)) = env s" for s
    by (simp add: flatPhase_def assms(4) Let_def emit_def)
  let ?s1 = "emit (SsmGetParametersByPath (str ''/auth0-cleanup/'') None) st"
  obtain s2 where s2: "flatPhase w ?s1 = (Return (), s2)" and e2: "env s2 = env st"
    using f [of ?s1] by (cases "flatPhase w ?s1") (simp add: emit_def)
  have "loadParamsIntoEnv (Suc n) w st = (Return (), s2\<lparr>paramsLoaded := True\<rparr>)"
    unfolding loadParamsIntoEnv_def Let_def pfx
    using assms(1)
    by (simp add: sl bind_Return [where m = "byPathLoop (Suc n) w (str ''/auth0-cleanup/'') None",
          OF p] bind_Return [where m = "flatPhase w", OF s2])
  then show ?thesis using e2 by simp
qed

lemma prelude_envRun:
  assumes "loadParamsIntoEnv fuel w st = (Return (), s)" and "env s = envRun"
    and "\<And>t url qs hs b. fetch w (t @ [Fetch (str ''POST'') url qs hs b])
           = Inr \<lparr>status = 200, statusText = str ''OK'', text_result = Inr (str ''T'')\<rparr>"
    and "JSON_parse w (str ''T'') = Inr (JObj [(str ''access_token'', JStr (str ''k''))])"
  shows "resolveAndAuthenticate fuel w st
     = (Return (str ''d.x'', Some (str ''b''), str ''output/deleted_users.csv'', JStr (str ''k'')),
        snd (resolveAndAuthenticate fuel w st))
   \<and> env (snd (resolveAndAuthenticate fuel w st)) = envRun"
  unfolding resolveAndAuthenticate_def bind_Return [where m = "loadParamsIntoEnv fuel w", OF assms(1)]
  by (simp add: assms(2,3,4) bind_def
      mustEnv_def envTruthy_def envOr_def envRun_simps run_strings getMgmtToken_def
      emit_def ok_def getProp_def Let_def)

lemma loaded_load: "paramsLoaded st \<Longrightarrow> loadParamsIntoEnv fuel w st = (Return (), st)"
  by (simp add: loadParamsIntoEnv_def)

lemma search_prelude:
  "resolveAndAuthenticate fuel (worldSearch hits) stateRun
     = (Return (str ''d.x'', Some (str ''b''), str ''output/deleted_users.csv'', JStr (str ''k'')),
        snd (resolveAndAuthenticate fuel (worldSearch hits) stateRun))
   \<and> env (snd (resolveAndAuthenticate fuel (worldSearch hits) stateRun)) = envRun"
proof -
  have l: "loadParamsIntoEnv fuel (worldSearch hits) stateRun = (Return (), stateRun)"
    by (rule loaded_load) (simp add: stateRun_def)
  have e: "env stateRun = envRun" by (simp add: stateRun_def)
  show ?thesis
    by (rule prelude_envRun [OF l e]) (simp_all add: fetchSearch_simps parseSearch_simps)
qed

lemma cold_prelude:
  "resolveAndAuthenticate (Suc n) (worldSearch hits) stateCold
     = (Return (str ''d.x'', Some (str ''b''), str ''output/deleted_users.csv'', JStr (str ''k'')),
        snd (resolveAndAuthenticate (Suc n) (worldSearch hits) stateCold))
   \<and> env (snd (resolveAndAuthenticate (Suc n) (worldSearch hits) stateCold)) = envRun"
proof -
  have c: "\<not> paramsLoaded stateCold" "env stateCold (str ''PARAM_PREFIX'') = None"
    "env stateCold = envRun"
    by (simp_all add: stateCold_def envRun_def str_def)
  from empty_store_load [OF c(1,2), of "worldSearch hits" n]
  have l: "loadParamsIntoEnv (Suc n) (worldSearch hits) stateCold
             = (Return (), snd (loadParamsIntoEnv (Suc n) (worldSearch hits) stateCold))"
    and e: "env (snd (loadParamsIntoEnv (Suc n) (worldSearch hits) stateCold)) = envRun"
    using c(3) by simp_all
  show ?thesis
    by (rule prelude_envRun [OF l e]) (simp_all add: fetchSearch_simps parseSearch_simps)
qed

lemma search_at_worldSearch:
  "searchUsersByQuery (worldSearch hits) (str ''d.x'') token q s
     = (Return (if q \<in> set hits then [userA, userB] else []),
        snd (searchUsersByQuery (worldSearch hits) (str ''d.x'') token q s))
   \<and> env (snd (searchUsersByQuery (worldSearch hits) (str ''d.x'') token q s)) = env s"
  by (simp add: searchUsersByQuery_def searchUsersByQuery_try_def emit_def fetchSearch_simps
      ok_def parseSearch_simps run_strings Let_def)

lemma find_nothing:
  "findUsers (worldSearch []) (str ''d.x'') token SSOID s
     = (Return [], snd (findUsers (worldSearch []) (str ''d.x'') token SSOID s))
   \<and> env (snd (findUsers (worldSearch []) (str ''d.x'') token SSOID s)) = env s"
proof -
  let ?w = "worldSearch []"
  let ?m = "searchUsersByQuery ?w (str ''d.x'') token (identityQuery ?w SSOID)"
  from search_at_worldSearch [of "[]" token "identityQuery ?w SSOID" s]
  have 1: "?m s = (Return [], snd (?m s))" and e1: "env (snd (?m s)) = env s" by simp_all
  let ?m2 = "searchUsersByQuery ?w (str ''d.x'') token (metadataQuery ?w SSOID)"
  from search_at_worldSearch [of "[]" token "metadataQuery ?w SSOID" "snd (?m s)"]
  have 2: "?m2 (snd (?m s)) = (Return [], snd (?m2 (snd (?m s))))"
    and e2: "env (snd (?m2 (snd (?m s)))) = env (snd (?m s))" by simp_all
  have "findUsers ?w (str ''d.x'') token SSOID s = (Return [], snd (?m2 (snd (?m s))))"
    unfolding findUsers_def using 2 by (simp add: bind_Return [where m = ?m, OF 1])
  with e1 e2 show ?thesis by simp
qed

lemma token_refused:
  "getMgmtToken worldNoToken (str ''d.x'') (str ''id'') (str ''sec'')
       (str ''https://'' @ str ''d.x'' @ str ''/api/v2/'') s
     = (Throw (Error (str ''Token HTTP 401 NO: no'')),
        snd (getMgmtToken worldNoToken (str ''d.x'') (str ''id'') (str ''sec'')
               (str ''https://'' @ str ''d.x'' @ str ''/api/v2/'') s))"
proof -
  have t: "str ''Token HTTP '' @ str ''401'' @ str '' '' @ str ''NO'' @ str '': '' @ str ''no''
             = str ''Token HTTP 401 NO: no''"
    by (simp add: str_def)
  have n: "\<not> includesStr (str ''no'') (str ''access_denied'')"
    by (simp add: str_def)
  show ?thesis
    by (simp add: getMgmtToken_def run_strings worldNoToken_def world0_def emit_def ok_def
        Let_def n t)
qed

lemma run_append_denied:
  "appendRowsToCsvInS3 (worldRun (Inl err403)) bucket key rows s
     = (Throw err403, emit (S3GetObject bucket key) s)"
  by (simp add: appendRowsToCsvInS3_def isNotFound_def err403_def str_def Let_def)

lemma run_errorText: "errorText deleteErrorA = str ''Delete failed HTTP 500: no''"
  by (simp add: errorText_def deleteErrorA_def Error_def str_def)

section \<open>The ledger writer\<close>

text \<open>
  Claim C1. When the read of the object fails with the not-found condition (status code
  404, or the name or code \<open>NoSuchKey\<close>), \<open>appendRowsToCsvInS3\<close> takes the content
  as empty: after the read it issues one write whose body is the header line followed by
  the rows in their order, and returns or throws as that write does. A read that fails in
  any other way is thrown to the caller, and nothing is written.
\<close>

theorem append_to_missing_object:
  assumes "s3_GetObject w (trace st @ [S3GetObject bucket key]) = Inl e"
  shows "(err_httpStatusCode e = Some 404 \<or> err_name e = str ''NoSuchKey''
            \<or> err_Code e = Some (str ''NoSuchKey'') \<longrightarrow>
          trace (snd (appendRowsToCsvInS3 w bucket key rows st))
            = trace st @ [S3GetObject bucket key,
                S3PutObject bucket key (CSV_HEADER @ concat rows) (str ''text/csv'')]
          \<and> fst (appendRowsToCsvInS3 w bucket key rows st)
            = (case s3_PutObject w (trace st @ [S3GetObject bucket key,
                  S3PutObject bucket key (CSV_HEADER @ concat rows) (str ''text/csv'')]) of
                 None \<Rightarrow> Return () | Some e' \<Rightarrow> Throw e'))
       \<and> (\<not> (err_httpStatusCode e = Some 404 \<or> err_name e = str ''NoSuchKey''
                \<or> err_Code e = Some (str ''NoSuchKey'')) \<longrightarrow>
          appendRowsToCsvInS3 w bucket key rows st
            = (Throw e, st\<lparr>trace := trace st @ [S3GetObject bucket key]\<rparr>))"
  using assms
  by (auto simp: appendRowsToCsvInS3_def emit_def isNotFound_def nextContent_def
      join_empty_sep Let_def split: option.splits)

theorem append_to_missing_object_witness:
  "s3_GetObject (worldS3 (Inl err404)) (trace state0 @ [S3GetObject (str ''b'') (str ''k'')])
     = Inl err404
   \<and> err_httpStatusCode err404 = Some 404
   \<and> trace (snd (appendRowsToCsvInS3 (worldS3 (Inl err404)) (str ''b'') (str ''k'')
        [row0, row0] state0))
     = [S3GetObject (str ''b'') (str ''k''),
        S3PutObject (str ''b'') (str ''k'') (CSV_HEADER @ row0 @ row0) (str ''text/csv'')]
   \<and> fst (appendRowsToCsvInS3 (worldS3 (Inl err404)) (str ''b'') (str ''k'') [row0, row0] state0)
     = Return ()
   \<and> s3_GetObject (worldS3 (Inl err403)) (trace state0 @ [S3GetObject (str ''b'') (str ''k'')])
     = Inl err403
   \<and> \<not> (err_httpStatusCode err403 = Some 404 \<or> err_name err403 = str ''NoSuchKey''
          \<or> err_Code err403 = Some (str ''NoSuchKey''))
   \<and> fst (appendRowsToCsvInS3 (worldS3 (Inl err403)) (str ''b'') (str ''k'') [row0, row0] state0)
     = Throw err403"
proof -
  have a: "s3_GetObject (worldS3 (Inl err404))
             (trace state0 @ [S3GetObject (str ''b'') (str ''k'')]) = Inl err404"
    by simp
  have b: "s3_GetObject (worldS3 (Inl err403))
             (trace state0 @ [S3GetObject (str ''b'') (str ''k'')]) = Inl err403"
    by simp
  have c: "err_httpStatusCode err404 = Some 404" by (simp add: err404_def)
  have d: "\<not> (err_httpStatusCode err403 = Some 404 \<or> err_name err403 = str ''NoSuchKey''
          \<or> err_Code err403 = Some (str ''NoSuchKey''))"
    by (simp add: err403_def str_def)
  show ?thesis
    using append_to_missing_object [OF a, of "[row0, row0]"]
      append_to_missing_object [OF b, of "[row0, row0]"] c d
    by simp
qed

text \<open>
  Claim C2, as amended. When the read returns \<open>existing\<close>, one write follows. If the
  test of line 267 holds (\<open>headerPresent\<close>: the content is not empty and, with leading
  white space dropped and in lower case, starts with the header line), the body is the
  content as it was, then the rows; this is the case whenever the content begins, after an
  optional byte-order marker, with the header line in any letter case. Otherwise the body
  is the header, then the content without one leading byte-order marker, then the rows;
  for content with no leading marker that is header, content, rows.
\<close>

theorem append_to_existing_object:
  assumes "s3_GetObject w (trace st @ [S3GetObject bucket key]) = Inr existing"
  shows "(\<exists>content.
            trace (snd (appendRowsToCsvInS3 w bucket key rows st))
              = trace st @ [S3GetObject bucket key,
                  S3PutObject bucket key content (str ''text/csv'')]
          \<and> content = (if headerPresent existing then existing @ concat rows
                        else CSV_HEADER @ stripLeadingBOM existing @ concat rows)
          \<and> (beginsWithHeaderLine existing \<longrightarrow> content = existing @ concat rows)
          \<and> (\<not> headerPresent existing \<and> \<not> prefix [BOM] existing \<longrightarrow>
                content = CSV_HEADER @ existing @ concat rows))"
  using assms beginsWithHeaderLine_headerPresent [of existing] stripLeadingBOM_id [of existing]
  by (auto simp: appendRowsToCsvInS3_def emit_def nextContent_cases Let_def split: option.splits)

theorem append_to_existing_object_witness:
  "s3_GetObject (worldS3 (Inr existingUpper)) (trace state0 @ [S3GetObject (str ''b'') (str ''k'')])
     = Inr existingUpper
   \<and> beginsWithHeaderLine existingUpper
   \<and> trace (snd (appendRowsToCsvInS3 (worldS3 (Inr existingUpper)) (str ''b'') (str ''k'')
        [row0] state0))
     = [S3GetObject (str ''b'') (str ''k''),
        S3PutObject (str ''b'') (str ''k'') (existingUpper @ row0) (str ''text/csv'')]
   \<and> s3_GetObject (worldS3 (Inr existingOther)) (trace state0 @ [S3GetObject (str ''b'') (str ''k'')])
     = Inr existingOther
   \<and> \<not> headerPresent existingOther \<and> \<not> prefix [BOM] existingOther
   \<and> trace (snd (appendRowsToCsvInS3 (worldS3 (Inr existingOther)) (str ''b'') (str ''k'')
        [row0] state0))
     = [S3GetObject (str ''b'') (str ''k''),
        S3PutObject (str ''b'') (str ''k'') (CSV_HEADER @ existingOther @ row0) (str ''text/csv'')]"
proof -
  have a: "s3_GetObject (worldS3 (Inr existingUpper))
             (trace state0 @ [S3GetObject (str ''b'') (str ''k'')]) = Inr existingUpper"
    by simp
  have b: "s3_GetObject (worldS3 (Inr existingOther))
             (trace state0 @ [S3GetObject (str ''b'') (str ''k'')]) = Inr existingOther"
    by simp
  have nb: "\<not> prefix [BOM] existingOther"
    by (simp add: existingOther_def str_def BOM_def)
  show ?thesis
    using append_to_existing_object [OF a, of "[row0]"]
      append_to_existing_object [OF b, of "[row0]"]
      headerPresent_existingUpper headerPresent_existingOther nb
    by auto
qed

text \<open>
  Claim C2 as stated fails in its second half. The content \<open>existingBOM\<close> (a byte-order
  marker, then \<open>x\<close>) has a first line other than the header, and what is written is the
  header, \<open>x\<close> and the row: the marker of the original content is gone. The content
  \<open>existingV2\<close> has a first line that continues after the header text, so it differs
  from the header line, and what is written is the content and the row with no header
  put in front.
\<close>

theorem first_line_differs_counterexample:
  "map asciiLower (firstLine (stripLeadingBOM existingBOM)) \<noteq> CSV_HEADER_LINE
   \<and> trace (snd (appendRowsToCsvInS3 (worldS3 (Inr existingBOM)) (str ''b'') (str ''k'')
        [row0] state0))
     = [S3GetObject (str ''b'') (str ''k''),
        S3PutObject (str ''b'') (str ''k'') (CSV_HEADER @ str ''x'' @ [LF] @ row0) (str ''text/csv'')]
   \<and> CSV_HEADER @ str ''x'' @ [LF] @ row0 \<noteq> CSV_HEADER @ existingBOM @ row0
   \<and> map asciiLower (firstLine (stripLeadingBOM existingV2)) \<noteq> CSV_HEADER_LINE
   \<and> trace (snd (appendRowsToCsvInS3 (worldS3 (Inr existingV2)) (str ''b'') (str ''k'')
        [row0] state0))
     = [S3GetObject (str ''b'') (str ''k''),
        S3PutObject (str ''b'') (str ''k'') (existingV2 @ row0) (str ''text/csv'')]
   \<and> existingV2 @ row0 \<noteq> CSV_HEADER @ existingV2 @ row0"
proof -
  have 1: "map asciiLower (firstLine (stripLeadingBOM existingBOM)) \<noteq> CSV_HEADER_LINE"
    by (simp add: firstLine_def stripLeadingBOM_def existingBOM_def CSV_HEADER_LINE_eq
        str_def LF_def asciiLower_def)
  have 2: "trace (snd (appendRowsToCsvInS3 (worldS3 (Inr existingBOM)) (str ''b'') (str ''k'')
        [row0] state0))
     = [S3GetObject (str ''b'') (str ''k''),
        S3PutObject (str ''b'') (str ''k'') (CSV_HEADER @ str ''x'' @ [LF] @ row0) (str ''text/csv'')]"
    by (simp add: appendRowsToCsvInS3_def emit_def nextContent_cases headerPresent_existingBOM)
       (simp add: existingBOM_def stripLeadingBOM_def)
  have 3: "CSV_HEADER @ str ''x'' @ [LF] @ row0 \<noteq> CSV_HEADER @ existingBOM @ row0"
    by (simp add: existingBOM_def str_def BOM_def)
  have 4: "map asciiLower (firstLine (stripLeadingBOM existingV2)) \<noteq> CSV_HEADER_LINE"
    by (simp add: firstLine_def stripLeadingBOM_def existingV2_def CSV_HEADER_LINE_eq
        str_def LF_def asciiLower_def BOM_def)
  have 5: "trace (snd (appendRowsToCsvInS3 (worldS3 (Inr existingV2)) (str ''b'') (str ''k'')
        [row0] state0))
     = [S3GetObject (str ''b'') (str ''k''),
        S3PutObject (str ''b'') (str ''k'') (existingV2 @ row0) (str ''text/csv'')]"
    by (simp add: appendRowsToCsvInS3_def emit_def nextContent_cases headerPresent_existingV2)
  have "length (existingV2 @ row0) \<noteq> length (CSV_HEADER @ existingV2 @ row0)"
    by (simp add: CSV_HEADER_def)
  then have 6: "existingV2 @ row0 \<noteq> CSV_HEADER @ existingV2 @ row0"
    by metis
  show ?thesis using 1 2 3 4 5 6 by blast
qed

section \<open>The orchestrator\<close>

text \<open>
  Claim C3. Take an invocation that passed settings and token, found accounts, and whose
  deletion loop ended with at least one row built, with a bucket configured. If
  \<open>appendRowsToCsvInS3\<close> throws any error \<open>e\<close>, the handler returns the response
  with status 200 and the body of the completed attempt (message, id, count and the
  per-account results), its last effect is the console error for the failed write, and
  the results hold at least one successful deletion.
\<close>

theorem ledger_failure_is_logged:
  assumes "resolveAndAuthenticate fuel w st = (Return (domain, Some bucket, key, token), s1)"
    and "SSOID = getSsoid (orEmpty event) (env s1)"
    and "findUsers w domain token SSOID s1 = (Return users, s2)"
    and "deleteLoop w domain token SSOID (getDeletedBy (orEmpty ctx) (env s2)) users ([], []) s2
           = (Return (results, csvRows), s3)"
    and "csvRows \<noteq> []"
    and "bucket \<noteq> []"
    and "appendRowsToCsvInS3 w bucket key csvRows s3 = (Throw e, s4)"
  shows "handler fuel w event ctx st
        = (Return (response_of w 200
             (JObj [(str ''message'', JStr (str ''Delete attempt complete'')),
                    (str ''ssoid'', SSOID),
                    (str ''count'', JNum (Finite (of_nat (length results)))),
                    (str ''results'', JArr results)])),
           emit (Console LogError (str ''Failed to write deleted_users.csv:'') (errArg e)) s4)
       \<and> (\<exists>uid. JObj [(str ''user_id'', uid), (str ''deleted'', JBool True)] \<in> set results)"
proof -
  have u: "users \<noteq> []"
  proof
    assume "users = []"
    with assms(4,5) show False by simp
  qed
  have wl: "writeLedger w (Some bucket) key csvRows s3
      = (Return (), emit (Console LogError (str ''Failed to write deleted_users.csv:'')
                            (errArg e)) s4)"
    using assms(5,6,7) by (simp add: writeLedger_bucket)
  have h: "handler fuel w event ctx st =
     (Return (response_of w 200 (completeBody SSOID results)),
      emit (Console LogError (str ''Failed to write deleted_users.csv:'') (errArg e)) s4)"
    using handler_reported [OF assms(1), where event = event and users = users and ?s2.0 = s2
        and ctx = ctx and results = results and csvRows = csvRows and ?s3.0 = s3
        and ?s4.0 = "emit (Console LogError (str ''Failed to write deleted_users.csv:'')
                            (errArg e)) s4"]
      assms(2,3,4) u wl
    by simp
  from deleteLoop_rows [OF assms(4)] assms(5)
  have "\<exists>uid. deletedEntry uid \<in> set results" by simp
  with h show ?thesis by (simp add: completeBody_def deletedEntry_def)
qed

theorem ledger_failure_is_logged_witness:
  "appendRowsToCsvInS3 (worldRun (Inl err403)) (str ''b'') (str ''output/deleted_users.csv'')
       [str ''r''] state0
     = (Throw err403,
        emit (S3GetObject (str ''b'') (str ''output/deleted_users.csv'')) state0)
   \<and> fst (handler 0 (worldRun (Inl err403)) JUndefined JUndefined stateRun)
     = Return (response_of (worldRun (Inl err403)) 200
         (JObj [(str ''message'', JStr (str ''Delete attempt complete'')),
                (str ''ssoid'', JStr (str ''abc'')),
                (str ''count'', JNum (Finite 2)),
                (str ''results'', JArr [failedEntry (JStr (str ''a'')) deleteErrorA,
                                        deletedEntry (JStr (str ''b''))])]))
   \<and> last (trace (snd (handler 0 (worldRun (Inl err403)) JUndefined JUndefined stateRun)))
     = Console LogError (str ''Failed to write deleted_users.csv:'') (ArgStr (str ''denied''))"
proof -
  let ?w = "worldRun (Inl err403)"
  let ?d = "str ''d.x''" and ?k = "JStr (str ''k'')" and ?S = "JStr (str ''abc'')"
  let ?key = "str ''output/deleted_users.csv''"
  define s1 where "s1 = snd (resolveAndAuthenticate 0 ?w stateRun)"
  define s2 where "s2 = snd (findUsers ?w ?d ?k ?S s1)"
  define s3 where "s3 = snd (deleteUser ?w ?d ?k (JStr (str ''a'')) s2)"
  define s3' where "s3' = emit (Console LogError
              (str ''Failed to delete user_id='' @ ToString (Number_toString ?w) (JStr (str ''a''))
                 @ str '':'') (errArg deleteErrorA)) s3"
  define s4 where "s4 = snd (deleteUser ?w ?d ?k (JStr (str ''b'')) s3')"
  define s5 where "s5 = emit (Console LogInfo
              (str ''Deleted Auth0 user_id='' @ ToString (Number_toString ?w) (JStr (str ''b'')))
              NoArg) s4"
  define db where "db = getDeletedBy (orEmpty JUndefined) (env s2)"
  have p: "resolveAndAuthenticate 0 ?w stateRun = (Return (?d, Some (str ''b''), ?key, ?k), s1)"
    and e1: "env s1 = envRun"
    using run_prelude [of 0 "Inl err403"] by (simp_all add: s1_def)
  have S: "?S = getSsoid (orEmpty JUndefined) (env s1)" by (simp add: e1 run_ssoid)
  have f: "findUsers ?w ?d ?k ?S s1 = (Return [userA, userB], s2)"
    using run_find [of "Inl err403" ?k ?S s1] by (simp add: s2_def)
  have da: "deleteUser ?w ?d ?k (JStr (str ''a'')) s2 = (Throw deleteErrorA, s3)"
    using run_delete_a [of "Inl err403" ?k s2] by (simp add: s3_def)
  have dl: "deleteUser ?w ?d ?k (JStr (str ''b'')) s3' = (Return (), s4)"
    using run_delete_b [of "Inl err403" ?k s3'] by (simp add: s4_def)
  from two_accounts_loop [OF run_users(1) run_users(2) run_users(3) da dl [unfolded s3'_def] s5_def,
      of ?S db]
  obtain row where
    loop: "deleteLoop ?w ?d ?k ?S db [userA, userB] ([], []) s2
        = (Return ([failedEntry (JStr (str ''a'')) deleteErrorA, deletedEntry (JStr (str ''b''))],
                   [row]), s5)"
    by blast
  have ne: "[row] \<noteq> []" "str ''b'' \<noteq> []" by (simp_all add: str_def)
  have a: "appendRowsToCsvInS3 ?w (str ''b'') ?key [row] s5
             = (Throw err403, emit (S3GetObject (str ''b'') ?key) s5)"
    by (rule run_append_denied)
  have m: "errArg err403 = ArgStr (str ''denied'')"
    by (simp add: errArg_def err403_def str_def)
  from ledger_failure_is_logged [OF p S f loop [unfolded db_def] ne a]
  have "handler 0 ?w JUndefined JUndefined stateRun
        = (Return (response_of ?w 200
             (JObj [(str ''message'', JStr (str ''Delete attempt complete'')),
                    (str ''ssoid'', ?S),
                    (str ''count'', JNum (Finite 2)),
                    (str ''results'', JArr [failedEntry (JStr (str ''a'')) deleteErrorA,
                                            deletedEntry (JStr (str ''b''))])])),
           emit (Console LogError (str ''Failed to write deleted_users.csv:'') (errArg err403))
             (emit (S3GetObject (str ''b'') ?key) s5))"
    by simp
  then show ?thesis
    by (simp add: run_append_denied m emit_def)
qed

text \<open>
  Claim C4. Once settings and token are there, write \<open>first\<close> for the text
  \<open>identities.user_id:"<id>"\<close> and \<open>second\<close> for \<open>app_metadata.ssoid:"<id>"\<close>
  (code unit 0x22 is the double quote, \<open><id>\<close> the text of the resolved id). The search
  requests issued by the whole invocation are \<open>first\<close> alone when the first search
  returns accounts, and \<open>first\<close> then \<open>second\<close> when it returns none (no request at
  all when the URL of the search cannot be built). The accounts used are those of the
  first search when it is not empty, else those of the second. When both are empty the
  response is the 200 \<open>Cannot find user\<close> response, and the invocation issued no delete
  request and no object-store call.
\<close>

theorem search_fallback_order:
  assumes "resolveAndAuthenticate fuel w st = (Return (domain, bucket, key, token), s1)"
    and "SSOID = getSsoid (orEmpty event) (env s1)"
    and "issued = drop (length (trace st)) (trace (snd (handler fuel w event ctx st)))"
    and "first = str ''identities.user_id:'' @ [0x22] @ ToString (Number_toString w) SSOID @ [0x22]"
    and "second = str ''app_metadata.ssoid:'' @ [0x22] @ ToString (Number_toString w) SSOID @ [0x22]"
  shows "\<exists>users1 s2 users2 s3.
      searchUsersByQuery w domain token first s1 = (Return users1, s2)
    \<and> searchUsersByQuery w domain token second s2 = (Return users2, s3)
    \<and> searchQueries issued =
         (case new_URL w (str ''https://'' @ stripProtocol domain @ str ''/api/v2/users'') of
            Inl e \<Rightarrow> []
          | Inr url \<Rightarrow> if users1 = [] then [first, second] else [first])
    \<and> first \<noteq> second
    \<and> (users1 \<noteq> [] \<longrightarrow>
          handler fuel w event ctx st
            = catchUnhandled w (deleteAndReport w (orEmpty ctx) domain bucket key token
                                  SSOID users1 s2))
    \<and> (users1 = [] \<and> users2 \<noteq> [] \<longrightarrow>
          handler fuel w event ctx st
            = catchUnhandled w (deleteAndReport w (orEmpty ctx) domain bucket key token
                                  SSOID users2 s3))
    \<and> (users1 = [] \<and> users2 = [] \<longrightarrow>
          handler fuel w event ctx st
            = (Return (response_of w 200
                 (JObj [(str ''message'', JStr (str ''Cannot find user'')),
                        (str ''ssoid'', SSOID),
                        (str ''results'', JArr [])])),
               emit (Console LogInfo (str ''Cannot find user for SSOID=''
                       @ ToString (Number_toString w) SSOID) NoArg) s3)
          \<and> filter isDeletion issued = [] \<and> filter isStoreCall issued = [])"
proof -
  have q: "first = identityQuery w SSOID" "second = metadataQuery w SSOID"
    using assms(4,5) by (simp_all add: identityQuery_def metadataQuery_def DQUOTE_def)
  show ?thesis
    unfolding q by (rule search_fallback_steps [OF assms(1,2,3)])
qed

theorem search_fallback_order_witness:
  "searchQueries (drop (length (trace stateRun))
      (trace (snd (handler 0 (worldRun (Inl err404)) JUndefined JUndefined stateRun))))
     = [str ''identities.user_id:'' @ [0x22] @ str ''abc'' @ [0x22]]
   \<and> searchQueries (drop (length (trace stateRun))
      (trace (snd (handler 0
         (worldSearch [str ''app_metadata.ssoid:'' @ [0x22] @ str ''abc'' @ [0x22]])
         JUndefined JUndefined stateRun))))
     = [str ''identities.user_id:'' @ [0x22] @ str ''abc'' @ [0x22],
        str ''app_metadata.ssoid:'' @ [0x22] @ str ''abc'' @ [0x22]]
   \<and> searchQueries (drop (length (trace stateRun))
      (trace (snd (handler 0 (worldSearch []) JUndefined JUndefined stateRun))))
     = [str ''identities.user_id:'' @ [0x22] @ str ''abc'' @ [0x22],
        str ''app_metadata.ssoid:'' @ [0x22] @ str ''abc'' @ [0x22]]
   \<and> fst (handler 0 (worldSearch []) JUndefined JUndefined stateRun)
     = Return (response_of (worldSearch []) 200
         (JObj [(str ''message'', JStr (str ''Cannot find user'')),
                (str ''ssoid'', JStr (str ''abc'')),
                (str ''results'', JArr [])]))
   \<and> filter isDeletion (drop (length (trace stateRun))
      (trace (snd (handler 0 (worldSearch []) JUndefined JUndefined stateRun)))) = []"
proof -
  let ?d = "str ''d.x''" and ?k = "JStr (str ''k'')" and ?S = "JStr (str ''abc'')"
  let ?q1 = "str ''identities.user_id:'' @ [0x22] @ str ''abc'' @ [0x22]"
  let ?q2 = "str ''app_metadata.ssoid:'' @ [0x22] @ str ''abc'' @ [0x22]"
  have 1: "searchQueries (drop (length (trace stateRun))
      (trace (snd (handler 0 (worldRun (Inl err404)) JUndefined JUndefined stateRun)))) = [?q1]"
  proof -
    let ?w = "worldRun (Inl err404)"
    define s1 where "s1 = snd (resolveAndAuthenticate 0 ?w stateRun)"
    have p: "resolveAndAuthenticate 0 ?w stateRun
               = (Return (?d, Some (str ''b''), str ''output/deleted_users.csv'', ?k), s1)"
      and e1: "env s1 = envRun"
      using run_prelude [of 0 "Inl err404"] by (simp_all add: s1_def)
    have S: "?S = getSsoid (orEmpty JUndefined) (env s1)" by (simp add: e1 run_ssoid)
    have f1: "?q1 = str ''identities.user_id:'' @ [0x22]
                      @ ToString (Number_toString ?w) ?S @ [0x22]"
      and f2: "?q2 = str ''app_metadata.ssoid:'' @ [0x22]
                      @ ToString (Number_toString ?w) ?S @ [0x22]"
      by simp_all
    from search_fallback_order [OF p S refl f1 f2, of JUndefined]
    obtain users1 s2 where
      u: "searchUsersByQuery ?w ?d ?k ?q1 s1 = (Return users1, s2)"
      and q: "searchQueries (drop (length (trace stateRun))
                (trace (snd (handler 0 ?w JUndefined JUndefined stateRun))))
          = (case new_URL ?w (str ''https://'' @ stripProtocol ?d @ str ''/api/v2/users'') of
               Inl e \<Rightarrow> []
             | Inr url \<Rightarrow> if users1 = [] then [?q1, ?q2] else [?q1])"
      by blast
    from u run_search [of "Inl err404" ?k ?q1 s1] have "users1 = [userA, userB]" by simp
    with q show ?thesis by simp
  qed
  have 2: "searchQueries (drop (length (trace stateRun))
      (trace (snd (handler 0 (worldSearch hits) JUndefined JUndefined stateRun)))) = [?q1, ?q2]
    \<and> (hits = [] \<longrightarrow>
         fst (handler 0 (worldSearch hits) JUndefined JUndefined stateRun)
           = Return (response_of (worldSearch hits) 200
               (JObj [(str ''message'', JStr (str ''Cannot find user'')),
                      (str ''ssoid'', ?S),
                      (str ''results'', JArr [])]))
         \<and> filter isDeletion (drop (length (trace stateRun))
              (trace (snd (handler 0 (worldSearch hits) JUndefined JUndefined stateRun)))) = [])"
    if h: "?q1 \<notin> set hits" for hits
  proof -
    let ?w = "worldSearch hits"
    define s1 where "s1 = snd (resolveAndAuthenticate 0 ?w stateRun)"
    have p: "resolveAndAuthenticate 0 ?w stateRun
               = (Return (?d, Some (str ''b''), str ''output/deleted_users.csv'', ?k), s1)"
      and e1: "env s1 = envRun"
      using search_prelude [of 0 hits] by (simp_all add: s1_def)
    have S: "?S = getSsoid (orEmpty JUndefined) (env s1)" by (simp add: e1 run_ssoid)
    have f1: "?q1 = str ''identities.user_id:'' @ [0x22]
                      @ ToString (Number_toString ?w) ?S @ [0x22]"
      and f2: "?q2 = str ''app_metadata.ssoid:'' @ [0x22]
                      @ ToString (Number_toString ?w) ?S @ [0x22]"
      by simp_all
    from search_fallback_order [OF p S refl f1 f2, of JUndefined]
    obtain users1 s2 users2 s3 where
      u: "searchUsersByQuery ?w ?d ?k ?q1 s1 = (Return users1, s2)"
      and u2: "searchUsersByQuery ?w ?d ?k ?q2 s2 = (Return users2, s3)"
      and q: "searchQueries (drop (length (trace stateRun))
                (trace (snd (handler 0 ?w JUndefined JUndefined stateRun))))
          = (case new_URL ?w (str ''https://'' @ stripProtocol ?d @ str ''/api/v2/users'') of
               Inl e \<Rightarrow> []
             | Inr url \<Rightarrow> if users1 = [] then [?q1, ?q2] else [?q1])"
      and n: "users1 = [] \<and> users2 = [] \<longrightarrow>
          handler 0 ?w JUndefined JUndefined stateRun
            = (Return (response_of ?w 200
                 (JObj [(str ''message'', JStr (str ''Cannot find user'')),
                        (str ''ssoid'', ?S),
                        (str ''results'', JArr [])])),
               emit (Console LogInfo (str ''Cannot find user for SSOID=''
                       @ ToString (Number_toString ?w) ?S) NoArg) s3)
          \<and> filter isDeletion (drop (length (trace stateRun))
                (trace (snd (handler 0 ?w JUndefined JUndefined stateRun)))) = []
          \<and> filter isStoreCall (drop (length (trace stateRun))
                (trace (snd (handler 0 ?w JUndefined JUndefined stateRun)))) = []"
      by blast
    from u h search_at_worldSearch [of hits ?k ?q1 s1] have e: "users1 = []" by simp
    have "hits = [] \<Longrightarrow> users2 = []"
      using u2 search_at_worldSearch [of hits ?k ?q2 s2] by simp
    with q e n show ?thesis by (cases "hits = []") auto
  qed
  have a: "?q1 \<notin> set [?q2]" and b: "?q1 \<notin> set []"
    by (simp_all add: str_def)
  from 1 2 [OF a] 2 [OF b] show ?thesis by simp
qed

text \<open>
  Claim C5. \<open>searchUsersByQuery\<close> always returns: the empty list when the URL cannot be
  built, when \<open>fetch\<close> or reading the body throws, on a status outside 200 to 299, when
  the body is not JSON, and when the parsed value is not an array or is the empty array;
  the parsed array otherwise.
\<close>

theorem search_never_raises:
  "fst (searchUsersByQuery w domain token q st) =
     Return
       (case new_URL w (str ''https://'' @ stripProtocol domain @ str ''/api/v2/users'') of
          Inl e \<Rightarrow> []
        | Inr url \<Rightarrow>
            (case fetch w (trace st @
                    [Fetch (str ''GET'') url
                       [(str ''q'', q), (str ''search_engine'', str ''v3''),
                        (str ''per_page'', str ''50'')]
                       (bearer w token) None]) of
               Inl e \<Rightarrow> []
             | Inr res \<Rightarrow>
                 (case text_result res of
                    Inl e \<Rightarrow> []
                  | Inr text \<Rightarrow>
                      if \<not> ok res then []
                      else (case JSON_parse w text of
                              Inl e \<Rightarrow> []
                            | Inr (JArr us) \<Rightarrow> us
                            | Inr _ \<Rightarrow> []))))"
  by (simp add: searchUsersByQuery_def searchUsersByQuery_try_def emit_def Let_def
      split: sum.splits jvalue.splits)

theorem search_never_raises_witness:
  "fst (searchUsersByQuery world0 (str ''d'') (JStr (str ''t'')) (str ''q'') state0) = Return []"
  using search_never_raises [of world0 "str ''d''" "JStr (str ''t'')" "str ''q''" state0]
  by (simp add: world0_def ok_def)

text \<open>
  Claim C6. Two accounts \<open>a\<close> and \<open>b\<close> were found; deleting \<open>a\<close> throws \<open>err\<close>
  and deleting \<open>b\<close> succeeds, and \<open>b\<close> has a list of identity links (or none). Then
  the loop goes on after the failure and ends with the results
  \<open>[failure for a, success for b]\<close>, the failure entry carrying \<open>err?.message ||
  String(err)\<close> (the message of \<open>err\<close> when it has one), and with exactly one row, the
  one built for \<open>b\<close>. The write step is run on that one row (with a bucket configured,
  \<open>appendRowsToCsvInS3\<close> is called once, with that row), and the response is 200 with
  count 2 and these two results.
\<close>

theorem per_account_isolation:
  assumes "resolveAndAuthenticate fuel w st = (Return (domain, bucket, key, token), s1)"
    and "SSOID = getSsoid (orEmpty event) (env s1)"
    and "findUsers w domain token SSOID s1 = (Return [a, b], s2)"
    and "getProp a (str ''user_id'') = Inr ida"
    and "getProp b (str ''user_id'') = Inr idb"
    and "hasIdentityList b"
    and "deleteUser w domain token ida s2 = (Throw err, s3)"
    and "deleteUser w domain token idb
           (emit (Console LogError
              (str ''Failed to delete user_id='' @ ToString (Number_toString w) ida @ str '':'')
              (errArg err)) s3) = (Return (), s4)"
    and "s5 = emit (Console LogInfo
              (str ''Deleted Auth0 user_id='' @ ToString (Number_toString w) idb) NoArg) s4"
    and "deletedBy = getDeletedBy (orEmpty ctx) (env s2)"
  shows "\<exists>row final.
      buildCsvRow (Number_toString w) (Date_toISOString w (trace s5)) SSOID b deletedBy = Inr row
    \<and> deleteLoop w domain token SSOID deletedBy [a, b] ([], []) s2
        = (Return ([JObj [(str ''user_id'', ida), (str ''deleted'', JBool False),
                          (str ''error'', JStr (errorText err))],
                    JObj [(str ''user_id'', idb), (str ''deleted'', JBool True)]],
                   [row]), s5)
    \<and> (err_message err \<noteq> [] \<longrightarrow> errorText err = err_message err)
    \<and> writeLedger w bucket key [row] s5 = (Return (), final)
    \<and> (\<forall>bk. bucket = Some bk \<and> bk \<noteq> [] \<longrightarrow>
          final = (case appendRowsToCsvInS3 w bk key [row] s5 of
                     (Throw e, s) \<Rightarrow> emit (Console LogError
                        (str ''Failed to write deleted_users.csv:'') (errArg e)) s
                   | (r, s) \<Rightarrow> s))
    \<and> handler fuel w event ctx st
        = (Return (response_of w 200
             (JObj [(str ''message'', JStr (str ''Delete attempt complete'')),
                    (str ''ssoid'', SSOID),
                    (str ''count'', JNum (Finite 2)),
                    (str ''results'',
                     JArr [JObj [(str ''user_id'', ida), (str ''deleted'', JBool False),
                                 (str ''error'', JStr (errorText err))],
                           JObj [(str ''user_id'', idb), (str ''deleted'', JBool True)]])])),
           final)"
proof -
  from two_accounts_loop [OF assms(4,5,6,7,8,9), of SSOID deletedBy] obtain row where
    row: "buildCsvRow (Number_toString w) (Date_toISOString w (trace s5)) SSOID b deletedBy
            = Inr row"
    and loop: "deleteLoop w domain token SSOID deletedBy [a, b] ([], []) s2
        = (Return ([failedEntry ida err, deletedEntry idb], [row]), s5)"
    by blast
  obtain final where wl: "writeLedger w bucket key [row] s5 = (Return (), final)"
    using writeLedger_returns by blast
  have fin: "\<forall>bk. bucket = Some bk \<and> bk \<noteq> [] \<longrightarrow>
          final = (case appendRowsToCsvInS3 w bk key [row] s5 of
                     (Throw e, s) \<Rightarrow> emit (Console LogError
                        (str ''Failed to write deleted_users.csv:'') (errArg e)) s
                   | (r, s) \<Rightarrow> s)"
    using wl by (auto simp: writeLedger_bucket split: prod.splits outcome.splits)
  have h: "handler fuel w event ctx st =
     (Return (response_of w 200 (completeBody SSOID [failedEntry ida err, deletedEntry idb])),
      final)"
    using handler_reported [OF assms(1), where event = event and users = "[a, b]" and ?s2.0 = s2
        and ctx = ctx and results = "[failedEntry ida err, deletedEntry idb]"
        and csvRows = "[row]" and ?s3.0 = s5 and ?s4.0 = final]
      assms(2,3,10) loop wl
    by simp
  show ?thesis
    using row loop wl fin h
    by (auto simp: completeBody_def failedEntry_def deletedEntry_def errorText_def)
qed

theorem per_account_isolation_witness:
  "findUsers (worldRun (Inl err404)) (str ''d.x'') (JStr (str ''k'')) (JStr (str ''abc''))
       (snd (resolveAndAuthenticate 0 (worldRun (Inl err404)) stateRun))
     = (Return [userA, userB],
        snd (findUsers (worldRun (Inl err404)) (str ''d.x'') (JStr (str ''k'')) (JStr (str ''abc''))
               (snd (resolveAndAuthenticate 0 (worldRun (Inl err404)) stateRun))))
   \<and> hasIdentityList userB
   \<and> fst (handler 0 (worldRun (Inl err404)) JUndefined JUndefined stateRun)
     = Return (response_of (worldRun (Inl err404)) 200
         (JObj [(str ''message'', JStr (str ''Delete attempt complete'')),
                (str ''ssoid'', JStr (str ''abc'')),
                (str ''count'', JNum (Finite 2)),
                (str ''results'',
                 JArr [JObj [(str ''user_id'', JStr (str ''a'')), (str ''deleted'', JBool False),
                             (str ''error'', JStr (str ''Delete failed HTTP 500: no''))],
                       JObj [(str ''user_id'', JStr (str ''b'')), (str ''deleted'', JBool True)]])]))"
proof -
  let ?w = "worldRun (Inl err404)"
  let ?d = "str ''d.x''" and ?k = "JStr (str ''k'')" and ?S = "JStr (str ''abc'')"
  define s1 where "s1 = snd (resolveAndAuthenticate 0 ?w stateRun)"
  define s2 where "s2 = snd (findUsers ?w ?d ?k ?S s1)"
  define s3 where "s3 = snd (deleteUser ?w ?d ?k (JStr (str ''a'')) s2)"
  define s3' where "s3' = emit (Console LogError
              (str ''Failed to delete user_id='' @ ToString (Number_toString ?w) (JStr (str ''a''))
                 @ str '':'') (errArg deleteErrorA)) s3"
  define s4 where "s4 = snd (deleteUser ?w ?d ?k (JStr (str ''b'')) s3')"
  define s5 where "s5 = emit (Console LogInfo
              (str ''Deleted Auth0 user_id='' @ ToString (Number_toString ?w) (JStr (str ''b'')))
              NoArg) s4"
  have p: "resolveAndAuthenticate 0 ?w stateRun
             = (Return (?d, Some (str ''b''), str ''output/deleted_users.csv'', ?k), s1)"
    and e1: "env s1 = envRun"
    using run_prelude [of 0 "Inl err404"] by (simp_all add: s1_def)
  have S: "?S = getSsoid (orEmpty JUndefined) (env s1)" by (simp add: e1 run_ssoid)
  have f: "findUsers ?w ?d ?k ?S s1 = (Return [userA, userB], s2)"
    using run_find [of "Inl err404" ?k ?S s1] by (simp add: s2_def)
  have da: "deleteUser ?w ?d ?k (JStr (str ''a'')) s2 = (Throw deleteErrorA, s3)"
    using run_delete_a [of "Inl err404" ?k s2] by (simp add: s3_def)
  have db: "deleteUser ?w ?d ?k (JStr (str ''b'')) s3' = (Return (), s4)"
    using run_delete_b [of "Inl err404" ?k s3'] by (simp add: s4_def)
  from per_account_isolation [OF p S f run_users(1) run_users(2) run_users(3) da
      db [unfolded s3'_def] s5_def refl, of JUndefined]
  obtain final where
    "handler 0 ?w JUndefined JUndefined stateRun
        = (Return (response_of ?w 200
             (JObj [(str ''message'', JStr (str ''Delete attempt complete'')),
                    (str ''ssoid'', ?S),
                    (str ''count'', JNum (Finite 2)),
                    (str ''results'',
                     JArr [JObj [(str ''user_id'', JStr (str ''a'')), (str ''deleted'', JBool False),
                                 (str ''error'', JStr (errorText deleteErrorA))],
                           JObj [(str ''user_id'', JStr (str ''b'')),
                                 (str ''deleted'', JBool True)]])])),
           final)"
    by blast
  then show ?thesis
    using f run_users(3) by (simp add: run_errorText s1_def)
qed

section \<open>Row formatting\<close>



section \<open>The response\<close>

text \<open>
  Claim C8. The handler never throws, and whenever it returns the response is one of
  three: status 200 with the \<open>Cannot find user\<close> body (message, ssoid, empty results),
  status 200 with the \<open>Delete attempt complete\<close> body (message, ssoid, count equal to
  the number of results, results whose entries are \<open>{user_id, deleted: true}\<close> or
  \<open>{user_id, deleted: false, error}\<close>), or status 500 with the body \<open>{error}\<close>.
  Which one: when both searches find nothing, the first; when accounts are found (none
  of them \<open>null\<close>), the second, whatever each deletion and the ledger write do, with at
  least one entry per account; when loading the parameters throws, when a required
  setting is empty or absent, when the token request throws, or when the loop throws,
  the third, with the text of that error. The handler returns whenever the loading of the
  parameters comes back, more fuel then changes nothing, and loading comes back in a
  process that has loaded already and whenever the store answers without a continuation
  token.
\<close>

theorem response_envelope:
  "((\<exists>r s. handler fuel w event ctx st = (Return r, s)
      \<and> ((fst (handler_try fuel w (orEmpty event) (orEmpty ctx) st) = Return r
           \<and> statusCode r = 200
           \<and> (\<exists>SSOID.
                 body r = JSON_stringify w
                   (JObj [(str ''message'', JStr (str ''Cannot find user'')),
                          (str ''ssoid'', SSOID),
                          (str ''results'', JArr [])])
               \<or> (\<exists>results.
                     body r = JSON_stringify w
                       (JObj [(str ''message'', JStr (str ''Delete attempt complete'')),
                              (str ''ssoid'', SSOID),
                              (str ''count'', JNum (Finite (of_nat (length results)))),
                              (str ''results'', JArr results)])
                   \<and> (\<forall>x \<in> set results. \<exists>uid.
                         x = JObj [(str ''user_id'', uid), (str ''deleted'', JBool True)]
                       \<or> (\<exists>msg. x = JObj [(str ''user_id'', uid), (str ''deleted'', JBool False),
                                            (str ''error'', JStr msg)])))))
         \<or> (\<exists>err. fst (handler_try fuel w (orEmpty event) (orEmpty ctx) st) = Throw err
               \<and> statusCode r = 500
               \<and> body r = JSON_stringify w (JObj [(str ''error'', JStr (errorText err))]))))
    \<or> (fst (handler fuel w event ctx st) = Diverge
         \<and> fst (loadParamsIntoEnv fuel w st) = Diverge))
   \<and> (\<forall>domain bucket key token s1 s2.
         resolveAndAuthenticate fuel w st = (Return (domain, bucket, key, token), s1)
         \<and> findUsers w domain token (getSsoid (orEmpty event) (env s1)) s1 = (Return [], s2)
         \<longrightarrow> fst (handler fuel w event ctx st) =
               Return \<lparr>statusCode = 200,
                       headers = [(str ''content-type'', str ''application/json'')],
                       body = JSON_stringify w
                         (JObj [(str ''message'', JStr (str ''Cannot find user'')),
                                (str ''ssoid'', getSsoid (orEmpty event) (env s1)),
                                (str ''results'', JArr [])])\<rparr>)
   \<and> (\<forall>domain bucket key token s1 users s2.
         resolveAndAuthenticate fuel w st = (Return (domain, bucket, key, token), s1)
         \<and> findUsers w domain token (getSsoid (orEmpty event) (env s1)) s1 = (Return users, s2)
         \<and> users \<noteq> [] \<and> (\<forall>u \<in> set users. u \<noteq> JNull \<and> u \<noteq> JUndefined)
         \<longrightarrow> (\<exists>results.
               fst (handler fuel w event ctx st) =
                 Return \<lparr>statusCode = 200,
                         headers = [(str ''content-type'', str ''application/json'')],
                         body = JSON_stringify w
                           (JObj [(str ''message'', JStr (str ''Delete attempt complete'')),
                                  (str ''ssoid'', getSsoid (orEmpty event) (env s1)),
                                  (str ''count'', JNum (Finite (of_nat (length results)))),
                                  (str ''results'', JArr results)])\<rparr>
             \<and> length users \<le> length results
             \<and> (\<forall>x \<in> set results. \<exists>uid.
                   x = JObj [(str ''user_id'', uid), (str ''deleted'', JBool True)]
                 \<or> (\<exists>msg. x = JObj [(str ''user_id'', uid), (str ''deleted'', JBool False),
                                      (str ''error'', JStr msg)]))))
   \<and> (\<forall>e s. loadParamsIntoEnv fuel w st = (Throw e, s)
         \<longrightarrow> fst (handler fuel w event ctx st) =
               Return \<lparr>statusCode = 500,
                       headers = [(str ''content-type'', str ''application/json'')],
                       body = JSON_stringify w (JObj [(str ''error'', JStr (errorText e))])\<rparr>)
   \<and> (\<forall>s k. loadParamsIntoEnv fuel w st = (Return (), s)
         \<and> k \<in> {str ''AUTH0_DOMAIN'', str ''AUTH0_CLIENT_ID'', str ''AUTH0_CLIENT_SECRET''}
         \<and> (env s k = Some [] \<or> env s k = None)
         \<longrightarrow> fst (handler fuel w event ctx st) =
               Return \<lparr>statusCode = 500,
                       headers = [(str ''content-type'', str ''application/json'')],
                       body = JSON_stringify w
                         (JObj [(str ''error'',
                                 JStr (str ''Missing '' @ firstMissing (env s)))])\<rparr>)
   \<and> (\<forall>s AUTH0_DOMAIN clientId clientSecret e s1.
         loadParamsIntoEnv fuel w st = (Return (), s)
         \<and> mustEnv (env s) (str ''AUTH0_DOMAIN'') = Inr AUTH0_DOMAIN
         \<and> mustEnv (env s) (str ''AUTH0_CLIENT_ID'') = Inr clientId
         \<and> mustEnv (env s) (str ''AUTH0_CLIENT_SECRET'') = Inr clientSecret
         \<and> getMgmtToken w AUTH0_DOMAIN clientId clientSecret
             (envOr (env s) (str ''AUTH0_AUDIENCE'')
                (str ''https://'' @ stripProtocol AUTH0_DOMAIN @ str ''/api/v2/'')) s
             = (Throw e, s1)
         \<longrightarrow> fst (handler fuel w event ctx st) =
               Return \<lparr>statusCode = 500,
                       headers = [(str ''content-type'', str ''application/json'')],
                       body = JSON_stringify w (JObj [(str ''error'', JStr (errorText e))])\<rparr>)
   \<and> (\<forall>domain bucket key token s1 users s2 e s3.
         resolveAndAuthenticate fuel w st = (Return (domain, bucket, key, token), s1)
         \<and> findUsers w domain token (getSsoid (orEmpty event) (env s1)) s1 = (Return users, s2)
         \<and> users \<noteq> []
         \<and> deleteLoop w domain token (getSsoid (orEmpty event) (env s1))
              (getDeletedBy (orEmpty ctx) (env s2)) users ([], []) s2 = (Throw e, s3)
         \<longrightarrow> fst (handler fuel w event ctx st) =
               Return \<lparr>statusCode = 500,
                       headers = [(str ''content-type'', str ''application/json'')],
                       body = JSON_stringify w (JObj [(str ''error'', JStr (errorText e))])\<rparr>)
   \<and> (fst (loadParamsIntoEnv fuel w st) \<noteq> Diverge
         \<longrightarrow> (\<exists>r s. handler fuel w event ctx st = (Return r, s)
                      \<and> (statusCode r = 200 \<or> statusCode r = 500))
             \<and> (\<forall>k. handler (fuel + k) w event ctx st = handler fuel w event ctx st))
   \<and> (paramsLoaded st \<longrightarrow> fst (loadParamsIntoEnv fuel w st) \<noteq> Diverge)
   \<and> ((\<forall>t resp. ssm_GetParametersByPath w t = Inr resp \<longrightarrow>
             bp_NextToken resp = None \<or> bp_NextToken resp = Some [])
         \<longrightarrow> fst (loadParamsIntoEnv (Suc fuel) w st) \<noteq> Diverge)"
proof -
  have B: "\<forall>domain bucket key token s1 s2.
         resolveAndAuthenticate fuel w st = (Return (domain, bucket, key, token), s1)
         \<and> findUsers w domain token (getSsoid (orEmpty event) (env s1)) s1 = (Return [], s2)
         \<longrightarrow> fst (handler fuel w event ctx st) =
               Return \<lparr>statusCode = 200,
                       headers = [(str ''content-type'', str ''application/json'')],
                       body = JSON_stringify w
                         (JObj [(str ''message'', JStr (str ''Cannot find user'')),
                                (str ''ssoid'', getSsoid (orEmpty event) (env s1)),
                                (str ''results'', JArr [])])\<rparr>"
  proof (intro allI impI, elim conjE)
    fix domain bucket key token s1 s2
    assume a: "resolveAndAuthenticate fuel w st = (Return (domain, bucket, key, token), s1)"
      "findUsers w domain token (getSsoid (orEmpty event) (env s1)) s1 = (Return [], s2)"
    show "fst (handler fuel w event ctx st) =
               Return \<lparr>statusCode = 200,
                       headers = [(str ''content-type'', str ''application/json'')],
                       body = JSON_stringify w
                         (JObj [(str ''message'', JStr (str ''Cannot find user'')),
                                (str ''ssoid'', getSsoid (orEmpty event) (env s1)),
                                (str ''results'', JArr [])])\<rparr>"
      by (simp add: handler_none_found [OF a] response_of_def)
  qed
  have C: "\<forall>domain bucket key token s1 users s2.
         resolveAndAuthenticate fuel w st = (Return (domain, bucket, key, token), s1)
         \<and> findUsers w domain token (getSsoid (orEmpty event) (env s1)) s1 = (Return users, s2)
         \<and> users \<noteq> [] \<and> (\<forall>u \<in> set users. u \<noteq> JNull \<and> u \<noteq> JUndefined)
         \<longrightarrow> (\<exists>results.
               fst (handler fuel w event ctx st) =
                 Return \<lparr>statusCode = 200,
                         headers = [(str ''content-type'', str ''application/json'')],
                         body = JSON_stringify w
                           (JObj [(str ''message'', JStr (str ''Delete attempt complete'')),
                                  (str ''ssoid'', getSsoid (orEmpty event) (env s1)),
                                  (str ''count'', JNum (Finite (of_nat (length results)))),
                                  (str ''results'', JArr results)])\<rparr>
             \<and> length users \<le> length results
             \<and> (\<forall>x \<in> set results. \<exists>uid.
                   x = JObj [(str ''user_id'', uid), (str ''deleted'', JBool True)]
                 \<or> (\<exists>msg. x = JObj [(str ''user_id'', uid), (str ''deleted'', JBool False),
                                      (str ''error'', JStr msg)])))"
  proof (intro allI impI, elim conjE)
    fix domain bucket key token s1 users s2
    assume a: "resolveAndAuthenticate fuel w st = (Return (domain, bucket, key, token), s1)"
      "findUsers w domain token (getSsoid (orEmpty event) (env s1)) s1 = (Return users, s2)"
      "users \<noteq> []" "\<forall>u \<in> set users. u \<noteq> JNull \<and> u \<noteq> JUndefined"
    from handler_accounts_found [OF a, of ctx]
    show "\<exists>results.
               fst (handler fuel w event ctx st) =
                 Return \<lparr>statusCode = 200,
                         headers = [(str ''content-type'', str ''application/json'')],
                         body = JSON_stringify w
                           (JObj [(str ''message'', JStr (str ''Delete attempt complete'')),
                                  (str ''ssoid'', getSsoid (orEmpty event) (env s1)),
                                  (str ''count'', JNum (Finite (of_nat (length results)))),
                                  (str ''results'', JArr results)])\<rparr>
             \<and> length users \<le> length results
             \<and> (\<forall>x \<in> set results. \<exists>uid.
                   x = JObj [(str ''user_id'', uid), (str ''deleted'', JBool True)]
                 \<or> (\<exists>msg. x = JObj [(str ''user_id'', uid), (str ''deleted'', JBool False),
                                      (str ''error'', JStr msg)]))"
      unfolding response_of_def .
  qed
  have D1: "\<forall>e s. loadParamsIntoEnv fuel w st = (Throw e, s)
         \<longrightarrow> fst (handler fuel w event ctx st) =
               Return \<lparr>statusCode = 500,
                       headers = [(str ''content-type'', str ''application/json'')],
                       body = JSON_stringify w (JObj [(str ''error'', JStr (errorText e))])\<rparr>"
  proof (intro allI impI)
    fix e s
    assume a: "loadParamsIntoEnv fuel w st = (Throw e, s)"
    show "fst (handler fuel w event ctx st) =
               Return \<lparr>statusCode = 500,
                       headers = [(str ''content-type'', str ''application/json'')],
                       body = JSON_stringify w (JObj [(str ''error'', JStr (errorText e))])\<rparr>"
      by (simp add: handler_prelude_throws [OF resolve_load_throws [OF a]] response_of_def)
  qed
  have D2: "\<forall>s k. loadParamsIntoEnv fuel w st = (Return (), s)
         \<and> k \<in> {str ''AUTH0_DOMAIN'', str ''AUTH0_CLIENT_ID'', str ''AUTH0_CLIENT_SECRET''}
         \<and> (env s k = Some [] \<or> env s k = None)
         \<longrightarrow> fst (handler fuel w event ctx st) =
               Return \<lparr>statusCode = 500,
                       headers = [(str ''content-type'', str ''application/json'')],
                       body = JSON_stringify w
                         (JObj [(str ''error'',
                                 JStr (str ''Missing '' @ firstMissing (env s)))])\<rparr>"
  proof (intro allI impI, elim conjE)
    fix s k
    assume l: "loadParamsIntoEnv fuel w st = (Return (), s)"
      and k: "k \<in> {str ''AUTH0_DOMAIN'', str ''AUTH0_CLIENT_ID'', str ''AUTH0_CLIENT_SECRET''}"
      and e: "env s k = Some [] \<or> env s k = None"
    from e have f: "\<not> envTruthy (env s) k" by (auto simp: envTruthy_def)
    show "fst (handler fuel w event ctx st) =
               Return \<lparr>statusCode = 500,
                       headers = [(str ''content-type'', str ''application/json'')],
                       body = JSON_stringify w
                         (JObj [(str ''error'',
                                 JStr (str ''Missing '' @ firstMissing (env s)))])\<rparr>"
      by (simp add: handler_missing_setting [OF l k f] response_of_def)
  qed
  have D3: "\<forall>s AUTH0_DOMAIN clientId clientSecret e s1.
         loadParamsIntoEnv fuel w st = (Return (), s)
         \<and> mustEnv (env s) (str ''AUTH0_DOMAIN'') = Inr AUTH0_DOMAIN
         \<and> mustEnv (env s) (str ''AUTH0_CLIENT_ID'') = Inr clientId
         \<and> mustEnv (env s) (str ''AUTH0_CLIENT_SECRET'') = Inr clientSecret
         \<and> getMgmtToken w AUTH0_DOMAIN clientId clientSecret
             (envOr (env s) (str ''AUTH0_AUDIENCE'')
                (str ''https://'' @ stripProtocol AUTH0_DOMAIN @ str ''/api/v2/'')) s
             = (Throw e, s1)
         \<longrightarrow> fst (handler fuel w event ctx st) =
               Return \<lparr>statusCode = 500,
                       headers = [(str ''content-type'', str ''application/json'')],
                       body = JSON_stringify w (JObj [(str ''error'', JStr (errorText e))])\<rparr>"
  proof (intro allI impI, elim conjE)
    fix s AUTH0_DOMAIN clientId clientSecret e s1
    assume a: "loadParamsIntoEnv fuel w st = (Return (), s)"
      "mustEnv (env s) (str ''AUTH0_DOMAIN'') = Inr AUTH0_DOMAIN"
      "mustEnv (env s) (str ''AUTH0_CLIENT_ID'') = Inr clientId"
      "mustEnv (env s) (str ''AUTH0_CLIENT_SECRET'') = Inr clientSecret"
      "getMgmtToken w AUTH0_DOMAIN clientId clientSecret
             (envOr (env s) (str ''AUTH0_AUDIENCE'')
                (str ''https://'' @ stripProtocol AUTH0_DOMAIN @ str ''/api/v2/'')) s
             = (Throw e, s1)"
    show "fst (handler fuel w event ctx st) =
               Return \<lparr>statusCode = 500,
                       headers = [(str ''content-type'', str ''application/json'')],
                       body = JSON_stringify w (JObj [(str ''error'', JStr (errorText e))])\<rparr>"
      by (simp add: handler_prelude_throws [OF resolve_token_throws [OF a]] response_of_def)
  qed
  have D4: "\<forall>domain bucket key token s1 users s2 e s3.
         resolveAndAuthenticate fuel w st = (Return (domain, bucket, key, token), s1)
         \<and> findUsers w domain token (getSsoid (orEmpty event) (env s1)) s1 = (Return users, s2)
         \<and> users \<noteq> []
         \<and> deleteLoop w domain token (getSsoid (orEmpty event) (env s1))
              (getDeletedBy (orEmpty ctx) (env s2)) users ([], []) s2 = (Throw e, s3)
         \<longrightarrow> fst (handler fuel w event ctx st) =
               Return \<lparr>statusCode = 500,
                       headers = [(str ''content-type'', str ''application/json'')],
                       body = JSON_stringify w (JObj [(str ''error'', JStr (errorText e))])\<rparr>"
  proof (intro allI impI, elim conjE)
    fix domain bucket key token s1 users s2 e s3
    assume a: "resolveAndAuthenticate fuel w st = (Return (domain, bucket, key, token), s1)"
      "findUsers w domain token (getSsoid (orEmpty event) (env s1)) s1 = (Return users, s2)"
      "users \<noteq> []"
      "deleteLoop w domain token (getSsoid (orEmpty event) (env s1))
              (getDeletedBy (orEmpty ctx) (env s2)) users ([], []) s2 = (Throw e, s3)"
    show "fst (handler fuel w event ctx st) =
               Return \<lparr>statusCode = 500,
                       headers = [(str ''content-type'', str ''application/json'')],
                       body = JSON_stringify w (JObj [(str ''error'', JStr (errorText e))])\<rparr>"
      by (simp add: handler_loop_throws [OF a] response_of_def)
  qed
  have E1: "fst (loadParamsIntoEnv fuel w st) \<noteq> Diverge
         \<longrightarrow> (\<exists>r s. handler fuel w event ctx st = (Return r, s)
                      \<and> (statusCode r = 200 \<or> statusCode r = 500))
             \<and> (\<forall>k. handler (fuel + k) w event ctx st = handler fuel w event ctx st)"
  proof
    assume a: "fst (loadParamsIntoEnv fuel w st) \<noteq> Diverge"
    show "(\<exists>r s. handler fuel w event ctx st = (Return r, s)
                      \<and> (statusCode r = 200 \<or> statusCode r = 500))
             \<and> (\<forall>k. handler (fuel + k) w event ctx st = handler fuel w event ctx st)"
    proof
      show "\<exists>r s. handler fuel w event ctx st = (Return r, s)
                      \<and> (statusCode r = 200 \<or> statusCode r = 500)"
        by (rule handler_returns [OF a])
      show "\<forall>k. handler (fuel + k) w event ctx st = handler fuel w event ctx st"
        by (intro allI) (rule handler_more_fuel [OF a])
    qed
  qed
  have E2: "paramsLoaded st \<longrightarrow> fst (loadParamsIntoEnv fuel w st) \<noteq> Diverge"
    by (simp add: loadParamsIntoEnv_def)
  have E3: "(\<forall>t resp. ssm_GetParametersByPath w t = Inr resp \<longrightarrow>
             bp_NextToken resp = None \<or> bp_NextToken resp = Some [])
         \<longrightarrow> fst (loadParamsIntoEnv (Suc fuel) w st) \<noteq> Diverge"
    using loadParams_single_page by blast
  show ?thesis
    apply (intro conjI)
             apply (rule handler_outcomes)
            apply (rule B)
           apply (rule C)
          apply (rule D1)
         apply (rule D2)
        apply (rule D3)
       apply (rule D4)
      apply (rule E1)
     apply (rule E2)
    apply (rule E3)
    done
qed

theorem response_envelope_witness:
  "fst (handler (Suc 0) (worldSearch []) JUndefined JUndefined stateCold)
     = Return \<lparr>statusCode = 200,
               headers = [(str ''content-type'', str ''application/json'')],
               body = JSON_stringify (worldSearch [])
                 (JObj [(str ''message'', JStr (str ''Cannot find user'')),
                        (str ''ssoid'', JStr (str ''abc'')),
                        (str ''results'', JArr [])])\<rparr>
   \<and> (case fst (handler 0 (worldRun (Inl err404)) JUndefined JUndefined stateRun) of
         Return r \<Rightarrow> statusCode r | _ \<Rightarrow> 0) = 200
   \<and> fst (handler (Suc 0) world0 JUndefined JUndefined (stateBucket []))
     = Return \<lparr>statusCode = 500,
               headers = [(str ''content-type'', str ''application/json'')],
               body = JSON_stringify world0
                 (JObj [(str ''error'', JStr (str ''Missing AUTH0_DOMAIN''))])\<rparr>
   \<and> fst (handler 0 worldNoToken JUndefined JUndefined stateRun)
     = Return \<lparr>statusCode = 500,
               headers = [(str ''content-type'', str ''application/json'')],
               body = JSON_stringify worldNoToken
                 (JObj [(str ''error'', JStr (str ''Token HTTP 401 NO: no''))])\<rparr>"
proof -
  have 1: "fst (handler (Suc 0) (worldSearch []) JUndefined JUndefined stateCold)
     = Return \<lparr>statusCode = 200,
               headers = [(str ''content-type'', str ''application/json'')],
               body = JSON_stringify (worldSearch [])
                 (JObj [(str ''message'', JStr (str ''Cannot find user'')),
                        (str ''ssoid'', JStr (str ''abc'')),
                        (str ''results'', JArr [])])\<rparr>"
  proof -
    let ?w = "worldSearch []"
    define s1 where "s1 = snd (resolveAndAuthenticate (Suc 0) ?w stateCold)"
    have p: "resolveAndAuthenticate (Suc 0) ?w stateCold
               = (Return (str ''d.x'', Some (str ''b''), str ''output/deleted_users.csv'',
                          JStr (str ''k'')), s1)"
      and e1: "env s1 = envRun"
      using cold_prelude [of 0 "[]"] by (simp_all add: s1_def)
    have S: "getSsoid (orEmpty JUndefined) (env s1) = JStr (str ''abc'')"
      by (simp add: e1 run_ssoid)
    have f: "findUsers ?w (str ''d.x'') (JStr (str ''k'')) (getSsoid (orEmpty JUndefined) (env s1)) s1
               = (Return [], snd (findUsers ?w (str ''d.x'') (JStr (str ''k''))
                                    (getSsoid (orEmpty JUndefined) (env s1)) s1))"
      using find_nothing by simp
    from response_envelope [of "Suc 0" ?w JUndefined JUndefined stateCold,
        THEN conjunct2, THEN conjunct1, rule_format, OF conjI [OF p f]]
    show ?thesis by (simp add: S)
  qed
  have 2: "(case fst (handler 0 (worldRun (Inl err404)) JUndefined JUndefined stateRun) of
         Return r \<Rightarrow> statusCode r | _ \<Rightarrow> 0) = 200"
  proof -
    let ?w = "worldRun (Inl err404)"
    define s1 where "s1 = snd (resolveAndAuthenticate 0 ?w stateRun)"
    have p: "resolveAndAuthenticate 0 ?w stateRun
               = (Return (str ''d.x'', Some (str ''b''), str ''output/deleted_users.csv'',
                          JStr (str ''k'')), s1)"
      using run_prelude [of 0 "Inl err404"] by (simp_all add: s1_def)
    have f: "findUsers ?w (str ''d.x'') (JStr (str ''k'')) (getSsoid (orEmpty JUndefined) (env s1)) s1
               = (Return [userA, userB], snd (findUsers ?w (str ''d.x'') (JStr (str ''k''))
                                    (getSsoid (orEmpty JUndefined) (env s1)) s1))"
      using run_find by simp
    have n: "[userA, userB] \<noteq> []" "\<forall>u \<in> set [userA, userB]. u \<noteq> JNull \<and> u \<noteq> JUndefined"
      by (simp_all add: userA_def userB_def)
    from response_envelope [of 0 ?w JUndefined JUndefined stateRun,
        THEN conjunct2, THEN conjunct2, THEN conjunct1, rule_format,
        OF conjI [OF p conjI [OF f conjI [OF n]]]]
    obtain results where "fst (handler 0 ?w JUndefined JUndefined stateRun) =
                 Return \<lparr>statusCode = 200,
                         headers = [(str ''content-type'', str ''application/json'')],
                         body = JSON_stringify ?w
                           (JObj [(str ''message'', JStr (str ''Delete attempt complete'')),
                                  (str ''ssoid'', getSsoid (orEmpty JUndefined) (env s1)),
                                  (str ''count'', JNum (Finite (of_nat (length results)))),
                                  (str ''results'', JArr results)])\<rparr>"
      by blast
    then show ?thesis by simp
  qed
  have 3: "fst (handler (Suc 0) world0 JUndefined JUndefined (stateBucket []))
     = Return \<lparr>statusCode = 500,
               headers = [(str ''content-type'', str ''application/json'')],
               body = JSON_stringify world0
                 (JObj [(str ''error'', JStr (str ''Missing AUTH0_DOMAIN''))])\<rparr>"
  proof -
    have c: "\<not> paramsLoaded (stateBucket [])" "env (stateBucket []) (str ''PARAM_PREFIX'') = None"
      by (simp_all add: stateBucket_def str_def)
    define s where "s = snd (loadParamsIntoEnv (Suc 0) world0 (stateBucket []))"
    from empty_store_load [OF c, of world0 0]
    have l: "loadParamsIntoEnv (Suc 0) world0 (stateBucket []) = (Return (), s)"
      and e: "env s = env (stateBucket [])"
      by (simp_all add: s_def)
    have d: "env s (str ''AUTH0_DOMAIN'') = None"
      unfolding e by (simp add: stateBucket_def str_def)
    have k: "str ''AUTH0_DOMAIN''
               \<in> {str ''AUTH0_DOMAIN'', str ''AUTH0_CLIENT_ID'', str ''AUTH0_CLIENT_SECRET''}"
      by simp
    have m: "str ''Missing '' @ firstMissing (env s) = str ''Missing AUTH0_DOMAIN''"
      using d by (simp add: firstMissing_def envTruthy_def str_def)
    from response_envelope [of "Suc 0" world0 JUndefined JUndefined "stateBucket []",
        THEN conjunct2, THEN conjunct2, THEN conjunct2, THEN conjunct2, THEN conjunct1,
        rule_format, OF conjI [OF l conjI [OF k disjI2 [OF d]]]]
    show ?thesis by (simp add: m)
  qed
  have 4: "fst (handler 0 worldNoToken JUndefined JUndefined stateRun)
     = Return \<lparr>statusCode = 500,
               headers = [(str ''content-type'', str ''application/json'')],
               body = JSON_stringify worldNoToken
                 (JObj [(str ''error'', JStr (str ''Token HTTP 401 NO: no''))])\<rparr>"
  proof -
    have l: "loadParamsIntoEnv 0 worldNoToken stateRun = (Return (), stateRun)"
      by (rule loaded_load) (simp add: stateRun_def)
    have e: "env stateRun = envRun" by (simp add: stateRun_def)
    have m: "mustEnv (env stateRun) (str ''AUTH0_DOMAIN'') = Inr (str ''d.x'')"
      "mustEnv (env stateRun) (str ''AUTH0_CLIENT_ID'') = Inr (str ''id'')"
      "mustEnv (env stateRun) (str ''AUTH0_CLIENT_SECRET'') = Inr (str ''sec'')"
      by (simp_all add: e mustEnv_def envTruthy_def envRun_simps run_strings)
    have a: "envOr (env stateRun) (str ''AUTH0_AUDIENCE'')
                (str ''https://'' @ stripProtocol (str ''d.x'') @ str ''/api/v2/'')
               = str ''https://'' @ str ''d.x'' @ str ''/api/v2/''"
      by (simp add: e envOr_def envTruthy_def envRun_simps run_strings)
    have t: "getMgmtToken worldNoToken (str ''d.x'') (str ''id'') (str ''sec'')
             (envOr (env stateRun) (str ''AUTH0_AUDIENCE'')
                (str ''https://'' @ stripProtocol (str ''d.x'') @ str ''/api/v2/'')) stateRun
             = (Throw (Error (str ''Token HTTP 401 NO: no'')),
                snd (getMgmtToken worldNoToken (str ''d.x'') (str ''id'') (str ''sec'')
                       (str ''https://'' @ str ''d.x'' @ str ''/api/v2/'') stateRun))"
      unfolding a by (rule token_refused)
    have x: "errorText (Error (str ''Token HTTP 401 NO: no'')) = str ''Token HTTP 401 NO: no''"
      by (simp add: errorText_def Error_def str_def)
    from response_envelope [of 0 worldNoToken JUndefined JUndefined stateRun,
        THEN conjunct2, THEN conjunct2, THEN conjunct2, THEN conjunct2, THEN conjunct2,
        THEN conjunct1, rule_format,
        OF conjI [OF l conjI [OF m(1) conjI [OF m(2) conjI [OF m(3) t]]]]]
    show ?thesis by (simp add: x)
  qed
  from 1 2 3 4 show ?thesis by blast
qed

section \<open>Parameter resolution\<close>

text \<open>
  Claim C9, as amended. A key whose value is a non-empty string before resolution has the
  same value after the hierarchical phase, after the flat phase, and after
  \<open>loadParamsIntoEnv\<close> as a whole, whatever the store answers and however the
  resolution ends.
\<close>

theorem nonempty_settings_survive:
  assumes "env st k = Some v" and "v \<noteq> []"
  shows "env (snd (byPathLoop fuel w path tok st)) k = Some v
       \<and> env (snd (flatPhase w st)) k = Some v
       \<and> env (snd (loadParamsIntoEnv fuel w st)) k = Some v"
proof -
  let ?P = "\<lambda>s. env s k = Some v"
  have "?P (snd (loadParamsIntoEnv fuel w st))"
    unfolding loadParamsIntoEnv_def Let_def
    using assms
    by (auto intro!: bind_env_keeps [where P = ?P] simp: byPathLoop_keeps flatPhase_keeps)
  with assms show ?thesis by (simp add: byPathLoop_keeps flatPhase_keeps)
qed

theorem nonempty_settings_survive_witness:
  "env (stateBucket (str ''mine'')) (str ''S3_BUCKET'') = Some (str ''mine'')
   \<and> str ''mine'' \<noteq> []
   \<and> env (snd (loadParamsIntoEnv (Suc 0) worldPathStore (stateBucket (str ''mine''))))
        (str ''S3_BUCKET'') = Some (str ''mine'')
   \<and> env (snd (flatPhase worldFlatStore (stateBucket (str ''mine'')))) (str ''S3_BUCKET'')
        = Some (str ''mine'')"
proof -
  have a: "env (stateBucket (str ''mine'')) (str ''S3_BUCKET'') = Some (str ''mine'')"
    by (simp add: stateBucket_def)
  have b: "str ''mine'' \<noteq> []" by (simp add: str_def)
  show ?thesis
    using nonempty_settings_survive [OF a b, of "Suc 0" worldPathStore]
      nonempty_settings_survive [OF a b, of 0 worldFlatStore] a b
    by simp
qed

text \<open>
  Claim C9 as stated fails for a value that is present and empty: with \<open>S3_BUCKET\<close>
  set to the empty string before resolution, the hierarchical phase stores the value of
  the parameter store under that key, and so does the flat phase.
\<close>

theorem empty_setting_overwritten_counterexample:
  "env (stateBucket []) (str ''S3_BUCKET'') = Some []
   \<and> str ''S3_BUCKET'' \<in> set EXPECTED_KEYS
   \<and> env (snd (loadParamsIntoEnv (Suc 0) worldPathStore (stateBucket []))) (str ''S3_BUCKET'')
        = Some (str ''stored'')
   \<and> env (snd (flatPhase worldFlatStore (stateBucket []))) (str ''S3_BUCKET'')
        = Some (str ''stored'')
   \<and> Some (str ''stored'') \<noteq> Some ([] :: jstring)"
proof -
  have "env (stateBucket []) (str ''S3_BUCKET'') = Some []" by (simp add: stateBucket_def)
  moreover have "Some (str ''stored'') \<noteq> Some ([] :: jstring)" by (simp add: str_def)
  ultimately show ?thesis
    using bucket_expected load_overwrites flat_overwrites by simp
qed

text \<open>
  Claim C10. \<open>mustEnv\<close> throws \<open>Missing k\<close> for a key that is the empty string as for
  one that is absent. When resolution has returned and one of \<open>AUTH0_DOMAIN\<close>,
  \<open>AUTH0_CLIENT_ID\<close>, \<open>AUTH0_CLIENT_SECRET\<close> is empty or absent, the handler returns
  the 500 response whose error is \<open>Missing n\<close>, where \<open>n\<close> is the first of the three,
  in the order read, that is empty or absent. In a resolved process the outcome with the
  key set to the empty string is the outcome with the key removed.
\<close>

theorem empty_setting_is_missing:
  assumes "loadParamsIntoEnv fuel w st = (Return (), s)"
    and "k \<in> {str ''AUTH0_DOMAIN'', str ''AUTH0_CLIENT_ID'', str ''AUTH0_CLIENT_SECRET''}"
    and "env s k = Some [] \<or> env s k = None"
  shows "mustEnv (env s) k = Inl (Error (str ''Missing '' @ k))
       \<and> firstMissing (env s)
            \<in> {str ''AUTH0_DOMAIN'', str ''AUTH0_CLIENT_ID'', str ''AUTH0_CLIENT_SECRET''}
       \<and> (env s (firstMissing (env s)) = Some [] \<or> env s (firstMissing (env s)) = None)
       \<and> handler fuel w event ctx st =
           (Return (response_of w 500
                      (JObj [(str ''error'', JStr (str ''Missing '' @ firstMissing (env s)))])),
            emit (Console LogError (str ''Unhandled error:'')
                    (ArgStr (str ''Missing '' @ firstMissing (env s)))) s)
       \<and> (\<forall>s0. paramsLoaded s0 \<longrightarrow>
             fst (handler fuel w event ctx (s0\<lparr>env := (env s0)(k \<mapsto> [])\<rparr>))
               = fst (handler fuel w event ctx (s0\<lparr>env := (env s0)(k := None)\<rparr>)))"
proof -
  from assms(3) have f: "\<not> envTruthy (env s) k" by (auto simp: envTruthy_def)
  from resolve_missing [OF assms(1,2) f]
  have "\<not> envTruthy (env s) (firstMissing (env s))" by simp
  then have e: "env s (firstMissing (env s)) = Some [] \<or> env s (firstMissing (env s)) = None"
    by (auto simp: envTruthy_def split: option.splits)
  have same: "fst (handler fuel w event ctx (s0\<lparr>env := (env s0)(k \<mapsto> [])\<rparr>))
               = fst (handler fuel w event ctx (s0\<lparr>env := (env s0)(k := None)\<rparr>))"
    if p: "paramsLoaded s0" for s0
  proof -
    let ?a = "s0\<lparr>env := (env s0)(k \<mapsto> [])\<rparr>" and ?b = "s0\<lparr>env := (env s0)(k := None)\<rparr>"
    have la: "loadParamsIntoEnv fuel w ?a = (Return (), ?a)"
      and lb: "loadParamsIntoEnv fuel w ?b = (Return (), ?b)"
      using p by (simp_all add: loadParamsIntoEnv_def)
    have fa: "\<not> envTruthy (env ?a) k" and fb: "\<not> envTruthy (env ?b) k"
      by (simp_all add: envTruthy_def)
    show ?thesis
      unfolding handler_missing_setting [OF la assms(2) fa]
        handler_missing_setting [OF lb assms(2) fb]
      by (simp add: firstMissing_empty_absent)
  qed
  show ?thesis
    using mustEnv_falsy [OF f] firstMissing_required [of "env s"] e
      handler_missing_setting [OF assms(1,2) f] same
    by blast
qed

theorem empty_setting_is_missing_witness:
  "loadParamsIntoEnv 0 world0 stateNoDomain = (Return (), stateNoDomain)
   \<and> env stateNoDomain (str ''AUTH0_DOMAIN'') = Some []
   \<and> firstMissing (env stateNoDomain) = str ''AUTH0_DOMAIN''
   \<and> fst (handler 0 world0 JUndefined JUndefined stateNoDomain)
       = Return (response_of world0 500
                   (JObj [(str ''error'', JStr (str ''Missing AUTH0_DOMAIN''))]))"
proof -
  have l: "loadParamsIntoEnv 0 world0 stateNoDomain = (Return (), stateNoDomain)"
    by (simp add: loadParamsIntoEnv_def stateNoDomain_def)
  have k: "str ''AUTH0_DOMAIN''
             \<in> {str ''AUTH0_DOMAIN'', str ''AUTH0_CLIENT_ID'', str ''AUTH0_CLIENT_SECRET''}"
    by simp
  have e: "env stateNoDomain (str ''AUTH0_DOMAIN'') = Some []
             \<or> env stateNoDomain (str ''AUTH0_DOMAIN'') = None"
    by (simp add: stateNoDomain_def)
  have m: "firstMissing (env stateNoDomain) = str ''AUTH0_DOMAIN''"
    by (simp add: firstMissing_def stateNoDomain_def envTruthy_def)
  have t: "str ''Missing '' @ str ''AUTH0_DOMAIN'' = str ''Missing AUTH0_DOMAIN''"
    by (simp add: str_def)
  show ?thesis
    using empty_setting_is_missing [OF l k e, of JUndefined JUndefined] l m t
    by (simp add: stateNoDomain_def)
qed

end
